(* ===== verification/Prelude.thy ===== *)
theory Prelude
  imports Main "HOL-Library.Word"
begin

text \<open>
  Shared vocabulary of the development: fallible results and the question-mark operator, the
  fixed-width arithmetic of the Rust sources, durations and instants, ASCII case folding, and the
  generic list lemmas the component theories use.

  \<^item> A Rust \<^verbatim>\<open>Result<T, E>\<close> is the sum type \<open>'e + 'a\<close>, with \<open>Inl\<close> for \<^verbatim>\<open>Err\<close> and
    \<open>Inr\<close> for \<^verbatim>\<open>Ok\<close>.
  \<^item> \<^verbatim>\<open>usize\<close> and \<^verbatim>\<open>u64\<close> values are natural numbers below \<open>2 ^ 64\<close> (a 64-bit target); where
    the sources use checked or saturating arithmetic the bound is written out below.
  \<^item> A \<^verbatim>\<open>std::time::Duration\<close> is its number of nanoseconds; a \<^verbatim>\<open>std::time::Instant\<close> is the number
    of nanoseconds since some fixed point of the monotonic clock.
\<close>

named_theorems result_simps \<open>facts about fallible results\<close>
named_theorems width_simps \<open>facts about checked and saturating arithmetic\<close>

section \<open>Results\<close>

type_synonym ('e, 'a) result = "'e + 'a"

definition bind_ok :: "('e, 'a) result \<Rightarrow> ('a \<Rightarrow> ('e, 'b) result) \<Rightarrow> ('e, 'b) result" where
  "bind_ok r f = (case r of Inl e \<Rightarrow> Inl e | Inr x \<Rightarrow> f x)"

definition ok_or :: "'e \<Rightarrow> 'a option \<Rightarrow> ('e, 'a) result" where
  "ok_or e m = (case m of None \<Rightarrow> Inl e | Some x \<Rightarrow> Inr x)"

definition map_err :: "('e \<Rightarrow> 'f) \<Rightarrow> ('e, 'a) result \<Rightarrow> ('f, 'a) result" where
  "map_err h r = (case r of Inl e \<Rightarrow> Inl (h e) | Inr x \<Rightarrow> Inr x)"

fun is_ok :: "('e, 'a) result \<Rightarrow> bool" where
  "is_ok (Inl _) = False"
| "is_ok (Inr _) = True"

lemma bind_ok_Inl [simp]: "bind_ok (Inl e) f = Inl e"
  by (simp add: bind_ok_def)

lemma bind_ok_Inr [simp]: "bind_ok (Inr x) f = f x"
  by (simp add: bind_ok_def)

lemma bind_ok_eq_Inr [result_simps]:
  "bind_ok r f = Inr y \<longleftrightarrow> (\<exists>x. r = Inr x \<and> f x = Inr y)"
  by (cases r) auto

lemma bind_ok_eq_Inl [result_simps]:
  "bind_ok r f = Inl e \<longleftrightarrow> r = Inl e \<or> (\<exists>x. r = Inr x \<and> f x = Inl e)"
  by (cases r) auto

lemma bind_ok_cong [fundef_cong]:
  "r = s \<Longrightarrow> (\<And>x. s = Inr x \<Longrightarrow> f x = g x) \<Longrightarrow> bind_ok r f = bind_ok s g"
  by (cases s) auto

lemma ok_or_None [simp]: "ok_or e None = Inl e"
  by (simp add: ok_or_def)

lemma ok_or_Some [simp]: "ok_or e (Some x) = Inr x"
  by (simp add: ok_or_def)

lemma ok_or_eq_Inr [result_simps]: "ok_or e m = Inr x \<longleftrightarrow> m = Some x"
  by (cases m) auto

lemma ok_or_eq_Inl [result_simps]: "ok_or e m = Inl d \<longleftrightarrow> m = None \<and> d = e"
  by (cases m) auto

lemma map_err_Inl [simp]: "map_err h (Inl e) = Inl (h e)"
  by (simp add: map_err_def)

lemma map_err_Inr [simp]: "map_err h (Inr x) = Inr x"
  by (simp add: map_err_def)

lemma map_err_eq_Inr [result_simps]: "map_err h r = Inr x \<longleftrightarrow> r = Inr x"
  by (cases r) auto

lemma is_ok_iff [result_simps]: "is_ok r \<longleftrightarrow> (\<exists>x. r = Inr x)"
  by (cases r) auto

section \<open>Fixed-width arithmetic\<close>

type_synonym u8 = "8 word"
type_synonym u64w = "64 word"

definition usize_max :: nat where
  "usize_max = 2 ^ 64 - 1"

definition u64_max :: nat where
  "u64_max = 2 ^ 64 - 1"

definition u32_max :: nat where
  "u32_max = 2 ^ 32 - 1"

definition saturating_add :: "nat \<Rightarrow> nat \<Rightarrow> nat" where
  "saturating_add a b = min (a + b) usize_max"

definition saturating_sub :: "nat \<Rightarrow> nat \<Rightarrow> nat" where
  "saturating_sub a b = a - b"

definition saturating_mul :: "nat \<Rightarrow> nat \<Rightarrow> nat" where
  "saturating_mul a b = min (a * b) usize_max"

definition checked_add_usize :: "nat \<Rightarrow> nat \<Rightarrow> nat option" where
  "checked_add_usize a b = (if a + b \<le> usize_max then Some (a + b) else None)"

definition checked_mul_u64 :: "nat \<Rightarrow> nat \<Rightarrow> nat option" where
  "checked_mul_u64 a b = (if a * b \<le> u64_max then Some (a * b) else None)"

definition checked_add_u128 :: "nat \<Rightarrow> nat \<Rightarrow> nat option" where
  "checked_add_u128 a b = (if a + b < 2 ^ 128 then Some (a + b) else None)"

definition u64_try_from :: "nat \<Rightarrow> nat option" where
  "u64_try_from n = (if n \<le> u64_max then Some n else None)"

definition u32_try_from :: "nat \<Rightarrow> nat option" where
  "u32_try_from n = (if n \<le> u32_max then Some n else None)"

lemma saturating_add_exact [width_simps]:
  "a + b \<le> usize_max \<Longrightarrow> saturating_add a b = a + b"
  by (simp add: saturating_add_def)

lemma saturating_add_le: "saturating_add a b \<le> a + b"
  by (simp add: saturating_add_def)

lemma saturating_add_max: "saturating_add a b \<le> usize_max"
  by (simp add: saturating_add_def)

lemma saturating_sub_eq [simp]: "saturating_sub a b = a - b"
  by (simp add: saturating_sub_def)

lemma checked_add_usize_Some [width_simps]:
  "checked_add_usize a b = Some c \<longleftrightarrow> c = a + b \<and> a + b \<le> usize_max"
  by (auto simp: checked_add_usize_def)

lemma u64_try_from_Some [width_simps]:
  "u64_try_from n = Some m \<longleftrightarrow> m = n \<and> n \<le> u64_max"
  by (auto simp: u64_try_from_def)

section \<open>Time\<close>

type_synonym duration = nat
type_synonym instant = nat

definition from_millis :: "nat \<Rightarrow> duration" where
  "from_millis ms = ms * 1000000"

definition from_secs :: "nat \<Rightarrow> duration" where
  "from_secs s = s * 1000000000"

definition as_millis :: "duration \<Rightarrow> nat" where
  "as_millis d = d div 1000000"

text \<open>
  \<^verbatim>\<open>Instant::checked_add\<close> fails when the platform clock cannot represent the sum; the largest
  representable instant is a parameter of every definition that depends on it.
\<close>

definition instant_checked_add_std :: "instant \<Rightarrow> instant \<Rightarrow> duration \<Rightarrow> instant option" where
  "instant_checked_add_std clock_max t d = (if t + d \<le> clock_max then Some (t + d) else None)"

lemma instant_checked_add_std_Some [width_simps]:
  "instant_checked_add_std m t d = Some u \<longleftrightarrow> u = t + d \<and> t + d \<le> m"
  by (auto simp: instant_checked_add_std_def)

lemma as_millis_from_millis [simp]: "as_millis (from_millis ms) = ms"
  by (simp add: as_millis_def from_millis_def)

lemma from_millis_as_millis_le: "from_millis (as_millis d) \<le> d"
  by (simp add: as_millis_def from_millis_def)

section \<open>ASCII case folding\<close>

definition to_ascii_lowercase_char :: "char \<Rightarrow> char" where
  "to_ascii_lowercase_char c =
     (if 65 \<le> (of_char c :: nat) \<and> (of_char c :: nat) \<le> 90 then char_of ((of_char c :: nat) + 32) else c)"

definition to_ascii_lowercase :: "string \<Rightarrow> string" where
  "to_ascii_lowercase s = map to_ascii_lowercase_char s"

definition eq_ignore_ascii_case :: "string \<Rightarrow> string \<Rightarrow> bool" where
  "eq_ignore_ascii_case a b \<longleftrightarrow> to_ascii_lowercase a = to_ascii_lowercase b"

lemma eq_ignore_ascii_case_refl [simp]: "eq_ignore_ascii_case a a"
  by (simp add: eq_ignore_ascii_case_def)

lemma eq_ignore_ascii_case_sym: "eq_ignore_ascii_case a b \<longleftrightarrow> eq_ignore_ascii_case b a"
  by (auto simp: eq_ignore_ascii_case_def)

lemma eq_ignore_ascii_case_trans:
  "eq_ignore_ascii_case a b \<Longrightarrow> eq_ignore_ascii_case b c \<Longrightarrow> eq_ignore_ascii_case a c"
  by (simp add: eq_ignore_ascii_case_def)

lemma to_ascii_lowercase_append [simp]:
  "to_ascii_lowercase (a @ b) = to_ascii_lowercase a @ to_ascii_lowercase b"
  by (simp add: to_ascii_lowercase_def)

lemma to_ascii_lowercase_char_idem [simp]:
  "to_ascii_lowercase_char (to_ascii_lowercase_char c) = to_ascii_lowercase_char c"
  by (simp add: to_ascii_lowercase_char_def)

lemma to_ascii_lowercase_idem [simp]:
  "to_ascii_lowercase (to_ascii_lowercase s) = to_ascii_lowercase s"
  by (simp add: to_ascii_lowercase_def)

section \<open>Lists\<close>

lemma length_filter_mono:
  "(\<And>x. x \<in> set xs \<Longrightarrow> P x \<Longrightarrow> Q x) \<Longrightarrow> length (filter P xs) \<le> length (filter Q xs)"
  by (induction xs) auto

lemma filter_eq_dropWhile_sorted:
  assumes "sorted xs" and "\<And>x y. x \<le> y \<Longrightarrow> P x \<Longrightarrow> P y"
  shows "filter P xs = dropWhile (\<lambda>x. \<not> P x) xs"
  using assms
proof (induction xs)
  case (Cons a xs)
  show ?case
  proof (cases "P a")
    case True
    with Cons.prems have "\<forall>x\<in>set xs. P x" by auto
    with True show ?thesis by (simp add: filter_id_conv)
  next
    case False
    with Cons show ?thesis by simp
  qed
qed simp

text \<open>Prefixes of lists sorted by a key.\<close>

lemma sorted_dropWhile_gt:
  "sorted (map f xs) \<Longrightarrow> x \<in> set (dropWhile (\<lambda>e. f e \<le> k) xs) \<Longrightarrow> (k :: 'a::linorder) < f x"
  by (induction xs) (auto split: if_splits)

lemma takeWhile_eq_filter_sorted:
  "sorted (map f xs) \<Longrightarrow> takeWhile (\<lambda>e. f e \<le> (k :: 'a::linorder)) xs = filter (\<lambda>e. f e \<le> k) xs"
proof (induction xs)
  case (Cons x xs)
  have "filter (\<lambda>e. f e \<le> k) xs = []" if "\<not> f x \<le> k"
    using Cons.prems that by (fastforce simp: filter_empty_conv)
  with Cons show ?case by simp
qed simp

lemma dropWhile_eq_filter_sorted:
  "sorted (map f xs) \<Longrightarrow> dropWhile (\<lambda>e. f e \<le> (k :: 'a::linorder)) xs = filter (\<lambda>e. k < f e) xs"
proof (induction xs)
  case (Cons x xs)
  have "filter (\<lambda>e. k < f e) xs = xs" if "\<not> f x \<le> k"
    using Cons.prems that by (fastforce simp: filter_id_conv)
  with Cons show ?case by (auto simp: not_le)
qed simp

end
