(* ===== verification/Restart_Guard.thy ===== *)
theory Restart_Guard
  imports Prelude
begin

text \<open>
  The worker restart limiter of \<^verbatim>\<open>src/internal/pool/restart_guard.rs\<close>: a queue of the instants
  at which restarts were granted, from which expired entries are popped before each decision. The
  interface the pool uses is the locale \<open>restart_limiter\<close>; the sliding-window bound is proved for
  whole sequences of requests.
\<close>

section \<open>State and operations\<close>

record RestartGuard =
  rg_window :: duration
  rg_max_restarts :: nat
  rg_restarts :: "instant list"

definition guard_new :: "duration \<Rightarrow> nat \<Rightarrow> RestartGuard" where
  "guard_new window max_restarts =
     \<lparr>rg_window = window, rg_max_restarts = max_restarts, rg_restarts = []\<rparr>"

text \<open>
  The loop that pops the front while it is older than the window. \<^verbatim>\<open>Instant::duration_since\<close>
  saturates at zero, as subtraction on natural numbers does.
\<close>

fun pop_expired :: "duration \<Rightarrow> instant \<Rightarrow> instant list \<Rightarrow> instant list" where
  "pop_expired window now [] = []"
| "pop_expired window now (oldest # rest) =
     (if now - oldest > window then pop_expired window now rest else oldest # rest)"

definition allow_restart :: "RestartGuard \<Rightarrow> instant \<Rightarrow> bool \<times> RestartGuard" where
  "allow_restart g now =
     (let rs = pop_expired (rg_window g) now (rg_restarts g)
      in if length rs \<ge> rg_max_restarts g then (False, g\<lparr>rg_restarts := rs\<rparr>)
         else (True, g\<lparr>rg_restarts := rs @ [now]\<rparr>))"

definition restart_attempts_in_window :: "RestartGuard \<Rightarrow> nat" where
  "restart_attempts_in_window g = length (rg_restarts g)"

definition max_restarts_in_window :: "RestartGuard \<Rightarrow> nat" where
  "max_restarts_in_window g = rg_max_restarts g"

definition guard_inv :: "RestartGuard \<Rightarrow> bool" where
  "guard_inv g \<longleftrightarrow> length (rg_restarts g) \<le> rg_max_restarts g"

text \<open>The instants granted by a sequence of requests.\<close>

fun granted :: "RestartGuard \<Rightarrow> instant list \<Rightarrow> instant list" where
  "granted g [] = []"
| "granted g (t # ts) =
     (case allow_restart g t of (b, g') \<Rightarrow> (if b then t # granted g' ts else granted g' ts))"

section \<open>The limiter interface\<close>

text \<open>
  What a client of a restart limiter relies on: a request is either granted, and then counted,
  or refused because the budget is used up; the budget itself never changes.
\<close>

locale restart_limiter =
  fixes ask :: "'g \<Rightarrow> instant \<Rightarrow> bool \<times> 'g"
    and used :: "'g \<Rightarrow> nat"
    and limit :: "'g \<Rightarrow> nat"
    and invar :: "'g \<Rightarrow> bool"
  assumes invar_ask: "invar g \<Longrightarrow> invar (snd (ask g t))"
    and limit_ask: "limit (snd (ask g t)) = limit g"
    and used_le: "invar g \<Longrightarrow> used g \<le> limit g"
    and granted_used: "fst (ask g t) \<Longrightarrow> 0 < used (snd (ask g t))"
    and refused_full: "\<not> fst (ask g t) \<Longrightarrow> limit g \<le> used (snd (ask g t))"
begin

lemma ask_granted_bounds:
  "invar g \<Longrightarrow> fst (ask g t) \<Longrightarrow> 0 < used (snd (ask g t)) \<and> used (snd (ask g t)) \<le> limit g"
  using granted_used used_le invar_ask limit_ask by metis

lemma ask_refused_exact:
  "invar g \<Longrightarrow> \<not> fst (ask g t) \<Longrightarrow> used (snd (ask g t)) = limit g"
  using refused_full used_le invar_ask limit_ask by (metis le_antisym)

end

section \<open>The guard implements the limiter\<close>

lemma pop_expired_dropWhile: "pop_expired w now rs = dropWhile (\<lambda>t. \<not> now - t \<le> w) rs"
  by (induction rs) auto

lemma length_pop_expired: "length (pop_expired w now rs) \<le> length rs"
  by (induction rs) auto

lemma allow_restart_frame [simp]:
  "rg_window (snd (allow_restart g t)) = rg_window g"
  "rg_max_restarts (snd (allow_restart g t)) = rg_max_restarts g"
  by (simp_all add: allow_restart_def Let_def)

lemma allow_restart_inv: "guard_inv g \<Longrightarrow> guard_inv (snd (allow_restart g t))"
  using length_pop_expired [of "rg_window g" t "rg_restarts g"]
  by (auto simp: guard_inv_def allow_restart_def Let_def)

interpretation guard: restart_limiter allow_restart restart_attempts_in_window
  max_restarts_in_window guard_inv
proof unfold_locales
  show "guard_inv (snd (allow_restart g t))" if "guard_inv g" for g t
    using that by (rule allow_restart_inv)
qed (auto simp: restart_attempts_in_window_def max_restarts_in_window_def guard_inv_def
       allow_restart_def Let_def split: if_splits)

section \<open>The sliding window\<close>

text \<open>
  The recorded instants are exactly the granted ones that are not older than the window, so a
  grant at \<open>t\<close> means that fewer than the maximum lie within the window that ends at \<open>t\<close>.
\<close>

definition tracks :: "RestartGuard \<Rightarrow> instant list \<Rightarrow> instant \<Rightarrow> bool" where
  "tracks g hist last_t \<longleftrightarrow>
     sorted hist \<and> (\<forall>t \<in> set hist. t \<le> last_t) \<and>
     (\<exists>u \<le> last_t. rg_restarts g = filter (\<lambda>t. u - t \<le> rg_window g) hist)"

lemma pop_expired_tracks:
  assumes "sorted hist" "u \<le> now"
  shows "pop_expired w now (filter (\<lambda>t. u - t \<le> w) hist) = filter (\<lambda>t. now - t \<le> w) hist"
proof -
  let ?rs = "filter (\<lambda>t. u - t \<le> w) hist"
  have "sorted ?rs" using assms(1) by (rule sorted_wrt_filter)
  then have "filter (\<lambda>t. now - t \<le> w) ?rs = pop_expired w now ?rs"
    unfolding pop_expired_dropWhile by (intro filter_eq_dropWhile_sorted) auto
  moreover have "filter (\<lambda>t. now - t \<le> w) ?rs = filter (\<lambda>t. now - t \<le> w) hist"
    using assms(2) by (auto intro!: filter_cong)
  ultimately show ?thesis by simp
qed

lemma tracks_new: "tracks (guard_new w m) [] 0"
  by (simp add: tracks_def guard_new_def)

lemma tracks_step:
  assumes tr: "tracks g hist last_t" and le: "last_t \<le> t"
  shows "tracks (snd (allow_restart g t)) (if fst (allow_restart g t) then hist @ [t] else hist) t"
proof -
  from tr obtain u where u: "u \<le> last_t"
    "rg_restarts g = filter (\<lambda>x. u - x \<le> rg_window g) hist"
    and hist: "sorted hist" "\<forall>x \<in> set hist. x \<le> last_t"
    by (auto simp: tracks_def)
  have rs: "pop_expired (rg_window g) t (rg_restarts g) = filter (\<lambda>x. t - x \<le> rg_window g) hist"
    using u le hist(1) by (simp add: pop_expired_tracks)
  have "\<forall>x \<in> set hist. x \<le> t" using hist(2) le by auto
  then show ?thesis
    using hist(1) by (auto simp: tracks_def allow_restart_def Let_def rs sorted_append intro!: exI [of _ t])
qed

lemma tracks_granted_count:
  assumes "tracks g hist last_t" and "last_t \<le> t" and "fst (allow_restart g t)"
  shows "length (filter (\<lambda>x. t - x \<le> rg_window g) hist) < rg_max_restarts g"
proof -
  from assms(1) obtain u where "u \<le> last_t"
    "rg_restarts g = filter (\<lambda>x. u - x \<le> rg_window g) hist" "sorted hist"
    by (auto simp: tracks_def)
  with assms(2) have "pop_expired (rg_window g) t (rg_restarts g)
      = filter (\<lambda>x. t - x \<le> rg_window g) hist"
    by (simp add: pop_expired_tracks)
  with assms(3) show ?thesis
    by (auto simp: allow_restart_def Let_def split: if_splits)
qed

text \<open>No interval as long as the window holds more than the maximum of the granted instants.\<close>

definition window_bounded :: "duration \<Rightarrow> nat \<Rightarrow> instant list \<Rightarrow> bool" where
  "window_bounded w m hist \<longleftrightarrow>
     (\<forall>a. length (filter (\<lambda>t. a \<le> t \<and> t \<le> a + w) hist) \<le> m)"

lemma window_bounded_snoc:
  assumes wb: "window_bounded w m hist"
    and few: "length (filter (\<lambda>x. t - x \<le> w) hist) < m"
  shows "window_bounded w m (hist @ [t])"
  unfolding window_bounded_def
proof
  fix a
  show "length (filter (\<lambda>x. a \<le> x \<and> x \<le> a + w) (hist @ [t])) \<le> m"
  proof (cases "a \<le> t \<and> t \<le> a + w")
    case True
    have "length (filter (\<lambda>x. a \<le> x \<and> x \<le> a + w) hist)
        \<le> length (filter (\<lambda>x. t - x \<le> w) hist)"
      using True by (intro length_filter_mono) auto
    with few True show ?thesis by simp
  next
    case False
    with wb show ?thesis by (auto simp: window_bounded_def)
  qed
qed

lemma granted_window_bounded:
  assumes "tracks g hist last_t" and "window_bounded (rg_window g) (rg_max_restarts g) hist"
    and "sorted (last_t # ts)"
  shows "window_bounded (rg_window g) (rg_max_restarts g) (hist @ granted g ts)"
  using assms
proof (induction ts arbitrary: g hist last_t)
  case (Cons t ts)
  define g' where "g' = snd (allow_restart g t)"
  have le: "last_t \<le> t" and srt: "sorted (t # ts)" using Cons.prems(3) by auto
  note tr = tracks_step [OF Cons.prems(1) le]
  have frame: "rg_window g' = rg_window g" "rg_max_restarts g' = rg_max_restarts g"
    by (simp_all add: g'_def)
  show ?case
  proof (cases "fst (allow_restart g t)")
    case True
    then have "window_bounded (rg_window g') (rg_max_restarts g') (hist @ [t])"
      using window_bounded_snoc [OF Cons.prems(2)] tracks_granted_count [OF Cons.prems(1) le]
      by (simp add: frame)
    with Cons.IH [of g' "hist @ [t]" t] tr True srt show ?thesis
      by (simp add: g'_def frame case_prod_unfold)
  next
    case False
    with Cons.IH [of g' hist t] tr srt Cons.prems(2) show ?thesis
      by (simp add: g'_def frame case_prod_unfold)
  qed
qed simp

section \<open>Equivalence with a declarative limiter\<close>

text \<open>
  The reference limiter keeps the whole history and grants a request exactly when fewer than the
  maximum of the earlier grants are not older than the window.
\<close>

fun reference_granted :: "duration \<Rightarrow> nat \<Rightarrow> instant list \<Rightarrow> instant list \<Rightarrow> instant list" where
  "reference_granted w m hist [] = hist"
| "reference_granted w m hist (t # ts) =
     reference_granted w m
       (if length (filter (\<lambda>x. t - x \<le> w) hist) < m then hist @ [t] else hist) ts"

lemma allow_restart_decision:
  assumes "tracks g hist last_t" and "last_t \<le> t"
  shows "fst (allow_restart g t) \<longleftrightarrow>
    length (filter (\<lambda>x. t - x \<le> rg_window g) hist) < rg_max_restarts g"
proof -
  from assms(1) obtain u where "u \<le> last_t"
    "rg_restarts g = filter (\<lambda>x. u - x \<le> rg_window g) hist" "sorted hist"
    by (auto simp: tracks_def)
  with assms(2) have "pop_expired (rg_window g) t (rg_restarts g)
      = filter (\<lambda>x. t - x \<le> rg_window g) hist"
    by (simp add: pop_expired_tracks)
  then show ?thesis by (auto simp: allow_restart_def Let_def)
qed

lemma granted_reference_lemma:
  assumes "tracks g hist last_t" and "sorted (last_t # ts)"
  shows "hist @ granted g ts = reference_granted (rg_window g) (rg_max_restarts g) hist ts"
  using assms
proof (induction ts arbitrary: g hist last_t)
  case (Cons t ts)
  have le: "last_t \<le> t" and srt: "sorted (t # ts)" using Cons.prems(2) by auto
  note tr = tracks_step [OF Cons.prems(1) le]
  note dec = allow_restart_decision [OF Cons.prems(1) le]
  show ?case
  proof (cases "fst (allow_restart g t)")
    case True
    with Cons.IH [OF _ srt, of "snd (allow_restart g t)" "hist @ [t]"] tr dec show ?thesis
      by (simp add: case_prod_unfold)
  next
    case False
    with Cons.IH [OF _ srt, of "snd (allow_restart g t)" hist] tr dec show ?thesis
      by (simp add: case_prod_unfold)
  qed
qed simp

section \<open>Properties\<close>

text \<open>
  Property C11: for requests at non-decreasing instants, no interval as long as the window holds
  more than the configured maximum of granted restarts.
\<close>

theorem restart_window_bound:
  assumes "sorted ts"
  shows "length (filter (\<lambda>t. a \<le> t \<and> t \<le> a + w) (granted (guard_new w m) ts)) \<le> m"
proof -
  have "window_bounded w m ([] @ granted (guard_new w m) ts)"
    using granted_window_bounded [OF tracks_new, of w m ts] assms
    by (simp add: guard_new_def window_bounded_def)
  then show ?thesis by (simp add: window_bounded_def)
qed

theorem restart_window_bound_witness:
  "length (filter (\<lambda>t. 0 \<le> t \<and> t \<le> 0 + 10) (granted (guard_new 10 2) [0, 1, 5, 20])) \<le> 2
   \<and> granted (guard_new 10 2) [0, 1, 5, 20] = [0, 1, 20]"
  using restart_window_bound [of "[0, 1, 5, 20]" 0 10 2]
  by (simp add: guard_new_def allow_restart_def)

text \<open>
  Property C12: popping expired instants from the front is equivalent to keeping the whole
  history: the queue-based guard grants exactly what the declarative limiter grants.
\<close>

theorem guard_equals_reference:
  assumes "sorted ts"
  shows "granted (guard_new w m) ts = reference_granted w m [] ts"
  using granted_reference_lemma [OF tracks_new, of ts w m] assms by (simp add: guard_new_def)

theorem guard_equals_reference_witness:
  "granted (guard_new 10 1) [3, 4, 14] = reference_granted 10 1 [] [3, 4, 14]"
  by (rule guard_equals_reference) simp

end
