(* ===== verification/Errors.thy ===== *)
theory Errors
  imports Prelude
begin

text \<open>
  The error model of \<^verbatim>\<open>src/internal/error.rs\<close>: the error type carried by every pool and runtime
  operation, its stable symbolic kind, the builders, and the rendered form.
\<close>

section \<open>Kinds and errors\<close>

datatype MechanicsErrorKind =
    KExecution | KQueueFull | KQueueTimeout | KRunTimeout | KPoolClosed
  | KWorkerUnavailable | KCanceled | KPanic | KRuntimePool

fun kind_repr :: "MechanicsErrorKind \<Rightarrow> u8" where
  "kind_repr KExecution = 1"
| "kind_repr KQueueFull = 2"
| "kind_repr KQueueTimeout = 3"
| "kind_repr KRunTimeout = 4"
| "kind_repr KPoolClosed = 5"
| "kind_repr KWorkerUnavailable = 6"
| "kind_repr KCanceled = 7"
| "kind_repr KPanic = 8"
| "kind_repr KRuntimePool = 9"

fun as_str :: "MechanicsErrorKind \<Rightarrow> string" where
  "as_str KExecution = ''MechanicsError::Execution''"
| "as_str KQueueFull = ''MechanicsError::QueueFull''"
| "as_str KQueueTimeout = ''MechanicsError::QueueTimeout''"
| "as_str KRunTimeout = ''MechanicsError::RunTimeout''"
| "as_str KPoolClosed = ''MechanicsError::PoolClosed''"
| "as_str KWorkerUnavailable = ''MechanicsError::WorkerUnavailable''"
| "as_str KCanceled = ''MechanicsError::Canceled''"
| "as_str KPanic = ''MechanicsError::Panic''"
| "as_str KRuntimePool = ''MechanicsError::RuntimePool''"

datatype MechanicsError =
    Execution string | QueueFull string | QueueTimeout string | RunTimeout string
  | PoolClosed string | WorkerUnavailable string | Canceled string | Panic string
  | RuntimePool string

definition execution :: "string \<Rightarrow> MechanicsError" where
  [simp]: "execution m = Execution m"

definition runtime_pool :: "string \<Rightarrow> MechanicsError" where
  [simp]: "runtime_pool m = RuntimePool m"

definition queue_full :: "string \<Rightarrow> MechanicsError" where
  [simp]: "queue_full m = QueueFull m"

definition queue_timeout :: "string \<Rightarrow> MechanicsError" where
  [simp]: "queue_timeout m = QueueTimeout m"

definition run_timeout_error :: "string \<Rightarrow> MechanicsError" where
  [simp]: "run_timeout_error m = RunTimeout m"

definition pool_closed :: "string \<Rightarrow> MechanicsError" where
  [simp]: "pool_closed m = PoolClosed m"

definition worker_unavailable :: "string \<Rightarrow> MechanicsError" where
  [simp]: "worker_unavailable m = WorkerUnavailable m"

definition canceled_error :: "string \<Rightarrow> MechanicsError" where
  [simp]: "canceled_error m = Canceled m"

definition worker_panic :: "string \<Rightarrow> MechanicsError" where
  [simp]: "worker_panic m = Panic m"

fun msg :: "MechanicsError \<Rightarrow> string" where
  "msg (Execution m) = m"
| "msg (QueueFull m) = m"
| "msg (QueueTimeout m) = m"
| "msg (RunTimeout m) = m"
| "msg (PoolClosed m) = m"
| "msg (WorkerUnavailable m) = m"
| "msg (Canceled m) = m"
| "msg (Panic m) = m"
| "msg (RuntimePool m) = m"

fun kind :: "MechanicsError \<Rightarrow> MechanicsErrorKind" where
  "kind (Execution _) = KExecution"
| "kind (QueueFull _) = KQueueFull"
| "kind (QueueTimeout _) = KQueueTimeout"
| "kind (RunTimeout _) = KRunTimeout"
| "kind (PoolClosed _) = KPoolClosed"
| "kind (WorkerUnavailable _) = KWorkerUnavailable"
| "kind (Canceled _) = KCanceled"
| "kind (Panic _) = KPanic"
| "kind (RuntimePool _) = KRuntimePool"

definition error_display :: "MechanicsError \<Rightarrow> string" where
  "error_display e = as_str (kind e) @ '': '' @ msg e"

section \<open>The rendered form is faithful\<close>

lemma error_eqI: "kind e = kind f \<Longrightarrow> msg e = msg f \<Longrightarrow> e = f"
  by (cases e; cases f) auto

lemma as_str_inject: "as_str k = as_str l \<longleftrightarrow> k = l"
  by (cases k; cases l) simp_all

lemma as_str_no_space: "CHR '' '' \<notin> set (as_str k)"
  by (cases k) simp_all

lemma takeWhile_no_space_display:
  "takeWhile (\<lambda>c. c \<noteq> CHR '' '') (error_display e) = as_str (kind e) @ '':''"
proof -
  have "\<forall>c \<in> set (as_str (kind e) @ '':''). c \<noteq> CHR '' ''"
    using as_str_no_space [of "kind e"] by auto
  then have "takeWhile (\<lambda>c. c \<noteq> CHR '' '') ((as_str (kind e) @ '':'') @ (CHR '' '' # msg e))
      = (as_str (kind e) @ '':'')
          @ takeWhile (\<lambda>c. c \<noteq> CHR '' '') (CHR '' '' # msg e)"
    by (intro takeWhile_append2) auto
  then show ?thesis by (simp add: error_display_def)
qed

text \<open>
  The rendered form of an error determines the error, so no two kinds and no two
  messages are confused in logs or replies.
\<close>

theorem error_display_inject: "error_display e = error_display f \<longleftrightarrow> e = f"
proof
  assume eq: "error_display e = error_display f"
  then have "kind e = kind f"
    using takeWhile_no_space_display [of e] takeWhile_no_space_display [of f]
    by (simp add: as_str_inject)
  moreover from this eq have "msg e = msg f" by (simp add: error_display_def)
  ultimately show "e = f" by (rule error_eqI)
qed simp

end
