(* ===== verification/Jobs.thy ===== *)
theory Jobs
  imports Errors
begin

text \<open>
  Jobs and execution limits, \<^verbatim>\<open>src/internal/job.rs\<close>. The endpoint configuration is a type
  parameter \<open>'c\<close> (it is defined by the \<^verbatim>\<open>mechanics-config\<close> crate), as are its JSON forms and that
  of a \<^verbatim>\<open>Duration\<close>.
\<close>

section \<open>Data\<close>

text \<open>A \<^verbatim>\<open>serde_json::Value\<close>; numbers stay abstract, an object is its list of entries.\<close>

datatype 'n json =
    JNull
  | JBool bool
  | JNumber 'n
  | JString string
  | JArray "'n json list"
  | JObject "(string \<times> 'n json) list"

record ('n, 'c) MechanicsJob =
  mj_module_source :: string
  mj_arg :: "'n json"
  mj_config :: 'c
  mj_run_timeout :: "duration option"

record MechanicsExecutionLimits =
  el_max_execution_time :: duration
  el_max_loop_iterations :: nat
  el_max_recursion_depth :: nat
  el_max_stack_size :: nat

section \<open>Operations on jobs\<close>

definition validate_module_source :: "string \<Rightarrow> (MechanicsError, unit) result" where
  "validate_module_source src =
     (if src = [] then Inl (runtime_pool ''module_source must not be empty'') else Inr ())"

definition job_new ::
  "string \<Rightarrow> 'n json \<Rightarrow> 'c \<Rightarrow> (MechanicsError, ('n, 'c) MechanicsJob) result" where
  "job_new src a cfg =
     bind_ok (validate_module_source src) (\<lambda>_.
       Inr \<lparr>mj_module_source = src, mj_arg = a, mj_config = cfg, mj_run_timeout = None\<rparr>)"

definition with_run_timeout ::
  "('n, 'c) MechanicsJob \<Rightarrow> duration \<Rightarrow> (MechanicsError, ('n, 'c) MechanicsJob) result" where
  "with_run_timeout job timeout =
     (if timeout = 0 then Inl (runtime_pool ''job run_timeout must be > 0'')
      else Inr (job\<lparr>mj_run_timeout := Some timeout\<rparr>))"

definition into_parts :: "('n, 'c) MechanicsJob \<Rightarrow> string \<times> 'n json \<times> 'c" where
  "into_parts job = (mj_module_source job, mj_arg job, mj_config job)"

definition job_serialize ::
  "('c \<Rightarrow> 'n json) \<Rightarrow> (duration \<Rightarrow> 'n json) \<Rightarrow> ('n, 'c) MechanicsJob \<Rightarrow> 'n json" where
  "job_serialize ser_config ser_duration job =
     JObject ([(''module_source'', JString (mj_module_source job)),
               (''arg'', mj_arg job),
               (''config'', ser_config (mj_config job))]
       @ (case mj_run_timeout job of
            None \<Rightarrow> []
          | Some d \<Rightarrow> [(''run_timeout'', ser_duration d)]))"

text \<open>
  Deserialization goes through a derived raw struct: unknown and duplicate fields are rejected,
  \<^verbatim>\<open>module_source\<close>, \<^verbatim>\<open>arg\<close> and \<^verbatim>\<open>config\<close> are required, \<^verbatim>\<open>run_timeout\<close> is optional and null
  stands for absence. The raw values then pass through the validating constructors.
\<close>

definition raw_fields :: "string list" where
  "raw_fields = [''module_source'', ''arg'', ''config'', ''run_timeout'']"

fun as_json_string :: "'n json \<Rightarrow> string option" where
  "as_json_string (JString s) = Some s"
| "as_json_string _ = None"

datatype de_error = UnknownField | DuplicateField | MissingField string | InvalidField string
  | NotAnObject | Custom MechanicsError

definition optional_duration ::
  "('n json \<Rightarrow> duration option) \<Rightarrow> 'n json option \<Rightarrow> (de_error, duration option) result" where
  "optional_duration de_duration v =
     (case v of
        None \<Rightarrow> Inr None
      | Some JNull \<Rightarrow> Inr None
      | Some j \<Rightarrow> bind_ok (ok_or (InvalidField ''run_timeout'') (de_duration j)) (\<lambda>d. Inr (Some d)))"

definition job_deserialize ::
  "('n json \<Rightarrow> 'c option) \<Rightarrow> ('n json \<Rightarrow> duration option) \<Rightarrow> 'n json
     \<Rightarrow> (de_error, ('n, 'c) MechanicsJob) result" where
  "job_deserialize de_config de_duration j =
     (case j of
        JObject fs \<Rightarrow>
          if \<exists>k \<in> set (map fst fs). k \<notin> set raw_fields then Inl UnknownField
          else if \<not> distinct (map fst fs) then Inl DuplicateField
          else
            bind_ok (ok_or (MissingField ''module_source'') (map_of fs ''module_source'')) (\<lambda>src_j.
            bind_ok (ok_or (InvalidField ''module_source'') (as_json_string src_j)) (\<lambda>src.
            bind_ok (ok_or (MissingField ''arg'') (map_of fs ''arg'')) (\<lambda>a.
            bind_ok (ok_or (MissingField ''config'') (map_of fs ''config'')) (\<lambda>cfg_j.
            bind_ok (ok_or (InvalidField ''config'') (de_config cfg_j)) (\<lambda>cfg.
            bind_ok (optional_duration de_duration (map_of fs ''run_timeout'')) (\<lambda>timeout.
              map_err Custom
                (bind_ok (job_new src a cfg) (\<lambda>job.
                   case timeout of
                     Some d \<Rightarrow> with_run_timeout job d
                   | None \<Rightarrow> Inr job))))))))
      | _ \<Rightarrow> Inl NotAnObject)"

definition job_wf :: "('n, 'c) MechanicsJob \<Rightarrow> bool" where
  "job_wf job \<longleftrightarrow> mj_module_source job \<noteq> [] \<and> mj_run_timeout job \<noteq> Some 0"

section \<open>Operations on limits\<close>

definition limits_validate :: "MechanicsExecutionLimits \<Rightarrow> (MechanicsError, unit) result" where
  "limits_validate l =
     (if el_max_execution_time l = 0 then
        Inl (runtime_pool ''execution_limits.max_execution_time must be > 0'')
      else if el_max_loop_iterations l = 0 then
        Inl (runtime_pool ''execution_limits.max_loop_iterations must be > 0'')
      else if el_max_recursion_depth l = 0 then
        Inl (runtime_pool ''execution_limits.max_recursion_depth must be > 0'')
      else if el_max_stack_size l = 0 then
        Inl (runtime_pool ''execution_limits.max_stack_size must be > 0'')
      else Inr ())"

definition limits_new ::
  "duration \<Rightarrow> nat \<Rightarrow> nat \<Rightarrow> nat \<Rightarrow> (MechanicsError, MechanicsExecutionLimits) result" where
  "limits_new t loops depth stack =
     (let limits = \<lparr>el_max_execution_time = t, el_max_loop_iterations = loops,
                     el_max_recursion_depth = depth, el_max_stack_size = stack\<rparr>
      in bind_ok (limits_validate limits) (\<lambda>_. Inr limits))"

definition limits_default :: MechanicsExecutionLimits where
  "limits_default =
     \<lparr>el_max_execution_time = from_secs 30, el_max_loop_iterations = 1000000,
      el_max_recursion_depth = 512, el_max_stack_size = 10 * 1024\<rparr>"

definition limits_wf :: "MechanicsExecutionLimits \<Rightarrow> bool" where
  "limits_wf l \<longleftrightarrow> 0 < el_max_execution_time l \<and> 0 < el_max_loop_iterations l
     \<and> 0 < el_max_recursion_depth l \<and> 0 < el_max_stack_size l"

section \<open>Lemmas\<close>

lemma job_new_Inr:
  "job_new src a cfg = Inr job \<longleftrightarrow>
     src \<noteq> [] \<and> job = \<lparr>mj_module_source = src, mj_arg = a, mj_config = cfg, mj_run_timeout = None\<rparr>"
  by (auto simp: job_new_def validate_module_source_def)

lemma with_run_timeout_Inr:
  "with_run_timeout job d = Inr job' \<longleftrightarrow> d \<noteq> 0 \<and> job' = job\<lparr>mj_run_timeout := Some d\<rparr>"
  by (auto simp: with_run_timeout_def)

lemma limits_validate_iff: "limits_validate l = Inr () \<longleftrightarrow> limits_wf l"
  by (auto simp: limits_validate_def limits_wf_def)

lemma limits_default_wf: "limits_wf limits_default"
  by (simp add: limits_wf_def limits_default_def from_secs_def)

lemma limits_validate_kind: "limits_validate l = Inl e \<Longrightarrow> kind e = KRuntimePool"
  by (auto simp: limits_validate_def split: if_splits)

lemma job_deserialize_wf:
  assumes "job_deserialize de_config de_duration j = Inr job"
  shows "job_wf job"
  using assms
  by (auto simp: job_deserialize_def result_simps job_new_Inr with_run_timeout_Inr job_wf_def
      split: json.splits if_splits option.splits)

lemma job_roundtrip_lemma:
  assumes cfg: "de_config (ser_config (mj_config job)) = Some (mj_config job)"
    and dur: "\<And>d. de_duration (ser_duration d) = Some d" "\<And>d. ser_duration d \<noteq> JNull"
    and wf: "job_wf job"
  shows "job_deserialize de_config de_duration (job_serialize ser_config ser_duration job) = Inr job"
proof (cases "mj_run_timeout job")
  case None
  with wf cfg show ?thesis
    by (cases job) (simp add: job_deserialize_def job_serialize_def raw_fields_def
        optional_duration_def job_new_def validate_module_source_def job_wf_def)
next
  case (Some d)
  have "optional_duration de_duration (Some (ser_duration d)) = Inr (Some d)"
    using dur(1) [of d] dur(2) [of d] by (cases "ser_duration d") (simp_all add: optional_duration_def)
  with Some wf cfg show ?thesis
    by (cases job) (simp add: job_deserialize_def job_serialize_def raw_fields_def
        job_new_def validate_module_source_def job_wf_def with_run_timeout_def)
qed

section \<open>Properties\<close>

text \<open>
  Property C14: serializing a well-formed job and deserializing the result gives the job back,
  for every endpoint configuration and duration whose own JSON form round-trips.
\<close>

theorem job_serde_roundtrip:
  assumes "de_config (ser_config (mj_config job)) = Some (mj_config job)"
    and "\<And>d. de_duration (ser_duration d) = Some d" and "\<And>d. ser_duration d \<noteq> JNull"
    and "job_wf job"
  shows "job_deserialize de_config de_duration (job_serialize ser_config ser_duration job) = Inr job"
  using assms by (rule job_roundtrip_lemma)

theorem job_serde_roundtrip_witness:
  "job_deserialize (\<lambda>_. Some ()) (\<lambda>j. case j of JNumber d \<Rightarrow> Some d | _ \<Rightarrow> None)
     (job_serialize (\<lambda>_. JObject []) JNumber
        \<lparr>mj_module_source = ''x'', mj_arg = JNull, mj_config = (), mj_run_timeout = Some 60\<rparr>)
   = Inr \<lparr>mj_module_source = ''x'', mj_arg = JNull, mj_config = (), mj_run_timeout = Some 60\<rparr>"
  by (rule job_serde_roundtrip) (simp_all add: job_wf_def)

text \<open>
  A deserialized job always has a non-empty module source and no zero timeout,
  whatever JSON it came from.
\<close>

theorem deserialized_job_wf:
  assumes "job_deserialize de_config de_duration j = Inr job"
  shows "mj_module_source job \<noteq> [] \<and> mj_run_timeout job \<noteq> Some 0"
  using job_deserialize_wf [OF assms] by (simp add: job_wf_def)

theorem deserialized_job_wf_witness:
  "mj_module_source
     \<lparr>mj_module_source = ''x'', mj_arg = JNull :: nat json, mj_config = (), mj_run_timeout = None\<rparr> \<noteq> []"
  using deserialized_job_wf [of "\<lambda>_. Some ()" "\<lambda>_. None"
      "JObject [(''module_source'', JString ''x''), (''arg'', JNull), (''config'', JNull)]"
      "\<lparr>mj_module_source = ''x'', mj_arg = JNull, mj_config = (), mj_run_timeout = None\<rparr>"]
  by (simp add: job_deserialize_def raw_fields_def optional_duration_def job_new_def
      validate_module_source_def)

end
