(* ===== verification/Pool_Config.thy ===== *)
theory Pool_Config
  imports Jobs
begin

text \<open>
  Pool configuration, \<^verbatim>\<open>src/internal/pool/config.rs\<close>. The pluggable transport is a type parameter
  \<open>'t\<close>. Validation reads the clock: the current instant and the largest instant the platform can
  represent are arguments.
\<close>

record 't MechanicsPoolConfig =
  pc_worker_count :: nat
  pc_queue_capacity :: nat
  pc_enqueue_timeout :: duration
  pc_run_timeout :: duration
  pc_execution_limits :: MechanicsExecutionLimits
  pc_default_http_timeout_ms :: "nat option"
  pc_default_http_response_max_bytes :: "nat option"
  pc_restart_window :: duration
  pc_max_restarts_in_window :: nat
  pc_endpoint_http_client :: "'t option"

definition config_default :: "nat option \<Rightarrow> 't MechanicsPoolConfig" where
  "config_default parallelism =
     (let workers = (case parallelism of None \<Rightarrow> 1 | Some v \<Rightarrow> v)
      in \<lparr>pc_worker_count = max workers 1,
          pc_queue_capacity = max (saturating_mul workers 64) 64,
          pc_enqueue_timeout = from_millis 500,
          pc_run_timeout = from_secs 30,
          pc_execution_limits = limits_default,
          pc_default_http_timeout_ms = Some 120000,
          pc_default_http_response_max_bytes = Some (8 * 1024 * 1024),
          pc_restart_window = from_secs 10,
          pc_max_restarts_in_window = 16,
          pc_endpoint_http_client = None\<rparr>)"

definition config_validate ::
  "instant \<Rightarrow> instant \<Rightarrow> 't MechanicsPoolConfig \<Rightarrow> (MechanicsError, unit) result" where
  "config_validate clock_max now cfg =
     (if pc_worker_count cfg = 0 then Inl (runtime_pool ''worker_count must be > 0'')
      else if pc_queue_capacity cfg = 0 then Inl (runtime_pool ''queue_capacity must be > 0'')
      else if pc_max_restarts_in_window cfg = 0 then
        Inl (runtime_pool ''max_restarts_in_window must be > 0'')
      else if pc_run_timeout cfg = 0 then Inl (runtime_pool ''run_timeout must be > 0'')
      else if instant_checked_add_std clock_max now (pc_run_timeout cfg) = None then
        Inl (runtime_pool ''run_timeout is too large for the current platform clock'')
      else if pc_default_http_timeout_ms cfg = Some 0 then
        Inl (runtime_pool ''default_http_timeout_ms must be >= 1 when provided'')
      else if pc_default_http_response_max_bytes cfg = Some 0 then
        Inl (runtime_pool ''default_http_response_max_bytes must be >= 1 when provided'')
      else bind_ok (limits_validate (pc_execution_limits cfg)) (\<lambda>_. Inr ()))"

definition config_wf :: "instant \<Rightarrow> instant \<Rightarrow> 't MechanicsPoolConfig \<Rightarrow> bool" where
  "config_wf clock_max now cfg \<longleftrightarrow>
     0 < pc_worker_count cfg \<and> 0 < pc_queue_capacity cfg \<and> 0 < pc_max_restarts_in_window cfg
     \<and> 0 < pc_run_timeout cfg \<and> now + pc_run_timeout cfg \<le> clock_max
     \<and> pc_default_http_timeout_ms cfg \<noteq> Some 0
     \<and> pc_default_http_response_max_bytes cfg \<noteq> Some 0
     \<and> limits_wf (pc_execution_limits cfg)"

text \<open>The builder methods.\<close>

definition with_worker_count :: "'t MechanicsPoolConfig \<Rightarrow> nat \<Rightarrow> 't MechanicsPoolConfig" where
  "with_worker_count cfg n = cfg\<lparr>pc_worker_count := n\<rparr>"

definition with_queue_capacity :: "'t MechanicsPoolConfig \<Rightarrow> nat \<Rightarrow> 't MechanicsPoolConfig" where
  "with_queue_capacity cfg n = cfg\<lparr>pc_queue_capacity := n\<rparr>"

definition with_enqueue_timeout ::
  "'t MechanicsPoolConfig \<Rightarrow> duration \<Rightarrow> 't MechanicsPoolConfig" where
  "with_enqueue_timeout cfg d = cfg\<lparr>pc_enqueue_timeout := d\<rparr>"

definition config_with_run_timeout ::
  "'t MechanicsPoolConfig \<Rightarrow> duration \<Rightarrow> 't MechanicsPoolConfig" where
  "config_with_run_timeout cfg d = cfg\<lparr>pc_run_timeout := d\<rparr>"

definition with_execution_limits ::
  "'t MechanicsPoolConfig \<Rightarrow> MechanicsExecutionLimits \<Rightarrow> 't MechanicsPoolConfig" where
  "with_execution_limits cfg l = cfg\<lparr>pc_execution_limits := l\<rparr>"

definition with_default_http_timeout_ms ::
  "'t MechanicsPoolConfig \<Rightarrow> nat option \<Rightarrow> 't MechanicsPoolConfig" where
  "with_default_http_timeout_ms cfg v = cfg\<lparr>pc_default_http_timeout_ms := v\<rparr>"

definition with_default_http_response_max_bytes ::
  "'t MechanicsPoolConfig \<Rightarrow> nat option \<Rightarrow> 't MechanicsPoolConfig" where
  "with_default_http_response_max_bytes cfg v = cfg\<lparr>pc_default_http_response_max_bytes := v\<rparr>"

definition with_restart_window ::
  "'t MechanicsPoolConfig \<Rightarrow> duration \<Rightarrow> 't MechanicsPoolConfig" where
  "with_restart_window cfg d = cfg\<lparr>pc_restart_window := d\<rparr>"

definition with_max_restarts_in_window ::
  "'t MechanicsPoolConfig \<Rightarrow> nat \<Rightarrow> 't MechanicsPoolConfig" where
  "with_max_restarts_in_window cfg n = cfg\<lparr>pc_max_restarts_in_window := n\<rparr>"

definition with_endpoint_http_client ::
  "'t MechanicsPoolConfig \<Rightarrow> 't \<Rightarrow> 't MechanicsPoolConfig" where
  "with_endpoint_http_client cfg c = cfg\<lparr>pc_endpoint_http_client := Some c\<rparr>"

section \<open>Lemmas\<close>

lemma config_validate_iff: "config_validate m now cfg = Inr () \<longleftrightarrow> config_wf m now cfg"
  by (auto simp: config_validate_def config_wf_def instant_checked_add_std_def
      limits_validate_iff result_simps)

lemma config_validate_kind: "config_validate m now cfg = Inl e \<Longrightarrow> kind e = KRuntimePool"
  by (auto simp: config_validate_def result_simps dest: limits_validate_kind split: if_splits)

lemma config_default_wf:
  "now + from_secs 30 \<le> m \<Longrightarrow> config_wf m now (config_default p)"
  by (simp add: config_wf_def config_default_def Let_def limits_default_wf from_secs_def
      less_max_iff_disj)

section \<open>Properties\<close>

text \<open>
  Validation accepts exactly the configurations with positive worker count, queue
  capacity, restart budget and timeouts, a representable run deadline and positive limits; every
  rejection is a \<^verbatim>\<open>RuntimePool\<close> error.
\<close>

theorem config_validate_spec:
  "(config_validate m now cfg = Inr () \<longleftrightarrow> config_wf m now cfg)
   \<and> (case config_validate m now cfg of Inl e \<Rightarrow> kind e = KRuntimePool | Inr _ \<Rightarrow> True)"
  using config_validate_iff [of m now cfg] config_validate_kind [of m now cfg]
  by (auto split: sum.splits)

end
