(* ===== verification/Pool_Metrics.thy ===== *)
theory Pool_Metrics
  imports Errors
begin

text \<open>
  Pool metrics, \<^verbatim>\<open>src/internal/pool/metrics.rs\<close>. The recorder behind the \<^verbatim>\<open>metrics\<close> macros is
  external; every recording function is modelled by the list of updates it issues. Gauge values go
  through \<open>usize_to_f64\<close>, which clamps to 32 bits and is exact there.
\<close>

section \<open>Updates\<close>

datatype metric_update =
    CounterIncrement string "(string \<times> string) list"
  | GaugeSet string nat
  | HistogramRecord string duration

definition JOBS_ACCEPTED_TOTAL :: string where
  "JOBS_ACCEPTED_TOTAL = ''mechanics_jobs_accepted_total''"
definition JOBS_COMPLETED_TOTAL :: string where
  "JOBS_COMPLETED_TOTAL = ''mechanics_jobs_completed_total''"
definition JOBS_QUEUE_DEPTH :: string where
  "JOBS_QUEUE_DEPTH = ''mechanics_jobs_queue_depth''"
definition POOL_WORKERS_TOTAL :: string where
  "POOL_WORKERS_TOTAL = ''mechanics_pool_workers_total''"
definition POOL_WORKERS_BUSY :: string where
  "POOL_WORKERS_BUSY = ''mechanics_pool_workers_busy''"
definition WORKER_RESTARTS_TOTAL :: string where
  "WORKER_RESTARTS_TOTAL = ''mechanics_worker_restarts_total''"
definition JOB_DURATION_SECONDS :: string where
  "JOB_DURATION_SECONDS = ''mechanics_job_duration_seconds''"

datatype JobOutcome = OutOk | OutFailed | OutTimeout | OutCancelled

definition outcome_from_error :: "MechanicsError \<Rightarrow> JobOutcome" where
  "outcome_from_error e =
     (case kind e of
        KRunTimeout \<Rightarrow> OutTimeout | KQueueTimeout \<Rightarrow> OutTimeout
      | KCanceled \<Rightarrow> OutCancelled
      | KExecution \<Rightarrow> OutFailed | KQueueFull \<Rightarrow> OutFailed | KPoolClosed \<Rightarrow> OutFailed
      | KWorkerUnavailable \<Rightarrow> OutFailed | KPanic \<Rightarrow> OutFailed | KRuntimePool \<Rightarrow> OutFailed)"

fun outcome_label :: "JobOutcome \<Rightarrow> string" where
  "outcome_label OutOk = ''ok''"
| "outcome_label OutFailed = ''failed''"
| "outcome_label OutTimeout = ''timeout''"
| "outcome_label OutCancelled = ''cancelled''"

definition usize_to_f64 :: "nat \<Rightarrow> nat" where
  "usize_to_f64 v = (case u32_try_from v of None \<Rightarrow> u32_max | Some b \<Rightarrow> b)"

definition record_queue_depth :: "nat \<Rightarrow> metric_update list" where
  "record_queue_depth d = [GaugeSet JOBS_QUEUE_DEPTH (usize_to_f64 d)]"

definition record_job_accepted :: "nat \<Rightarrow> metric_update list" where
  "record_job_accepted d = CounterIncrement JOBS_ACCEPTED_TOTAL [] # record_queue_depth d"

definition record_job_duration :: "duration \<Rightarrow> metric_update list" where
  "record_job_duration d = [HistogramRecord JOB_DURATION_SECONDS d]"

definition record_job_completed :: "duration \<Rightarrow> JobOutcome \<Rightarrow> metric_update list" where
  "record_job_completed elapsed outcome =
     CounterIncrement JOBS_COMPLETED_TOTAL [(''outcome'', outcome_label outcome)] # record_job_duration elapsed"

definition record_pool_workers_total :: "nat \<Rightarrow> metric_update list" where
  "record_pool_workers_total n = [GaugeSet POOL_WORKERS_TOTAL (usize_to_f64 n)]"

definition record_worker_restart :: "string \<Rightarrow> metric_update list" where
  "record_worker_restart reason = [CounterIncrement WORKER_RESTARTS_TOTAL [(''reason'', reason)]]"

definition record_pool_workers_busy :: "nat \<Rightarrow> metric_update list" where
  "record_pool_workers_busy n = [GaugeSet POOL_WORKERS_BUSY (usize_to_f64 n)]"

section \<open>Registration\<close>

text \<open>A metric with its labels, as registration and every update name it.\<close>

datatype metric_key =
  CounterKey string "(string \<times> string) list" | GaugeKey string | HistogramKey string

fun key_of :: "metric_update \<Rightarrow> metric_key" where
  "key_of (CounterIncrement n ls) = CounterKey n ls"
| "key_of (GaugeSet n _) = GaugeKey n"
| "key_of (HistogramRecord n _) = HistogramKey n"

definition JOB_OUTCOME_LABELS :: "string list" where
  "JOB_OUTCOME_LABELS = [''ok'', ''failed'', ''timeout'', ''cancelled'']"

definition WORKER_RESTART_REASON_LABELS :: "string list" where
  "WORKER_RESTART_REASON_LABELS = [''panic'', ''timeout'', ''other'']"

definition register_metrics :: "metric_key list" where
  "register_metrics =
     CounterKey JOBS_ACCEPTED_TOTAL [] # map (\<lambda>l. CounterKey JOBS_COMPLETED_TOTAL [(''outcome'', l)]) JOB_OUTCOME_LABELS
     @ [GaugeKey JOBS_QUEUE_DEPTH, GaugeKey POOL_WORKERS_TOTAL, GaugeKey POOL_WORKERS_BUSY]
     @ map (\<lambda>l. CounterKey WORKER_RESTARTS_TOTAL [(''reason'', l)]) WORKER_RESTART_REASON_LABELS
     @ [HistogramKey JOB_DURATION_SECONDS]"

text \<open>Whatever is recorded was registered; restarts are recorded with the reasons of worker exits.\<close>

lemma recorded_is_registered:
  "key_of ` set (record_job_accepted d) \<subseteq> set register_metrics"
  "key_of ` set (record_job_completed t out) \<subseteq> set register_metrics"
  "key_of ` set (record_pool_workers_total n) \<subseteq> set register_metrics"
  "key_of ` set (record_pool_workers_busy n) \<subseteq> set register_metrics"
  "reason \<in> set WORKER_RESTART_REASON_LABELS \<Longrightarrow> key_of ` set (record_worker_restart reason) \<subseteq> set register_metrics"
  by (cases out; simp add: register_metrics_def record_job_accepted_def record_queue_depth_def record_job_completed_def
      record_job_duration_def record_pool_workers_total_def record_pool_workers_busy_def record_worker_restart_def
      JOB_OUTCOME_LABELS_def WORKER_RESTART_REASON_LABELS_def)+

section \<open>The busy guard\<close>

text \<open>
  \<^verbatim>\<open>WorkerBusyGuard\<close> increments the shared counter when a job starts (leaving it alone at the
  maximum) and decrements it when the guard is dropped; both publish the new value.
\<close>

definition busy_start :: "nat \<Rightarrow> nat \<times> metric_update list" where
  "busy_start busy =
     (case checked_add_usize busy 1 of
        Some b \<Rightarrow> (b, record_pool_workers_busy (saturating_add busy 1))
      | None \<Rightarrow> (busy, record_pool_workers_busy busy))"

definition busy_drop :: "nat \<Rightarrow> nat \<times> metric_update list" where
  "busy_drop busy = (saturating_sub busy 1, record_pool_workers_busy (saturating_sub busy 1))"

section \<open>Lemmas\<close>

lemma usize_to_f64_exact: "n \<le> u32_max \<Longrightarrow> usize_to_f64 n = n"
  by (simp add: usize_to_f64_def u32_try_from_def)

lemma busy_start_below_max: "busy < usize_max \<Longrightarrow> fst (busy_start busy) = Suc busy"
  by (simp add: busy_start_def checked_add_usize_def)

lemma outcome_label_inject: "outcome_label a = outcome_label b \<longleftrightarrow> a = b"
  by (cases a; cases b) simp_all

definition completions :: "metric_update list \<Rightarrow> string list" where
  "completions ms =
     concat (map (\<lambda>u. case u of
         CounterIncrement n [(l, v)] \<Rightarrow> (if n = JOBS_COMPLETED_TOTAL then [v] else [])
       | _ \<Rightarrow> []) ms)"

definition acceptances :: "metric_update list \<Rightarrow> nat" where
  "acceptances ms = length (filter (\<lambda>u. u = CounterIncrement JOBS_ACCEPTED_TOTAL []) ms)"

lemma completions_append [simp]: "completions (a @ b) = completions a @ completions b"
  by (simp add: completions_def)

lemma acceptances_append [simp]: "acceptances (a @ b) = acceptances a + acceptances b"
  by (simp add: acceptances_def)

lemma metrics_Nil [simp]: "completions [] = []" "acceptances [] = 0"
  by (simp_all add: completions_def acceptances_def)

lemma record_job_completed_simps [simp]:
  "completions (record_job_completed d out) = [outcome_label out]"
  "acceptances (record_job_completed d out) = 0"
  by (simp_all add: completions_def acceptances_def record_job_completed_def record_job_duration_def
      JOBS_COMPLETED_TOTAL_def JOBS_ACCEPTED_TOTAL_def)

lemma record_job_accepted_simps [simp]:
  "completions (record_job_accepted d) = []"
  "acceptances (record_job_accepted d) = 1"
  by (simp_all add: completions_def acceptances_def record_job_accepted_def record_queue_depth_def)

end
