(* ===== verification/Worker_Pool.thy ===== *)
theory Worker_Pool
  imports Restart_Guard Pool_Config Pool_Metrics
begin

text \<open>
  The worker pool as a system of interleaved steps: calling threads, worker threads, the supervisor
  and the thread that drops the pool, over the shared state of
  \<^verbatim>\<open>src/internal/pool/shared.rs\<close>, \<^verbatim>\<open>worker.rs\<close>, \<^verbatim>\<open>api.rs\<close>, \<^verbatim>\<open>constructor.rs\<close> and \<^verbatim>\<open>drop_impl.rs\<close>.

  A step is one access to shared state (a channel operation, an atomic, a section under a lock)
  together with the local work that follows it. Each step is an executable function on the pool
  state that is undefined (\<open>None\<close>) where the thread would block or is somewhere else; which thread
  moves next is left open by the relation \<open>pool_step\<close>. Timeouts may fire at any time: the exact
  waits are in theory \<open>Pool_Run\<close>. A panic unwinds to the \<^verbatim>\<open>catch_unwind\<close> of the worker.
\<close>

section \<open>State\<close>

type_synonym call_id = nat
type_synonym worker_id = nat

text \<open>
  A call owns a reply channel of capacity one and a cancellation flag; the \<^verbatim>\<open>PoolJob\<close> in the queue
  is identified with its call. \<open>cl_rx\<close> says that the calling thread still holds the receiver.
\<close>

datatype call_pc = CNew | CCheckLive | CSending | CAwaiting | CReturned

record 'v call =
  cl_pc :: call_pc
  cl_rx :: bool
  cl_reply :: "(MechanicsError, 'v) result option"
  cl_canceled :: bool
  cl_result :: "(MechanicsError, 'v) result option"

text \<open>
  Where a worker thread is: before the runtime is built; in the \<^verbatim>\<open>select!\<close>; holding a job it has
  just received; running the job before and after the early reply; unwound from a panicking job;
  past its last reply with the busy guard still to drop (after a panic or not); about to send its
  exit event; finished.
\<close>

datatype worker_pc =
    WStarting
  | WSelect
  | WGot call_id
  | WRun call_id
  | WTail call_id
  | WPanicked call_id
  | WFinishing call_id bool
  | WExiting string
  | WDone

record worker =
  w_pc :: worker_pc
  w_shutdown :: bool
  w_ready :: "(MechanicsError, unit) result option"

text \<open>
  Where the supervisor is: in its \<^verbatim>\<open>select!\<close>; after an event, before the closed check of its loop;
  at the start of \<^verbatim>\<open>reconcile_workers\<close>; in the restart loop with a number of spawns to go; with a
  thread started but not yet entered into the worker map; waiting for that thread's ready message;
  joining a thread whose startup failed. The thread that constructs the pool goes through the same
  stages of \<^verbatim>\<open>spawn_worker\<close> for the initial workers, and either commits or fails with an error.
\<close>

datatype super_pc =
    SupNone
  | SupSelect
  | SupCheck string
  | SupReconcile string
  | SupLoop string nat
  | SupStarted string nat worker_id
  | SupAwaitReady string nat worker_id
  | SupJoinFailed worker_id
  | SupDone

datatype ctor_pc =
    CtorSpawn nat
  | CtorStarted nat worker_id
  | CtorAwaitReady nat worker_id
  | CtorJoinFailed worker_id MechanicsError
  | CtorCommitted
  | CtorFailed MechanicsError

datatype drop_pc =
    DropNone
  | DropDrain
  | DropRequest
  | DropSignal
  | DropJoinSupervisor
  | DropJoinWorkers
  | DropDone

text \<open>
  \<open>p_borrows\<close> are the calls that hold \<^verbatim>\<open>&self\<close>: the pool can be dropped only when there is none.
  \<open>p_started\<close> and \<open>p_restarts\<close> are logs: the jobs handed to the runtime and the restarts counted
  by the metric. Worker identifiers come from a counter that is assumed not to wrap.
\<close>

record 'v pool =
  p_capacity :: nat
  p_desired :: nat
  p_queue :: "call_id list"
  p_calls :: "call_id \<Rightarrow> 'v call"
  p_threads :: "worker_id \<Rightarrow> worker option"
  p_workers :: "worker_id list"
  p_workers_gauge :: nat
  p_next_worker_id :: nat
  p_closed :: bool
  p_restart_blocked :: bool
  p_guard :: RestartGuard
  p_busy :: nat
  p_exits :: "(worker_id \<times> string) list"
  p_ctor :: ctor_pc
  p_super :: super_pc
  p_super_shutdown :: bool
  p_drop :: drop_pc
  p_borrows :: "call_id list"
  p_started :: "call_id list"
  p_restarts :: "string list"

definition new_call :: "'v call" where
  "new_call = \<lparr>cl_pc = CNew, cl_rx = True, cl_reply = None, cl_canceled = False, cl_result = None\<rparr>"

definition new_thread :: worker where
  "new_thread = \<lparr>w_pc = WStarting, w_shutdown = False, w_ready = None\<rparr>"

section \<open>Accessors and updates\<close>

definition pc_of :: "'v pool \<Rightarrow> worker_id \<Rightarrow> worker_pc option" where
  "pc_of s w = map_option w_pc (p_threads s w)"

definition is_finished :: "'v pool \<Rightarrow> worker_id \<Rightarrow> bool" where
  "is_finished s w \<longleftrightarrow> pc_of s w = Some WDone"

definition set_pc :: "worker_id \<Rightarrow> worker_pc \<Rightarrow> 'v pool \<Rightarrow> 'v pool" where
  "set_pc w pc s =
     s\<lparr>p_threads := (p_threads s)(w := map_option (\<lambda>t. t\<lparr>w_pc := pc\<rparr>) (p_threads s w))\<rparr>"

definition set_call :: "call_id \<Rightarrow> 'v call \<Rightarrow> 'v pool \<Rightarrow> 'v pool" where
  "set_call c k s = s\<lparr>p_calls := (p_calls s)(c := k)\<rparr>"

definition set_workers :: "worker_id list \<Rightarrow> 'v pool \<Rightarrow> 'v pool" where
  "set_workers ws s = s\<lparr>p_workers := ws, p_workers_gauge := usize_to_f64 (length ws)\<rparr>"

text \<open>
  Sending on a reply channel: without a receiver the message is dropped, an empty channel takes
  it, a full one with a live receiver blocks the sender.
\<close>

definition send_result ::
  "call_id \<Rightarrow> (MechanicsError, 'v) result \<Rightarrow> 'v pool \<Rightarrow> 'v pool option" where
  "send_result c r s =
     (let k = p_calls s c
      in if \<not> cl_rx k then Some s
         else case cl_reply k of
                None \<Rightarrow> Some (set_call c (k\<lparr>cl_reply := Some r\<rparr>) s)
              | Some _ \<Rightarrow> None)"

definition remove_worker_handle :: "worker_id \<Rightarrow> 'v pool \<Rightarrow> 'v pool" where
  "remove_worker_handle w s = set_workers (removeAll w (p_workers s)) s"

definition reap_finished_workers :: "'v pool \<Rightarrow> 'v pool" where
  "reap_finished_workers s =
     (let finished_ids = filter (is_finished s) (p_workers s)
      in if finished_ids = [] then s
         else set_workers (filter (\<lambda>w. w \<notin> set finished_ids) (p_workers s)) s)"

definition live_workers :: "'v pool \<Rightarrow> nat \<times> 'v pool" where
  "live_workers s = (let t = reap_finished_workers s in (length (p_workers t), t))"

section \<open>Calling threads\<close>

definition finish_call ::
  "call_id \<Rightarrow> (MechanicsError, 'v) result \<Rightarrow> bool \<Rightarrow> 'v pool \<Rightarrow> 'v pool" where
  "finish_call c r cancel s =
     (let k = p_calls s c
      in set_call c (k\<lparr>cl_pc := CReturned, cl_rx := False,
           cl_canceled := (cl_canceled k \<or> cancel), cl_result := Some r\<rparr>)
           (s\<lparr>p_borrows := removeAll c (p_borrows s)\<rparr>))"

text \<open>
  Admission: a closed pool and an empty pool whose restarts are blocked are refused. A call can
  start only once the pool is constructed and while it is not being dropped.
\<close>

definition call_start :: "call_id \<Rightarrow> 'v pool \<Rightarrow> 'v pool option" where
  "call_start c s =
     (if cl_pc (p_calls s c) = CNew \<and> p_ctor s = CtorCommitted \<and> p_drop s = DropNone then
        (let t = s\<lparr>p_borrows := c # p_borrows s\<rparr>
         in Some (if p_closed t then
                    finish_call c (Inl (pool_closed ''runtime pool is closed'')) False t
                  else set_call c ((p_calls t c)\<lparr>cl_pc :=
                         (if p_restart_blocked t then CCheckLive else CSending)\<rparr>) t))
      else None)"

definition call_check_live :: "call_id \<Rightarrow> 'v pool \<Rightarrow> 'v pool option" where
  "call_check_live c s =
     (if cl_pc (p_calls s c) = CCheckLive then
        (let (live, t) = live_workers s
         in Some (if live = 0 then
                    finish_call c (Inl (worker_unavailable
                      ''all workers are unavailable and restart guard is active'')) False t
                  else set_call c ((p_calls t c)\<lparr>cl_pc := CSending\<rparr>) t))
      else None)"

definition call_enqueue :: "call_id \<Rightarrow> 'v pool \<Rightarrow> 'v pool option" where
  "call_enqueue c s =
     (if cl_pc (p_calls s c) = CSending \<and> length (p_queue s) < p_capacity s then
        Some (set_call c ((p_calls s c)\<lparr>cl_pc := CAwaiting\<rparr>) (s\<lparr>p_queue := p_queue s @ [c]\<rparr>))
      else None)"

text \<open>
  The ways in which the call gives up before its job is in the queue. After a send that timed out
  the job comes back and is answered on the call's own channel, which goes away with the call.
\<close>

datatype give_up =
  DeadlineOutOfRange | DeadlineBeforeEnqueue | DeadlineWhileEnqueueing | EnqueueTimeout | QueueIsFull

fun give_up_error :: "give_up \<Rightarrow> MechanicsError" where
  "give_up_error DeadlineOutOfRange = 
     runtime_pool ''run_timeout is too large for the current platform clock''"
| "give_up_error DeadlineBeforeEnqueue = run_timeout_error ''run timeout elapsed before enqueue''"
| "give_up_error DeadlineWhileEnqueueing =
     run_timeout_error ''run timeout elapsed while waiting to enqueue''"
| "give_up_error EnqueueTimeout = queue_timeout ''enqueue timed out because queue is full''"
| "give_up_error QueueIsFull = queue_full ''queue is full''"

definition call_give_up :: "call_id \<Rightarrow> give_up \<Rightarrow> 'v pool \<Rightarrow> 'v pool option" where
  "call_give_up c g s =
     (if cl_pc (p_calls s c) = CSending then
        (let e = Inl (give_up_error g)
         in if g \<in> {DeadlineOutOfRange, DeadlineBeforeEnqueue} then
              Some (finish_call c e (g = DeadlineBeforeEnqueue) s)
            else if length (p_queue s) < p_capacity s then None
            else if g = QueueIsFull then Some (finish_call c e False s)
            else map_option (finish_call c e (g = DeadlineWhileEnqueueing)) (send_result c e s))
      else None)"

definition call_receive :: "call_id \<Rightarrow> 'v pool \<Rightarrow> 'v pool option" where
  "call_receive c s =
     (if cl_pc (p_calls s c) = CAwaiting then
        (case cl_reply (p_calls s c) of
           None \<Rightarrow> None
         | Some r \<Rightarrow> Some (finish_call c r False s))
      else None)"

definition call_timeout :: "call_id \<Rightarrow> 'v pool \<Rightarrow> 'v pool option" where
  "call_timeout c s =
     (if cl_pc (p_calls s c) = CAwaiting then
        Some (finish_call c (Inl (run_timeout_error
          ''run timeout elapsed while waiting for worker reply'')) True s)
      else None)"

text \<open>The job's reply senders are its queue entry and the worker that holds it.\<close>

fun job_of :: "worker_pc \<Rightarrow> call_id option" where
  "job_of (WGot c) = Some c"
| "job_of (WRun c) = Some c"
| "job_of (WTail c) = Some c"
| "job_of (WPanicked c) = Some c"
| "job_of (WFinishing c panicked) = Some c"
| "job_of _ = None"

definition holds :: "'v pool \<Rightarrow> worker_id \<Rightarrow> call_id \<Rightarrow> bool" where
  "holds s w c \<longleftrightarrow> Option.bind (pc_of s w) job_of = Some c"

definition sender_alive :: "'v pool \<Rightarrow> call_id \<Rightarrow> bool" where
  "sender_alive s c \<longleftrightarrow>
     c \<in> set (p_queue s) \<or> (\<exists>w \<in> set [0..<p_next_worker_id s]. holds s w c)"

definition call_disconnected :: "call_id \<Rightarrow> 'v pool \<Rightarrow> 'v pool option" where
  "call_disconnected c s =
     (if cl_pc (p_calls s c) = CAwaiting \<and> cl_reply (p_calls s c) = None \<and> \<not> sender_alive s c then
        Some (finish_call c (Inl (worker_unavailable ''worker dropped reply channel'')) False s)
      else None)"

section \<open>Worker threads\<close>

definition set_ready :: "worker_id \<Rightarrow> (MechanicsError, unit) result \<Rightarrow> 'v pool \<Rightarrow> 'v pool" where
  "set_ready w r s =
     s\<lparr>p_threads := (p_threads s)(w := map_option (\<lambda>t. t\<lparr>w_ready := Some r\<rparr>) (p_threads s w))\<rparr>"

definition worker_started :: "worker_id \<Rightarrow> 'v pool \<Rightarrow> 'v pool option" where
  "worker_started w s =
     (if pc_of s w = Some WStarting then Some (set_pc w WSelect (set_ready w (Inr ()) s)) else None)"

definition worker_start_failed :: "worker_id \<Rightarrow> MechanicsError \<Rightarrow> 'v pool \<Rightarrow> 'v pool option" where
  "worker_start_failed w e s =
     (if pc_of s w = Some WStarting
      then Some (set_pc w (WExiting ''other'') (set_ready w (Inl e) s)) else None)"

definition worker_start_panicked :: "worker_id \<Rightarrow> 'v pool \<Rightarrow> 'v pool option" where
  "worker_start_panicked w s =
     (if pc_of s w = Some WStarting
      then Some (set_pc w (WExiting ''panic'')
             (set_ready w (Inl (worker_panic ''worker panicked during startup'')) s))
      else None)"

definition worker_receive :: "worker_id \<Rightarrow> 'v pool \<Rightarrow> 'v pool option" where
  "worker_receive w s =
     (if pc_of s w = Some WSelect then
        (case p_queue s of
           [] \<Rightarrow> None
         | c # q \<Rightarrow> Some (set_pc w (WGot c) (s\<lparr>p_queue := q\<rparr>)))
      else None)"

text \<open>A canceled job is answered without running; otherwise the busy guard starts and the job runs.\<close>

definition worker_dispatch :: "worker_id \<Rightarrow> 'v pool \<Rightarrow> 'v pool option" where
  "worker_dispatch w s =
     (case pc_of s w of
        Some (WGot c) \<Rightarrow>
          if cl_canceled (p_calls s c) then
            map_option (set_pc w WSelect)
              (send_result c (Inl (canceled_error ''job timed out before execution'')) s)
          else Some (set_pc w (WRun c)
                 (s\<lparr>p_busy := fst (busy_start (p_busy s)), p_started := p_started s @ [c]\<rparr>))
      | _ \<Rightarrow> None)"

text \<open>The early reply of the running job, and the return with \<^verbatim>\<open>MainReplied\<close> after it.\<close>

definition worker_early_reply ::
  "worker_id \<Rightarrow> (MechanicsError, 'v) result \<Rightarrow> 'v pool \<Rightarrow> 'v pool option" where
  "worker_early_reply w r s =
     (case pc_of s w of
        Some (WRun c) \<Rightarrow> map_option (set_pc w (WTail c)) (send_result c r s)
      | _ \<Rightarrow> None)"

definition worker_main_replied :: "worker_id \<Rightarrow> 'v pool \<Rightarrow> 'v pool option" where
  "worker_main_replied w s =
     (case pc_of s w of
        Some (WTail c) \<Rightarrow> Some (set_pc w (WFinishing c False) s)
      | _ \<Rightarrow> None)"

definition worker_main_not_replied ::
  "worker_id \<Rightarrow> MechanicsError \<Rightarrow> 'v pool \<Rightarrow> 'v pool option" where
  "worker_main_not_replied w e s =
     (case pc_of s w of
        Some (WRun c) \<Rightarrow> map_option (set_pc w (WFinishing c False)) (send_result c (Inl e) s)
      | _ \<Rightarrow> None)"

definition worker_unwind :: "worker_id \<Rightarrow> 'v pool \<Rightarrow> 'v pool option" where
  "worker_unwind w s =
     (case pc_of s w of
        Some (WRun c) \<Rightarrow> Some (set_pc w (WPanicked c) s)
      | Some (WTail c) \<Rightarrow> Some (set_pc w (WPanicked c) s)
      | _ \<Rightarrow> None)"

definition worker_panic_reply :: "worker_id \<Rightarrow> 'v pool \<Rightarrow> 'v pool option" where
  "worker_panic_reply w s =
     (case pc_of s w of
        Some (WPanicked c) \<Rightarrow>
          map_option (set_pc w (WFinishing c True))
            (send_result c (Inl (worker_panic ''worker panicked while running job'')) s)
      | _ \<Rightarrow> None)"

text \<open>The busy guard drops at the end of the loop body, or at the break after a panic.\<close>

definition worker_end_job :: "worker_id \<Rightarrow> 'v pool \<Rightarrow> 'v pool option" where
  "worker_end_job w s =
     (case pc_of s w of
        Some (WFinishing c panicked) \<Rightarrow>
          Some (set_pc w (if panicked then WExiting ''panic'' else WSelect)
                  (s\<lparr>p_busy := fst (busy_drop (p_busy s))\<rparr>))
      | _ \<Rightarrow> None)"

definition worker_stop :: "worker_id \<Rightarrow> 'v pool \<Rightarrow> 'v pool option" where
  "worker_stop w s =
     (case p_threads s w of
        Some t \<Rightarrow>
          if w_pc t = WSelect \<and> w_shutdown t then Some (set_pc w (WExiting ''other'') s) else None
      | None \<Rightarrow> None)"

definition worker_exit :: "worker_id \<Rightarrow> 'v pool \<Rightarrow> 'v pool option" where
  "worker_exit w s =
     (case pc_of s w of
        Some (WExiting reason) \<Rightarrow> Some (set_pc w WDone (s\<lparr>p_exits := p_exits s @ [(w, reason)]\<rparr>))
      | _ \<Rightarrow> None)"

section \<open>The supervisor\<close>

text \<open>
  The first half of \<^verbatim>\<open>spawn_worker\<close>: take an identifier and start the thread. The second half
  enters the handle into the map and waits for the ready message. A thread always sends one, so
  the branch for a dropped ready channel is not a step.
\<close>

definition start_thread :: "'v pool \<Rightarrow> worker_id \<times> 'v pool" where
  "start_thread s =
     (let w = p_next_worker_id s
      in (w, s\<lparr>p_next_worker_id := Suc w, p_threads := (p_threads s)(w \<mapsto> new_thread)\<rparr>))"

definition insert_worker :: "worker_id \<Rightarrow> 'v pool \<Rightarrow> 'v pool" where
  "insert_worker w s = set_workers (w # p_workers s) s"

definition ready_of :: "'v pool \<Rightarrow> worker_id \<Rightarrow> (MechanicsError, unit) result option" where
  "ready_of s w = Option.bind (p_threads s w) w_ready"

definition sup_shutdown :: "'v pool \<Rightarrow> 'v pool option" where
  "sup_shutdown s =
     (if p_super s = SupSelect \<and> p_super_shutdown s then Some (s\<lparr>p_super := SupDone\<rparr>) else None)"

definition sup_event :: "'v pool \<Rightarrow> 'v pool option" where
  "sup_event s =
     (if p_super s = SupSelect then
        (case p_exits s of
           [] \<Rightarrow> None
         | (w, reason) # es \<Rightarrow>
             Some ((remove_worker_handle w s)\<lparr>p_exits := es, p_super := SupCheck reason\<rparr>))
      else None)"

definition sup_tick :: "'v pool \<Rightarrow> 'v pool option" where
  "sup_tick s =
     (if p_super s = SupSelect then Some (s\<lparr>p_super := SupCheck ''other''\<rparr>) else None)"

definition sup_check :: "'v pool \<Rightarrow> 'v pool option" where
  "sup_check s =
     (case p_super s of
        SupCheck reason \<Rightarrow>
          Some (s\<lparr>p_super := (if p_closed s then SupDone else SupReconcile reason)\<rparr>)
      | _ \<Rightarrow> None)"

definition sup_reconcile :: "'v pool \<Rightarrow> 'v pool option" where
  "sup_reconcile s =
     (case p_super s of
        SupReconcile reason \<Rightarrow>
          if p_closed s then Some (s\<lparr>p_super := SupSelect\<rparr>)
          else
            (let (live, t) = live_workers s;
                 missing = saturating_sub (p_desired t) live
             in if missing = 0 then Some (t\<lparr>p_restart_blocked := False, p_super := SupSelect\<rparr>)
                else Some (t\<lparr>p_super := SupLoop reason missing\<rparr>))
      | _ \<Rightarrow> None)"

text \<open>
  One turn of the restart loop up to the start of the thread; \<open>spawned\<close> is the answer of the
  operating system.
\<close>

definition sup_restart :: "instant \<Rightarrow> bool \<Rightarrow> 'v pool \<Rightarrow> 'v pool option" where
  "sup_restart now spawned s =
     (case p_super s of
        SupLoop reason (Suc n) \<Rightarrow>
          (let (can_restart, g) = allow_restart (p_guard s) now; t = s\<lparr>p_guard := g\<rparr>
           in if \<not> can_restart then
                Some (t\<lparr>p_restart_blocked := True, p_super := SupSelect\<rparr>)
              else if spawned then
                (let (w, u) = start_thread t in Some (u\<lparr>p_super := SupStarted reason n w\<rparr>))
              else Some (t\<lparr>p_next_worker_id := Suc (p_next_worker_id t),
                      p_restart_blocked := True, p_super := SupSelect\<rparr>))
      | _ \<Rightarrow> None)"

definition sup_insert :: "'v pool \<Rightarrow> 'v pool option" where
  "sup_insert s =
     (case p_super s of
        SupStarted reason n w \<Rightarrow> Some ((insert_worker w s)\<lparr>p_super := SupAwaitReady reason n w\<rparr>)
      | _ \<Rightarrow> None)"

definition sup_ready :: "'v pool \<Rightarrow> 'v pool option" where
  "sup_ready s =
     (case p_super s of
        SupAwaitReady reason n w \<Rightarrow>
          (case ready_of s w of
             None \<Rightarrow> None
           | Some (Inr u) \<Rightarrow>
               Some (s\<lparr>p_restart_blocked := False, p_restarts := p_restarts s @ [reason],
                 p_super := (if n = 0 then SupSelect else SupLoop reason n)\<rparr>)
           | Some (Inl e) \<Rightarrow>
               Some (if w \<in> set (p_workers s)
                     then (remove_worker_handle w s)\<lparr>p_super := SupJoinFailed w\<rparr>
                     else (remove_worker_handle w s)
                       \<lparr>p_restart_blocked := True, p_super := SupSelect\<rparr>))
      | _ \<Rightarrow> None)"

definition sup_join_failed :: "'v pool \<Rightarrow> 'v pool option" where
  "sup_join_failed s =
     (case p_super s of
        SupJoinFailed w \<Rightarrow>
          if is_finished s w then Some (s\<lparr>p_restart_blocked := True, p_super := SupSelect\<rparr>) else None
      | _ \<Rightarrow> None)"

section \<open>Construction\<close>

definition shared_new :: "'c MechanicsPoolConfig \<Rightarrow> 'v pool" where
  "shared_new cfg =
     \<lparr>p_capacity = pc_queue_capacity cfg, p_desired = pc_worker_count cfg, p_queue = [],
      p_calls = (\<lambda>_. new_call), p_threads = (\<lambda>_. None), p_workers = [], p_workers_gauge = 0,
      p_next_worker_id = 0, p_closed = False, p_restart_blocked = False,
      p_guard = guard_new (pc_restart_window cfg) (pc_max_restarts_in_window cfg),
      p_busy = 0, p_exits = [], p_ctor = CtorSpawn (pc_worker_count cfg), p_super = SupNone,
      p_super_shutdown = False, p_drop = DropNone, p_borrows = [], p_started = [],
      p_restarts = []\<rparr>"

text \<open>
  The start of \<^verbatim>\<open>MechanicsPool::new\<close>: an invalid configuration and a failing HTTP client builder are
  refused before any thread exists. \<open>build_client\<close> stands for the client library.
\<close>

definition pool_new ::
  "instant \<Rightarrow> instant \<Rightarrow> (string, 'c) result \<Rightarrow> 'c MechanicsPoolConfig
     \<Rightarrow> (MechanicsError, 'v pool) result" where
  "pool_new clock_max now build_client cfg =
     bind_ok (config_validate clock_max now cfg) (\<lambda>_.
     bind_ok (case pc_endpoint_http_client cfg of
                Some client \<Rightarrow> Inr client
              | None \<Rightarrow> map_err runtime_pool build_client) (\<lambda>_.
     Inr (shared_new cfg)))"

text \<open>An early return drops the guard, which starts the same teardown as the drop of a pool.\<close>

definition ctor_fail :: "MechanicsError \<Rightarrow> 'v pool \<Rightarrow> 'v pool" where
  "ctor_fail e s = s\<lparr>p_ctor := CtorFailed e, p_closed := True, p_drop := DropDrain\<rparr>"

definition ctor_spawn :: "(string, unit) result \<Rightarrow> 'v pool \<Rightarrow> 'v pool option" where
  "ctor_spawn os s =
     (case p_ctor s of
        CtorSpawn (Suc n) \<Rightarrow>
          (case os of
             Inr u \<Rightarrow> (let (w, t) = start_thread s in Some (t\<lparr>p_ctor := CtorStarted n w\<rparr>))
           | Inl e \<Rightarrow>
               Some (ctor_fail (runtime_pool (''failed to spawn worker thread: '' @ e))
                 (s\<lparr>p_next_worker_id := Suc (p_next_worker_id s)\<rparr>)))
      | _ \<Rightarrow> None)"

definition ctor_insert :: "'v pool \<Rightarrow> 'v pool option" where
  "ctor_insert s =
     (case p_ctor s of
        CtorStarted n w \<Rightarrow> Some ((insert_worker w s)\<lparr>p_ctor := CtorAwaitReady n w\<rparr>)
      | _ \<Rightarrow> None)"

definition ctor_ready :: "'v pool \<Rightarrow> 'v pool option" where
  "ctor_ready s =
     (case p_ctor s of
        CtorAwaitReady n w \<Rightarrow>
          (case ready_of s w of
             None \<Rightarrow> None
           | Some (Inr u) \<Rightarrow> Some (s\<lparr>p_restart_blocked := False, p_ctor := CtorSpawn n\<rparr>)
           | Some (Inl e) \<Rightarrow>
               Some (if w \<in> set (p_workers s)
                     then (remove_worker_handle w s)\<lparr>p_ctor := CtorJoinFailed w e\<rparr>
                     else ctor_fail e (remove_worker_handle w s)))
      | _ \<Rightarrow> None)"

definition ctor_join_failed :: "'v pool \<Rightarrow> 'v pool option" where
  "ctor_join_failed s =
     (case p_ctor s of
        CtorJoinFailed w e \<Rightarrow> if is_finished s w then Some (ctor_fail e s) else None
      | _ \<Rightarrow> None)"

definition ctor_supervisor :: "(string, unit) result \<Rightarrow> 'v pool \<Rightarrow> 'v pool option" where
  "ctor_supervisor os s =
     (case p_ctor s of
        CtorSpawn 0 \<Rightarrow>
          (case os of
             Inr u \<Rightarrow> Some (s\<lparr>p_super := SupSelect, p_ctor := CtorCommitted\<rparr>)
           | Inl e \<Rightarrow> Some (ctor_fail (runtime_pool (''failed to spawn supervisor thread: '' @ e)) s))
      | _ \<Rightarrow> None)"

section \<open>Dropping the pool\<close>

definition drop_start :: "'v pool \<Rightarrow> 'v pool option" where
  "drop_start s =
     (if p_ctor s = CtorCommitted \<and> p_drop s = DropNone \<and> p_borrows s = []
      then Some (s\<lparr>p_closed := True, p_drop := DropDrain\<rparr>) else None)"

definition drop_message :: "'v pool \<Rightarrow> string" where
  "drop_message s =
     (if p_ctor s = CtorCommitted then ''pool dropped before job execution''
      else ''pool construction failed before job execution'')"

definition drop_drain :: "'v pool \<Rightarrow> 'v pool option" where
  "drop_drain s =
     (if p_drop s = DropDrain then
        (case p_queue s of
           [] \<Rightarrow> Some (s\<lparr>p_drop := DropRequest\<rparr>)
         | c # q \<Rightarrow> send_result c (Inl (canceled_error (drop_message s))) (s\<lparr>p_queue := q\<rparr>))
      else None)"

definition request_shutdown :: "worker_id \<Rightarrow> 'v pool \<Rightarrow> 'v pool" where
  "request_shutdown w s =
     s\<lparr>p_threads := (p_threads s)(w := map_option (\<lambda>t. t\<lparr>w_shutdown := True\<rparr>) (p_threads s w))\<rparr>"

definition drop_request :: "'v pool \<Rightarrow> 'v pool option" where
  "drop_request s =
     (if p_drop s = DropRequest
      then Some ((fold request_shutdown (p_workers s) s)\<lparr>p_drop := DropSignal\<rparr>) else None)"

definition drop_signal :: "'v pool \<Rightarrow> 'v pool option" where
  "drop_signal s =
     (if p_drop s = DropSignal then
        Some (s\<lparr>p_super_shutdown := (p_super s \<noteq> SupNone), p_drop := DropJoinSupervisor\<rparr>)
      else None)"

definition drop_join_supervisor :: "'v pool \<Rightarrow> 'v pool option" where
  "drop_join_supervisor s =
     (if p_drop s = DropJoinSupervisor \<and> p_super s \<in> {SupNone, SupDone}
      then Some (s\<lparr>p_drop := DropJoinWorkers\<rparr>) else None)"

text \<open>The loop that drains the map and joins each handle returns once all of them are finished.\<close>

definition drop_join_workers :: "'v pool \<Rightarrow> 'v pool option" where
  "drop_join_workers s =
     (if p_drop s = DropJoinWorkers \<and> list_all (is_finished s) (p_workers s)
      then Some ((set_workers [] s)\<lparr>p_drop := DropDone\<rparr>) else None)"

section \<open>Steps and runs\<close>

datatype call_action =
    CallStart call_id
  | CallCheckLive call_id
  | CallEnqueue call_id
  | CallGiveUp call_id give_up
  | CallReceive call_id
  | CallTimeout call_id
  | CallDisconnected call_id

fun call_act :: "call_action \<Rightarrow> 'v pool \<Rightarrow> 'v pool option" where
  "call_act (CallStart c) s = call_start c s"
| "call_act (CallCheckLive c) s = call_check_live c s"
| "call_act (CallEnqueue c) s = call_enqueue c s"
| "call_act (CallGiveUp c g) s = call_give_up c g s"
| "call_act (CallReceive c) s = call_receive c s"
| "call_act (CallTimeout c) s = call_timeout c s"
| "call_act (CallDisconnected c) s = call_disconnected c s"

datatype 'v worker_action =
    WorkerStarted worker_id
  | WorkerStartFailed worker_id MechanicsError
  | WorkerStartPanicked worker_id
  | WorkerReceive worker_id
  | WorkerDispatch worker_id
  | WorkerEarlyReply worker_id "(MechanicsError, 'v) result"
  | WorkerMainReplied worker_id
  | WorkerMainNotReplied worker_id MechanicsError
  | WorkerUnwind worker_id
  | WorkerPanicReply worker_id
  | WorkerEndJob worker_id
  | WorkerStop worker_id
  | WorkerExit worker_id

fun worker_act :: "'v worker_action \<Rightarrow> 'v pool \<Rightarrow> 'v pool option" where
  "worker_act (WorkerStarted w) s = worker_started w s"
| "worker_act (WorkerStartFailed w e) s = worker_start_failed w e s"
| "worker_act (WorkerStartPanicked w) s = worker_start_panicked w s"
| "worker_act (WorkerReceive w) s = worker_receive w s"
| "worker_act (WorkerDispatch w) s = worker_dispatch w s"
| "worker_act (WorkerEarlyReply w r) s = worker_early_reply w r s"
| "worker_act (WorkerMainReplied w) s = worker_main_replied w s"
| "worker_act (WorkerMainNotReplied w e) s = worker_main_not_replied w e s"
| "worker_act (WorkerUnwind w) s = worker_unwind w s"
| "worker_act (WorkerPanicReply w) s = worker_panic_reply w s"
| "worker_act (WorkerEndJob w) s = worker_end_job w s"
| "worker_act (WorkerStop w) s = worker_stop w s"
| "worker_act (WorkerExit w) s = worker_exit w s"

datatype super_action =
    SupShutdown
  | SupEvent
  | SupTick
  | SupDoCheck
  | SupDoReconcile
  | SupRestart instant bool
  | SupInsert
  | SupReady
  | SupFailedJoined

fun super_act :: "super_action \<Rightarrow> 'v pool \<Rightarrow> 'v pool option" where
  "super_act SupShutdown s = sup_shutdown s"
| "super_act SupEvent s = sup_event s"
| "super_act SupTick s = sup_tick s"
| "super_act SupDoCheck s = sup_check s"
| "super_act SupDoReconcile s = sup_reconcile s"
| "super_act (SupRestart now spawned) s = sup_restart now spawned s"
| "super_act SupInsert s = sup_insert s"
| "super_act SupReady s = sup_ready s"
| "super_act SupFailedJoined s = sup_join_failed s"

text \<open>Construction and drop, by the thread that owns the pool.\<close>

datatype life_action =
    CtorDoSpawn "(string, unit) result"
  | CtorInsert
  | CtorReady
  | CtorFailedJoined
  | CtorSupervisor "(string, unit) result"
  | DropStart
  | DropDrainOne
  | DropRequestAll
  | DropSignalSupervisor
  | DropSupervisorJoined
  | DropWorkersJoined

fun life_act :: "life_action \<Rightarrow> 'v pool \<Rightarrow> 'v pool option" where
  "life_act (CtorDoSpawn os) s = ctor_spawn os s"
| "life_act CtorInsert s = ctor_insert s"
| "life_act CtorReady s = ctor_ready s"
| "life_act CtorFailedJoined s = ctor_join_failed s"
| "life_act (CtorSupervisor os) s = ctor_supervisor os s"
| "life_act DropStart s = drop_start s"
| "life_act DropDrainOne s = drop_drain s"
| "life_act DropRequestAll s = drop_request s"
| "life_act DropSignalSupervisor s = drop_signal s"
| "life_act DropSupervisorJoined s = drop_join_supervisor s"
| "life_act DropWorkersJoined s = drop_join_workers s"

datatype 'v action =
    Caller call_action
  | Worker "'v worker_action"
  | Supervisor super_action
  | Owner life_action

fun act :: "'v action \<Rightarrow> 'v pool \<Rightarrow> 'v pool option" where
  "act (Caller a) s = call_act a s"
| "act (Worker a) s = worker_act a s"
| "act (Supervisor a) s = super_act a s"
| "act (Owner a) s = life_act a s"

inductive pool_step :: "'v pool \<Rightarrow> 'v pool \<Rightarrow> bool" where
  step: "act a s = Some t \<Longrightarrow> pool_step s t"

text \<open>The reachable states of a pool built from a configuration whose worker count is a \<^verbatim>\<open>usize\<close>.\<close>

inductive reachable :: "'c MechanicsPoolConfig \<Rightarrow> 'v pool \<Rightarrow> bool" for cfg where
  init: "pool_new clock_max now build_client cfg = Inr s \<Longrightarrow> pc_worker_count cfg \<le> usize_max
           \<Longrightarrow> reachable cfg s"
| next_step: "reachable cfg s \<Longrightarrow> pool_step s t \<Longrightarrow> reachable cfg t"

inductive_cases pool_stepE: "pool_step s t"

fun run_actions :: "'v action list \<Rightarrow> 'v pool \<Rightarrow> 'v pool option" where
  "run_actions [] s = Some s"
| "run_actions (a # as) s = Option.bind (act a s) (run_actions as)"

lemma run_actions_reachable:
  "reachable cfg s \<Longrightarrow> run_actions as s = Some t \<Longrightarrow> reachable cfg t"
  by (induction as arbitrary: s) (auto split: bind_splits intro: reachable.intros pool_step.intros)

section \<open>Statistics\<close>

record MechanicsPoolStats =
  st_is_closed :: bool
  st_restart_blocked :: bool
  st_desired_workers :: nat
  st_known_workers :: nat
  st_live_workers :: nat
  st_finished_workers_pending_reap :: nat
  st_queue_depth :: nat
  st_queue_capacity :: "nat option"
  st_restart_attempts_in_window :: nat
  st_max_restarts_in_window :: nat

definition stats :: "'v pool \<Rightarrow> MechanicsPoolStats" where
  "stats s =
     (let known = length (p_workers s);
          finished = length (filter (is_finished s) (p_workers s))
      in \<lparr>st_is_closed = p_closed s, st_restart_blocked = p_restart_blocked s,
          st_desired_workers = p_desired s, st_known_workers = known,
          st_live_workers = saturating_sub known finished,
          st_finished_workers_pending_reap = finished, st_queue_depth = length (p_queue s),
          st_queue_capacity = Some (p_capacity s),
          st_restart_attempts_in_window = restart_attempts_in_window (p_guard s),
          st_max_restarts_in_window = max_restarts_in_window (p_guard s)\<rparr>)"

end
