(* ===== verification/Pool_Jobs.thy ===== *)
theory Pool_Jobs
  imports Worker_Pool
begin

text \<open>
  Projections of the state updates of \<open>Worker_Pool\<close>, and the invariants on jobs under every
  interleaving: where a job can be and what its reply channel holds.
\<close>

section \<open>Projections\<close>

lemma set_call_sel [simp]:
  "p_calls (set_call c k s) = (p_calls s)(c := k)"
  "p_queue (set_call c k s) = p_queue s" "p_capacity (set_call c k s) = p_capacity s"
  "p_desired (set_call c k s) = p_desired s" "p_threads (set_call c k s) = p_threads s"
  "p_workers (set_call c k s) = p_workers s" "p_workers_gauge (set_call c k s) = p_workers_gauge s"
  "p_next_worker_id (set_call c k s) = p_next_worker_id s" "p_closed (set_call c k s) = p_closed s"
  "p_busy (set_call c k s) = p_busy s" "p_exits (set_call c k s) = p_exits s"
  "p_ctor (set_call c k s) = p_ctor s" "p_super (set_call c k s) = p_super s"
  "p_super_shutdown (set_call c k s) = p_super_shutdown s" "p_drop (set_call c k s) = p_drop s"
  "p_borrows (set_call c k s) = p_borrows s" "p_started (set_call c k s) = p_started s"
  by (simp_all add: set_call_def)

lemma set_pc_sel [simp]:
  "p_calls (set_pc w pc s) = p_calls s" "p_queue (set_pc w pc s) = p_queue s"
  "p_capacity (set_pc w pc s) = p_capacity s" "p_desired (set_pc w pc s) = p_desired s"
  "p_workers (set_pc w pc s) = p_workers s" "p_workers_gauge (set_pc w pc s) = p_workers_gauge s"
  "p_next_worker_id (set_pc w pc s) = p_next_worker_id s" "p_closed (set_pc w pc s) = p_closed s"
  "p_busy (set_pc w pc s) = p_busy s" "p_exits (set_pc w pc s) = p_exits s"
  "p_ctor (set_pc w pc s) = p_ctor s" "p_super (set_pc w pc s) = p_super s"
  "p_super_shutdown (set_pc w pc s) = p_super_shutdown s" "p_drop (set_pc w pc s) = p_drop s"
  "p_borrows (set_pc w pc s) = p_borrows s" "p_started (set_pc w pc s) = p_started s"
  by (simp_all add: set_pc_def)

lemma set_ready_sel [simp]:
  "p_calls (set_ready w r s) = p_calls s" "p_queue (set_ready w r s) = p_queue s"
  "p_capacity (set_ready w r s) = p_capacity s" "p_desired (set_ready w r s) = p_desired s"
  "p_workers (set_ready w r s) = p_workers s" "p_workers_gauge (set_ready w r s) = p_workers_gauge s"
  "p_next_worker_id (set_ready w r s) = p_next_worker_id s" "p_closed (set_ready w r s) = p_closed s"
  "p_busy (set_ready w r s) = p_busy s" "p_exits (set_ready w r s) = p_exits s"
  "p_ctor (set_ready w r s) = p_ctor s" "p_super (set_ready w r s) = p_super s"
  "p_super_shutdown (set_ready w r s) = p_super_shutdown s" "p_drop (set_ready w r s) = p_drop s"
  "p_borrows (set_ready w r s) = p_borrows s" "p_started (set_ready w r s) = p_started s"
  by (simp_all add: set_ready_def)

lemma set_workers_sel [simp]:
  "p_workers (set_workers ws s) = ws"
  "p_workers_gauge (set_workers ws s) = usize_to_f64 (length ws)"
  "p_calls (set_workers ws s) = p_calls s" "p_queue (set_workers ws s) = p_queue s"
  "p_capacity (set_workers ws s) = p_capacity s" "p_desired (set_workers ws s) = p_desired s"
  "p_threads (set_workers ws s) = p_threads s"
  "p_next_worker_id (set_workers ws s) = p_next_worker_id s" "p_closed (set_workers ws s) = p_closed s"
  "p_busy (set_workers ws s) = p_busy s" "p_exits (set_workers ws s) = p_exits s"
  "p_ctor (set_workers ws s) = p_ctor s" "p_super (set_workers ws s) = p_super s"
  "p_super_shutdown (set_workers ws s) = p_super_shutdown s" "p_drop (set_workers ws s) = p_drop s"
  "p_borrows (set_workers ws s) = p_borrows s" "p_started (set_workers ws s) = p_started s"
  by (simp_all add: set_workers_def)

lemma pc_of_cong: "p_threads t = p_threads s \<Longrightarrow> pc_of t = pc_of s"
  by (simp add: pc_of_def fun_eq_iff)

lemma pc_of_sel [simp]:
  "pc_of (set_call c k s) = pc_of s" "pc_of (set_workers ws s) = pc_of s"
  "pc_of (s\<lparr>p_queue := q\<rparr>) = pc_of s" "pc_of (s\<lparr>p_borrows := b\<rparr>) = pc_of s"
  "pc_of (s\<lparr>p_busy := n\<rparr>) = pc_of s" "pc_of (s\<lparr>p_started := cs\<rparr>) = pc_of s"
  "pc_of (s\<lparr>p_exits := es\<rparr>) = pc_of s" "pc_of (s\<lparr>p_super := sp\<rparr>) = pc_of s"
  "pc_of (s\<lparr>p_ctor := cp\<rparr>) = pc_of s" "pc_of (s\<lparr>p_guard := g\<rparr>) = pc_of s"
  "pc_of (s\<lparr>p_restart_blocked := b2\<rparr>) = pc_of s" "pc_of (s\<lparr>p_restarts := rs\<rparr>) = pc_of s"
  "pc_of (s\<lparr>p_next_worker_id := n\<rparr>) = pc_of s" "pc_of (s\<lparr>p_closed := b2\<rparr>) = pc_of s"
  "pc_of (s\<lparr>p_drop := d\<rparr>) = pc_of s" "pc_of (s\<lparr>p_super_shutdown := b2\<rparr>) = pc_of s"
  by (simp_all add: pc_of_def fun_eq_iff)

lemma pc_of_set_pc [simp]:
  "pc_of (set_pc w pc s) w' = (if w' = w \<and> pc_of s w \<noteq> None then Some pc else pc_of s w')"
  by (simp add: pc_of_def set_pc_def option.map_comp comp_def option.map_id)

lemma pc_of_set_ready [simp]: "pc_of (set_ready w r s) = pc_of s"
  by (auto simp: pc_of_def set_ready_def fun_eq_iff option.map_comp comp_def)

lemma pc_of_new_thread [simp]:
  "pc_of (s\<lparr>p_threads := (p_threads s)(w \<mapsto> new_thread)\<rparr>) w' =
     (if w' = w then Some WStarting else pc_of s w')"
  by (simp add: pc_of_def new_thread_def)

lemma pc_of_start_thread [simp]:
  "pc_of (snd (start_thread s)) w' = (if w' = p_next_worker_id s then Some WStarting else pc_of s w')"
  by (simp add: start_thread_def pc_of_def new_thread_def Let_def)

lemma fold_request_shutdown [simp]:
  "p_calls (fold request_shutdown ws s) = p_calls s"
  "p_queue (fold request_shutdown ws s) = p_queue s"
  "p_capacity (fold request_shutdown ws s) = p_capacity s"
  "p_desired (fold request_shutdown ws s) = p_desired s"
  "p_workers (fold request_shutdown ws s) = p_workers s"
  "p_workers_gauge (fold request_shutdown ws s) = p_workers_gauge s"
  "p_next_worker_id (fold request_shutdown ws s) = p_next_worker_id s"
  "p_closed (fold request_shutdown ws s) = p_closed s"
  "p_busy (fold request_shutdown ws s) = p_busy s"
  "p_exits (fold request_shutdown ws s) = p_exits s"
  "p_ctor (fold request_shutdown ws s) = p_ctor s"
  "p_super (fold request_shutdown ws s) = p_super s"
  "p_super_shutdown (fold request_shutdown ws s) = p_super_shutdown s"
  "p_drop (fold request_shutdown ws s) = p_drop s"
  "p_borrows (fold request_shutdown ws s) = p_borrows s"
  "p_started (fold request_shutdown ws s) = p_started s"
  "pc_of (fold request_shutdown ws s) = pc_of s"
  "ready_of (fold request_shutdown ws s) = ready_of s"
  by (induction ws arbitrary: s)
    (simp_all add: request_shutdown_def pc_of_def ready_of_def fun_eq_iff option.map_comp comp_def
      bind_map_option)

lemma ready_of_sel [simp]:
  "ready_of (set_call c k s) = ready_of s" "ready_of (set_workers ws s) = ready_of s"
  "ready_of (s\<lparr>p_queue := q\<rparr>) = ready_of s" "ready_of (s\<lparr>p_borrows := b\<rparr>) = ready_of s"
  "ready_of (s\<lparr>p_busy := n\<rparr>) = ready_of s" "ready_of (s\<lparr>p_started := cs\<rparr>) = ready_of s"
  "ready_of (s\<lparr>p_exits := es\<rparr>) = ready_of s" "ready_of (s\<lparr>p_super := sp\<rparr>) = ready_of s"
  "ready_of (s\<lparr>p_ctor := cp\<rparr>) = ready_of s" "ready_of (s\<lparr>p_guard := g\<rparr>) = ready_of s"
  "ready_of (s\<lparr>p_restart_blocked := b2\<rparr>) = ready_of s" "ready_of (s\<lparr>p_restarts := rs\<rparr>) = ready_of s"
  "ready_of (s\<lparr>p_next_worker_id := n\<rparr>) = ready_of s" "ready_of (s\<lparr>p_closed := b2\<rparr>) = ready_of s"
  "ready_of (s\<lparr>p_drop := d\<rparr>) = ready_of s" "ready_of (s\<lparr>p_super_shutdown := b2\<rparr>) = ready_of s"
  "ready_of (set_pc w pc s) = ready_of s"
  by (simp_all add: ready_of_def fun_eq_iff set_pc_def bind_map_option comp_def)

lemma ready_of_set_ready [simp]:
  "ready_of (set_ready w r s) w' = (if w' = w \<and> pc_of s w \<noteq> None then Some r else ready_of s w')"
  by (auto simp: ready_of_def pc_of_def set_ready_def bind_map_option comp_def split: bind_splits)

lemma ready_of_start_thread [simp]:
  "ready_of (snd (start_thread s)) w' = (if w' = p_next_worker_id s then None else ready_of s w')"
  by (simp add: start_thread_def ready_of_def new_thread_def Let_def)

lemma start_thread_sel [simp]:
  "fst (start_thread s) = p_next_worker_id s"
  "p_next_worker_id (snd (start_thread s)) = Suc (p_next_worker_id s)"
  "p_calls (snd (start_thread s)) = p_calls s" "p_queue (snd (start_thread s)) = p_queue s"
  "p_capacity (snd (start_thread s)) = p_capacity s" "p_desired (snd (start_thread s)) = p_desired s"
  "p_workers (snd (start_thread s)) = p_workers s"
  "p_workers_gauge (snd (start_thread s)) = p_workers_gauge s"
  "p_closed (snd (start_thread s)) = p_closed s" "p_busy (snd (start_thread s)) = p_busy s"
  "p_exits (snd (start_thread s)) = p_exits s" "p_ctor (snd (start_thread s)) = p_ctor s"
  "p_super (snd (start_thread s)) = p_super s"
  "p_super_shutdown (snd (start_thread s)) = p_super_shutdown s"
  "p_drop (snd (start_thread s)) = p_drop s" "p_borrows (snd (start_thread s)) = p_borrows s"
  "p_started (snd (start_thread s)) = p_started s"
  by (simp_all add: start_thread_def Let_def)

lemma send_result_cases:
  assumes "send_result c r s = Some t"
  obtains "\<not> cl_rx (p_calls s c)" "t = s"
  | "cl_rx (p_calls s c)" "cl_reply (p_calls s c) = None"
    "t = set_call c ((p_calls s c)\<lparr>cl_reply := Some r\<rparr>) s"
  using assms by (auto simp: send_result_def Let_def split: if_splits option.splits)

lemma holds_iff: "holds s w c \<longleftrightarrow> (\<exists>pc. pc_of s w = Some pc \<and> job_of pc = Some c)"
  by (auto simp: holds_def bind_eq_Some_conv)

lemma job_of_eq_Some:
  "job_of pc = Some c \<longleftrightarrow>
     pc = WGot c \<or> pc = WRun c \<or> pc = WTail c \<or> pc = WPanicked c \<or> (\<exists>b. pc = WFinishing c b)"
  by (cases pc) auto

lemma is_finished_iff [simp]: "is_finished s w \<longleftrightarrow> pc_of s w = Some WDone"
  by (simp add: is_finished_def)

text \<open>What one reap and one count of the workers do.\<close>

lemma reap_finished_workers_eq:
  "\<exists>g. reap_finished_workers s =
     s\<lparr>p_workers := filter (\<lambda>w. \<not> is_finished s w) (p_workers s), p_workers_gauge := g\<rparr>
     \<and> (g = p_workers_gauge s \<and> filter (\<lambda>w. \<not> is_finished s w) (p_workers s) = p_workers s
        \<or> g = usize_to_f64 (length (filter (\<lambda>w. \<not> is_finished s w) (p_workers s))))"
proof (cases "filter (is_finished s) (p_workers s) = []")
  case True
  then have "filter (\<lambda>w. \<not> is_finished s w) (p_workers s) = p_workers s"
    by (auto simp: filter_empty_conv filter_id_conv)
  with True show ?thesis
    by (auto simp: reap_finished_workers_def intro!: exI [of _ "p_workers_gauge s"])
next
  case False
  have "filter (\<lambda>w. w \<in> set (p_workers s) \<longrightarrow> pc_of s w \<noteq> Some WDone) (p_workers s)
      = filter (\<lambda>w. pc_of s w \<noteq> Some WDone) (p_workers s)"
    by (rule filter_cong) auto
  with False show ?thesis
    by (auto simp: reap_finished_workers_def set_workers_def Let_def)
qed

section \<open>Where a job is\<close>

text \<open>
  A job is nowhere before it is enqueued; afterwards it is in the queue, or held by exactly one
  worker, or dealt with. It enters the log of started jobs when a worker hands it to the runtime.
\<close>

abbreviation submitted :: "'v pool \<Rightarrow> call_id \<Rightarrow> bool" where
  "submitted s c \<equiv> cl_pc (p_calls s c) \<in> {CAwaiting, CReturned}"

definition jobs_inv :: "'v pool \<Rightarrow> bool" where
  "jobs_inv s \<longleftrightarrow>
     distinct (p_queue s) \<and> distinct (p_started s) \<and> length (p_queue s) \<le> p_capacity s
     \<and> (\<forall>c. c \<in> set (p_queue s) \<longrightarrow> submitted s c \<and> c \<notin> set (p_started s))
     \<and> (\<forall>c. c \<in> set (p_started s) \<longrightarrow> submitted s c)
     \<and> (\<forall>w c. holds s w c \<longrightarrow> submitted s c \<and> c \<notin> set (p_queue s))
     \<and> (\<forall>w w' c. holds s w c \<longrightarrow> holds s w' c \<longrightarrow> w' = w)
     \<and> (\<forall>w c. holds s w c \<longrightarrow> (c \<in> set (p_started s) \<longleftrightarrow> pc_of s w \<noteq> Some (WGot c)))"

text \<open>
  A reply is owed while the job is queued, just received or running; a panicked worker still owes
  one only when the early reply was not sent.
\<close>

definition owed :: "'v pool \<Rightarrow> call_id \<Rightarrow> bool" where
  "owed s c \<longleftrightarrow> c \<in> set (p_queue s) \<or> (\<exists>w. pc_of s w \<in> {Some (WGot c), Some (WRun c)})"

definition panicking :: "'v pool \<Rightarrow> call_id \<Rightarrow> bool" where
  "panicking s c \<longleftrightarrow> (\<exists>w. pc_of s w = Some (WPanicked c))"

definition reply_inv :: "'v pool \<Rightarrow> bool" where
  "reply_inv s \<longleftrightarrow>
     (\<forall>c. cl_rx (p_calls s c) \<longleftrightarrow> cl_pc (p_calls s c) \<noteq> CReturned)
     \<and> (\<forall>c. \<not> submitted s c \<longrightarrow> cl_reply (p_calls s c) = None)
     \<and> (\<forall>c. cl_pc (p_calls s c) = CAwaiting \<longrightarrow> owed s c \<longrightarrow> cl_reply (p_calls s c) = None)
     \<and> (\<forall>c. cl_pc (p_calls s c) = CAwaiting \<longrightarrow> cl_reply (p_calls s c) = None
          \<longrightarrow> owed s c \<or> panicking s c)"

text \<open>Steps of the supervisor, of the constructor and most of the drop leave the jobs alone.\<close>

definition same_jobs :: "'v pool \<Rightarrow> 'v pool \<Rightarrow> bool" where
  "same_jobs s t \<longleftrightarrow>
     p_queue t = p_queue s \<and> p_started t = p_started s \<and> p_capacity t = p_capacity s
     \<and> p_calls t = p_calls s
     \<and> (\<forall>w. pc_of t w = pc_of s w
          \<or> Option.bind (pc_of s w) job_of = None \<and> Option.bind (pc_of t w) job_of = None)"

lemma same_jobs_holds: "same_jobs s t \<Longrightarrow> holds t = holds s"
  unfolding same_jobs_def holds_def fun_eq_iff by (metis option.distinct(1))

lemma same_jobs_pc:
  "same_jobs s t \<Longrightarrow> job_of pc \<noteq> None \<Longrightarrow> pc_of t w = Some pc \<longleftrightarrow> pc_of s w = Some pc"
  by (auto simp: same_jobs_def dest!: spec [of _ w])

lemma same_jobs_jobs_inv: "same_jobs s t \<Longrightarrow> jobs_inv s \<Longrightarrow> jobs_inv t"
  using same_jobs_pc [of s t "WGot _"]
  by (simp add: jobs_inv_def same_jobs_holds) (auto simp: same_jobs_def)

lemma same_jobs_reply_inv: "same_jobs s t \<Longrightarrow> reply_inv s \<Longrightarrow> reply_inv t"
  using same_jobs_pc [of s t "WGot _"] same_jobs_pc [of s t "WRun _"]
    same_jobs_pc [of s t "WPanicked _"]
  by (simp add: reply_inv_def owed_def panicking_def) (auto simp: same_jobs_def)

lemma reap_sel [simp]:
  "p_calls (reap_finished_workers s) = p_calls s" "p_queue (reap_finished_workers s) = p_queue s"
  "p_capacity (reap_finished_workers s) = p_capacity s"
  "p_desired (reap_finished_workers s) = p_desired s"
  "p_threads (reap_finished_workers s) = p_threads s"
  "p_next_worker_id (reap_finished_workers s) = p_next_worker_id s"
  "p_closed (reap_finished_workers s) = p_closed s" "p_busy (reap_finished_workers s) = p_busy s"
  "p_exits (reap_finished_workers s) = p_exits s" "p_ctor (reap_finished_workers s) = p_ctor s"
  "p_super (reap_finished_workers s) = p_super s"
  "p_super_shutdown (reap_finished_workers s) = p_super_shutdown s"
  "p_drop (reap_finished_workers s) = p_drop s" "p_borrows (reap_finished_workers s) = p_borrows s"
  "p_started (reap_finished_workers s) = p_started s"
  "p_workers (reap_finished_workers s) = filter (\<lambda>w. pc_of s w \<noteq> Some WDone) (p_workers s)"
  using reap_finished_workers_eq [of s] by auto

lemma pc_of_reap [simp]: "pc_of (reap_finished_workers s) = pc_of s"
  by (rule pc_of_cong) simp

lemma ready_of_reap [simp]: "ready_of (reap_finished_workers s) = ready_of s"
  by (simp add: ready_of_def fun_eq_iff)

lemmas super_defs = sup_shutdown_def sup_event_def sup_tick_def sup_check_def sup_reconcile_def
  sup_restart_def sup_insert_def sup_ready_def sup_join_failed_def remove_worker_handle_def
  insert_worker_def live_workers_def

lemmas life_defs = ctor_spawn_def ctor_insert_def ctor_ready_def ctor_join_failed_def
  ctor_supervisor_def ctor_fail_def drop_start_def drop_request_def drop_signal_def
  drop_join_supervisor_def drop_join_workers_def remove_worker_handle_def insert_worker_def

lemma super_act_same_jobs:
  "pc_of s (p_next_worker_id s) = None \<Longrightarrow> super_act a s = Some t \<Longrightarrow> same_jobs s t"
  by (cases a)
    (auto simp: super_defs same_jobs_def Let_def case_prod_unfold
      split: if_splits list.splits super_pc.splits nat.splits option.splits sum.splits)

lemma life_act_same_jobs:
  "pc_of s (p_next_worker_id s) = None \<Longrightarrow> a \<noteq> DropDrainOne \<Longrightarrow> life_act a s = Some t
   \<Longrightarrow> same_jobs s t"
  by (cases a)
    (auto simp: life_defs same_jobs_def Let_def case_prod_unfold
      split: if_splits ctor_pc.splits nat.splits option.splits sum.splits)

lemmas call_defs = call_start_def call_check_live_def call_enqueue_def call_give_up_def
  call_receive_def call_timeout_def call_disconnected_def finish_call_def live_workers_def

lemmas worker_defs = worker_started_def worker_start_failed_def worker_start_panicked_def
  worker_receive_def worker_dispatch_def worker_early_reply_def worker_main_replied_def
  worker_main_not_replied_def worker_unwind_def worker_panic_reply_def worker_end_job_def
  worker_stop_def worker_exit_def

lemma holds_sel [simp]:
  "holds (set_call c k s) = holds s"
  "holds (s\<lparr>p_queue := q\<rparr>) = holds s" "holds (s\<lparr>p_borrows := b\<rparr>) = holds s"
  "holds (s\<lparr>p_busy := n\<rparr>) = holds s" "holds (s\<lparr>p_started := cs\<rparr>) = holds s"
  "holds (s\<lparr>p_exits := es\<rparr>) = holds s" "holds (reap_finished_workers s) = holds s"
  "holds (set_ready w r s) = holds s"
  by (simp_all add: holds_def fun_eq_iff)

lemma holds_set_pc [simp]:
  "holds (set_pc w pc s) w' c \<longleftrightarrow>
     (if w' = w \<and> pc_of s w \<noteq> None then job_of pc = Some c else holds s w' c)"
  by (auto simp: holds_iff)

lemma holds_pc: "pc_of s w = Some pc \<Longrightarrow> holds s w c \<longleftrightarrow> job_of pc = Some c"
  by (simp add: holds_iff)

text \<open>A step of a call changes that call only: it returns, advances, or enqueues its job.\<close>

definition call_effect :: "call_id \<Rightarrow> 'v call \<Rightarrow> 'v pool \<Rightarrow> 'v pool \<Rightarrow> bool" where
  "call_effect c k s t \<longleftrightarrow>
     p_calls t = (p_calls s)(c := k) \<and> p_started t = p_started s \<and> p_capacity t = p_capacity s
     \<and> pc_of t = pc_of s
     \<and> (cl_pc k = CReturned \<and> \<not> cl_rx k \<and> p_queue t = p_queue s
        \<or> \<not> submitted s c \<and> cl_pc k \<in> {CCheckLive, CSending} \<and> cl_rx k = cl_rx (p_calls s c)
          \<and> cl_reply k = cl_reply (p_calls s c) \<and> p_queue t = p_queue s
        \<or> cl_pc (p_calls s c) = CSending \<and> cl_pc k = CAwaiting \<and> cl_rx k = cl_rx (p_calls s c)
          \<and> cl_reply k = cl_reply (p_calls s c) \<and> p_queue t = p_queue s @ [c]
          \<and> length (p_queue s) < p_capacity s)"

fun caller_of :: "call_action \<Rightarrow> call_id" where
  "caller_of (CallStart c) = c"
| "caller_of (CallCheckLive c) = c"
| "caller_of (CallEnqueue c) = c"
| "caller_of (CallGiveUp c g) = c"
| "caller_of (CallReceive c) = c"
| "caller_of (CallTimeout c) = c"
| "caller_of (CallDisconnected c) = c"

lemma call_effect_finish [simp]:
  "call_effect c (p_calls (finish_call c r b s) c) s (finish_call c r b s)"
  by (simp add: call_effect_def finish_call_def Let_def)

lemma call_effect_finish_frame [simp]:
  "call_effect c k (reap_finished_workers s) t = call_effect c k s t"
  "call_effect c k (s\<lparr>p_borrows := b\<rparr>) t = call_effect c k s t"
  "cl_pc k = CReturned \<Longrightarrow> call_effect c k (set_call c k' s) t = call_effect c k s t"
  by (simp_all add: call_effect_def)

lemma finish_call_pc [simp]: "cl_pc (p_calls (finish_call c r b s) c) = CReturned"
  by (simp add: finish_call_def Let_def)

lemma call_effect_advance [simp]:
  "\<not> submitted s c \<Longrightarrow> pc \<in> {CCheckLive, CSending}
   \<Longrightarrow> call_effect c ((p_calls s c)\<lparr>cl_pc := pc\<rparr>) s (set_call c ((p_calls s c)\<lparr>cl_pc := pc\<rparr>) s)"
  by (simp add: call_effect_def)

lemma call_effect_send:
  assumes "send_result c e s = Some t"
  shows "call_effect c (p_calls (finish_call c r b t) c) s (finish_call c r b t)"
  using assms
proof (cases rule: send_result_cases)
  case 2
  with call_effect_finish [of c r b t] show ?thesis by (simp del: call_effect_finish)
qed simp

lemma call_act_effect:
  assumes "call_act a s = Some t"
  shows "call_effect (caller_of a) (p_calls t (caller_of a)) s t"
proof (cases a)
  case (CallStart c)
  with assms call_effect_finish [of c _ _ "s\<lparr>p_borrows := c # p_borrows s\<rparr>"]
    call_effect_advance [of "s\<lparr>p_borrows := c # p_borrows s\<rparr>" c] show ?thesis
    by (auto simp: call_start_def Let_def simp del: call_effect_finish call_effect_advance
        split: if_splits)
next
  case (CallCheckLive c)
  with assms call_effect_finish [of c _ _ "reap_finished_workers s"]
    call_effect_advance [of "reap_finished_workers s" c] show ?thesis
    by (auto simp: call_check_live_def live_workers_def Let_def
        simp del: call_effect_finish call_effect_advance split: if_splits)
next
  case (CallEnqueue c)
  with assms show ?thesis by (auto simp: call_enqueue_def call_effect_def split: if_splits)
next
  case (CallGiveUp c g)
  with assms show ?thesis
    by (auto simp: call_give_up_def Let_def intro: call_effect_send simp del: fun_upd_apply
        split: if_splits)
qed (use assms in \<open>auto simp: call_receive_def call_timeout_def call_disconnected_def
    split: if_splits option.splits\<close>)

lemma holds_cong: "pc_of t = pc_of s \<Longrightarrow> holds t = holds s"
  by (simp add: holds_def fun_eq_iff)

lemma jobs_inv_mono:
  assumes "jobs_inv s" and "\<And>c. submitted s c \<Longrightarrow> submitted t c" and "pc_of t = pc_of s"
    and "p_queue t = p_queue s" "p_started t = p_started s" "p_capacity t = p_capacity s"
  shows "jobs_inv t"
  using assms(1,2) unfolding jobs_inv_def holds_cong [OF assms(3)] assms(3-6) by blast

lemma jobs_inv_enqueue:
  assumes "jobs_inv s" and "\<And>c. submitted s c \<Longrightarrow> submitted t c" and "pc_of t = pc_of s"
    and "p_queue t = p_queue s @ [c]" "p_started t = p_started s" "p_capacity t = p_capacity s"
    and "\<not> submitted s c" "submitted t c" "length (p_queue s) < p_capacity s"
  shows "jobs_inv t"
proof -
  have "c \<notin> set (p_queue s)" "c \<notin> set (p_started s)" "\<And>w. \<not> holds s w c"
    using assms(1,7) by (auto simp: jobs_inv_def)
  then show ?thesis
    using assms(1,2,7-9) unfolding jobs_inv_def holds_cong [OF assms(3)] assms(3-6)
    by (auto dest: Suc_leI)
qed

lemma call_effect_jobs_inv:
  assumes "call_effect c k s t" "jobs_inv s"
  shows "jobs_inv t"
proof (cases "p_queue t = p_queue s")
  case True
  then show ?thesis
    using assms by (intro jobs_inv_mono [of s t]) (auto simp: call_effect_def split: if_splits)
next
  case False
  then show ?thesis
    using assms by (intro jobs_inv_enqueue [of s t c]) (auto simp: call_effect_def split: if_splits)
qed

lemma call_effect_owed:
  "call_effect c k s t \<Longrightarrow> owed t c' \<longleftrightarrow> owed s c' \<or> cl_pc k = CAwaiting \<and> c' = c"
  "call_effect c k s t \<Longrightarrow> panicking t c' \<longleftrightarrow> panicking s c'"
  by (auto simp: call_effect_def owed_def panicking_def)

lemma call_effect_reply_inv:
  assumes "call_effect c k s t" "reply_inv s"
  shows "reply_inv t"
  using assms(2) call_effect_owed [OF assms(1)] assms(1)
  unfolding reply_inv_def by (simp add: call_effect_def) (elim conjE disjE; simp)

text \<open>The effects of the steps of a worker on the jobs.\<close>

lemma jobs_inv_sel [simp]:
  "jobs_inv (s\<lparr>p_busy := n\<rparr>) = jobs_inv s" "jobs_inv (s\<lparr>p_exits := es\<rparr>) = jobs_inv s"
  "jobs_inv (set_ready w r s) = jobs_inv s"
  by (simp_all add: jobs_inv_def)

lemma reply_inv_sel [simp]:
  "reply_inv (s\<lparr>p_busy := n\<rparr>) = reply_inv s" "reply_inv (s\<lparr>p_exits := es\<rparr>) = reply_inv s"
  "reply_inv (s\<lparr>p_started := cs\<rparr>) = reply_inv s"
  "reply_inv (set_ready w r s) = reply_inv s"
  by (simp_all add: reply_inv_def owed_def panicking_def)

lemma jobs_inv_send: "jobs_inv s \<Longrightarrow> send_result c r s = Some t \<Longrightarrow> jobs_inv t"
  by (rule jobs_inv_mono [of s t]) (auto elim!: send_result_cases split: if_splits)

lemma jobs_inv_release: "jobs_inv s \<Longrightarrow> job_of pc = None \<Longrightarrow> jobs_inv (set_pc w pc s)"
  by (simp add: jobs_inv_def)

lemma jobs_inv_keep:
  assumes "jobs_inv s" "pc_of s w = Some pc" "job_of pc' = job_of pc"
    "\<And>c. pc \<noteq> WGot c" "\<And>c. pc' \<noteq> WGot c"
  shows "jobs_inv (set_pc w pc' s)"
proof -
  have "holds (set_pc w pc' s) = holds s"
    using assms(2,3) by (auto simp: fun_eq_iff holds_def)
  with assms show ?thesis by (auto simp: jobs_inv_def)
qed

lemma jobs_inv_receive:
  assumes "jobs_inv s" "p_queue s = c # q" "pc_of s w = Some WSelect"
  shows "jobs_inv (set_pc w (WGot c) (s\<lparr>p_queue := q\<rparr>))"
proof -
  have "\<And>w'. \<not> holds s w' c" "\<And>c'. \<not> holds s w c'"
    using assms by (auto simp: jobs_inv_def holds_def)
  with assms show ?thesis by (auto simp: jobs_inv_def)
qed

lemma jobs_inv_start:
  assumes "jobs_inv s" "pc_of s w = Some (WGot c)"
  shows "jobs_inv (set_pc w (WRun c) (s\<lparr>p_started := p_started s @ [c]\<rparr>))"
proof -
  have w: "holds s w c" "\<And>c'. holds s w c' \<longleftrightarrow> c' = c" using assms(2) by (auto simp: holds_def)
  with assms show ?thesis by (simp add: jobs_inv_def) (metis option.inject worker_pc.inject(1))
qed

lemma jobs_inv_start':
  assumes "jobs_inv s" "pc_of s w = Some (WGot c)"
  shows "jobs_inv (set_pc w (WRun c) (s\<lparr>p_busy := n, p_started := p_started s @ [c]\<rparr>))"
  using jobs_inv_start [of "s\<lparr>p_busy := n\<rparr>"] assms by simp

lemma reply_inv_move:
  assumes "reply_inv s" "pc_of s w = Some pc"
    and "\<And>c. pc' \<in> {WGot c, WRun c} \<Longrightarrow> pc \<in> {WGot c, WRun c}"
    and "\<And>c. pc \<in> {WGot c, WRun c, WPanicked c} \<Longrightarrow> pc' \<in> {WGot c, WRun c, WPanicked c}"
  shows "reply_inv (set_pc w pc' s)"
proof -
  have o: "owed (set_pc w pc' s) c \<Longrightarrow> owed s c" for c
    using assms(2,3) by (auto simp: owed_def split: if_splits)
  have p: "owed s c \<or> panicking s c \<Longrightarrow> owed (set_pc w pc' s) c \<or> panicking (set_pc w pc' s) c" for c
    using assms(2,4) by (simp add: owed_def panicking_def) (metis option.inject)
  show ?thesis using assms(1) o p by (simp add: reply_inv_def)
qed

lemma reply_inv_receive:
  assumes "reply_inv s" "p_queue s = c # q" "pc_of s w = Some WSelect"
  shows "reply_inv (set_pc w (WGot c) (s\<lparr>p_queue := q\<rparr>))"
proof -
  let ?t = "set_pc w (WGot c) (s\<lparr>p_queue := q\<rparr>)"
  have "owed ?t c' \<longleftrightarrow> owed s c'" "panicking ?t c' \<longleftrightarrow> panicking s c'" for c'
    using assms(2,3) by (simp_all add: owed_def panicking_def) (metis option.inject worker_pc.distinct)+
  with assms(1) show ?thesis by (simp add: reply_inv_def)
qed

text \<open>The worker that owes the reply sends it and moves on.\<close>

lemma reply_inv_send:
  assumes inv: "jobs_inv s" "reply_inv s" and w: "pc_of s w = Some pc" "job_of pc = Some c"
    and t: "send_result c r s = Some t" and pc': "\<And>c. pc' \<notin> {WGot c, WRun c, WPanicked c}"
  shows "reply_inv (set_pc w pc' t)"
proof -
  have h: "holds s w c" using w by (simp add: holds_iff)
  have u: "c \<notin> set (p_queue s)" "\<And>w'. pc_of s w' \<in> {Some (WGot c), Some (WRun c)} \<Longrightarrow> w' = w"
    using inv(1) h holds_iff [of s _ c] by (auto simp: jobs_inv_def) (metis job_of.simps(1,2))+
  have pc_t: "pc_of t = pc_of s" "p_queue t = p_queue s"
    using t by (auto elim: send_result_cases)
  have o: "owed (set_pc w pc' t) c' \<Longrightarrow> c' \<noteq> c \<and> owed s c'" for c'
    using w pc' u by (auto simp: owed_def pc_t split: if_splits)
  have p: "owed s c' \<or> panicking s c' \<Longrightarrow> c' \<noteq> c
      \<Longrightarrow> owed (set_pc w pc' t) c' \<or> panicking (set_pc w pc' t) c'" for c'
    using w by (simp add: owed_def panicking_def pc_t) (metis job_of.simps(1,2,4) option.inject)
  have s: "submitted s c" using inv(1) h by (simp add: jobs_inv_def)
  from t show ?thesis
  proof (cases rule: send_result_cases)
    case 1
    with inv(2) o p s show ?thesis unfolding reply_inv_def by (metis call_pc.distinct set_pc_sel(1))
  next
    case 2
    with inv(2) o p s show ?thesis by (simp add: reply_inv_def)
  qed
qed

lemma send_result_pc: "send_result c r s = Some t \<Longrightarrow> pc_of t = pc_of s"
  by (auto elim: send_result_cases)

lemma worker_act_jobs_inv: "jobs_inv s \<Longrightarrow> worker_act a s = Some t \<Longrightarrow> jobs_inv t"
  by (cases a)
    (auto simp: worker_defs send_result_pc
      intro: jobs_inv_send jobs_inv_release jobs_inv_keep jobs_inv_receive jobs_inv_start'
      split: if_splits option.splits list.splits worker_pc.splits)

lemma worker_act_reply_inv:
  "jobs_inv s \<Longrightarrow> reply_inv s \<Longrightarrow> worker_act a s = Some t \<Longrightarrow> reply_inv t"
  by (cases a)
    (auto simp: worker_defs send_result_pc pc_of_def [of s]
      intro: reply_inv_send reply_inv_receive reply_inv_move
      split: if_splits option.splits list.splits worker_pc.splits)

lemma jobs_inv_pop: "jobs_inv s \<Longrightarrow> p_queue s = c # q \<Longrightarrow> jobs_inv (s\<lparr>p_queue := q\<rparr>)"
  by (simp add: jobs_inv_def)

lemma same_jobs_drop [simp]: "same_jobs s (s\<lparr>p_drop := d\<rparr>)"
  by (simp add: same_jobs_def)

lemma drain_jobs_inv: "jobs_inv s \<Longrightarrow> drop_drain s = Some t \<Longrightarrow> jobs_inv t"
  by (auto simp: drop_drain_def split: if_splits list.splits
      intro: same_jobs_jobs_inv [OF same_jobs_drop] jobs_inv_send jobs_inv_pop)

lemma drain_reply_inv:
  assumes "jobs_inv s" "reply_inv s" "drop_drain s = Some t"
  shows "reply_inv t"
proof (cases "p_queue s")
  case Nil
  with assms show ?thesis
    by (auto simp: drop_drain_def intro: same_jobs_reply_inv [OF same_jobs_drop] split: if_splits)
next
  case (Cons c q)
  then have t: "send_result c (Inl (canceled_error (drop_message s))) (s\<lparr>p_queue := q\<rparr>) = Some t"
    using assms(3) by (simp add: drop_drain_def split: if_splits)
  have c: "submitted s c" "c \<notin> set q" "\<And>w. \<not> holds s w c"
    using assms(1) Cons by (auto simp: jobs_inv_def)
  have n: "pc_of s w \<noteq> Some (WGot c)" "pc_of s w \<noteq> Some (WRun c)" for w
    using c(3) [of w] by (auto simp: holds_def)
  have o: "owed t c' \<longleftrightarrow> c' \<noteq> c \<and> owed s c'" "panicking t c' \<longleftrightarrow> panicking s c'" for c'
    using t c(2) Cons n by (auto simp: owed_def panicking_def elim!: send_result_cases)
  from t show ?thesis
    by (cases rule: send_result_cases) (use assms(2) o c(1) in \<open>auto simp: reply_inv_def\<close>)
qed

end
