(* ===== verification/Pool_Invariant.thy ===== *)
theory Pool_Invariant
  imports Pool_Jobs
begin

text \<open>
  Invariants of the worker pool under every interleaving of \<open>Worker_Pool\<close>: which threads the worker
  map tracks, how many there can be, what the busy counter counts and who holds the pool; with the
  job invariants of \<open>Pool_Jobs\<close> they give the properties of every reachable state.
\<close>

section \<open>Which threads exist\<close>

fun super_spawning :: "super_pc \<Rightarrow> nat" where
  "super_spawning (SupLoop r n) = n"
| "super_spawning (SupStarted r n w) = Suc n"
| "super_spawning (SupAwaitReady r n w) = n"
| "super_spawning _ = 0"

fun ctor_spawning :: "ctor_pc \<Rightarrow> nat" where
  "ctor_spawning (CtorSpawn n) = n"
| "ctor_spawning (CtorStarted n w) = Suc n"
| "ctor_spawning (CtorAwaitReady n w) = n"
| "ctor_spawning _ = 0"

text \<open>A thread that is started and not yet in the map, and one that is removed and being joined.\<close>

definition inserting :: "'v pool \<Rightarrow> worker_id \<Rightarrow> bool" where
  "inserting s w \<longleftrightarrow> (\<exists>r n. p_super s = SupStarted r n w) \<or> (\<exists>n. p_ctor s = CtorStarted n w)"

definition joining :: "'v pool \<Rightarrow> worker_id \<Rightarrow> bool" where
  "joining s w \<longleftrightarrow> p_super s = SupJoinFailed w \<or> (\<exists>e. p_ctor s = CtorJoinFailed w e)"

definition awaiting :: "'v pool \<Rightarrow> worker_id \<Rightarrow> bool" where
  "awaiting s w \<longleftrightarrow> (\<exists>r n. p_super s = SupAwaitReady r n w) \<or> (\<exists>n. p_ctor s = CtorAwaitReady n w)"

definition ended :: "'v pool \<Rightarrow> worker_id \<Rightarrow> bool" where
  "ended s w \<longleftrightarrow> (\<exists>r. pc_of s w = Some (WExiting r)) \<or> pc_of s w = Some WDone"

definition threads_inv :: "'v pool \<Rightarrow> bool" where
  "threads_inv s \<longleftrightarrow>
     (\<forall>w. p_next_worker_id s \<le> w \<longrightarrow> pc_of s w = None)
     \<and> distinct (p_workers s)
     \<and> (\<forall>w. w \<in> set (p_workers s) \<or> inserting s w \<or> awaiting s w \<longrightarrow> pc_of s w \<noteq> None)
     \<and> (\<forall>w. pc_of s w \<noteq> None \<longrightarrow> pc_of s w \<noteq> Some WDone
          \<longrightarrow> w \<in> set (p_workers s) \<or> inserting s w \<or> joining s w)
     \<and> (\<forall>w. inserting s w \<longrightarrow> w \<notin> set (p_workers s))
     \<and> (\<forall>w e. ready_of s w = Some (Inl e) \<longrightarrow> ended s w)
     \<and> (\<forall>w. pc_of s w \<noteq> None \<longrightarrow> ready_of s w = None \<longrightarrow> pc_of s w = Some WStarting)
     \<and> (\<forall>w r. (w, r) \<in> set (p_exits s) \<longrightarrow> pc_of s w = Some WDone)
     \<and> (\<forall>w. joining s w \<longrightarrow> ended s w)"

definition room_inv :: "'v pool \<Rightarrow> bool" where
  "room_inv s \<longleftrightarrow>
     length (p_workers s) + super_spawning (p_super s) + ctor_spawning (p_ctor s) \<le> p_desired s
     \<and> p_workers_gauge s = usize_to_f64 (length (p_workers s))"

definition phase_inv :: "'v pool \<Rightarrow> bool" where
  "phase_inv s \<longleftrightarrow>
     (p_super s = SupNone \<longleftrightarrow> p_ctor s \<noteq> CtorCommitted)
     \<and> (p_drop s \<noteq> DropNone \<longrightarrow> p_ctor s = CtorCommitted \<or> (\<exists>e. p_ctor s = CtorFailed e))
     \<and> (p_closed s \<longleftrightarrow> p_drop s \<noteq> DropNone)"

definition worker_effect ::
  "worker_id \<Rightarrow> worker_pc \<Rightarrow> worker_pc \<Rightarrow> 'v pool \<Rightarrow> 'v pool \<Rightarrow> bool" where
  "worker_effect w pc pc' s t \<longleftrightarrow>
     pc_of s w = Some pc \<and> pc_of t = (pc_of s)(w := Some pc') \<and> pc \<noteq> WDone \<and> pc' \<noteq> WStarting
     \<and> (\<forall>r. pc = WExiting r \<longrightarrow> pc' = WDone)
     \<and> (ready_of t = ready_of s \<and> pc \<noteq> WStarting
        \<or> ready_of t = (ready_of s)(w \<mapsto> Inr ()) \<and> pc = WStarting
        \<or> (\<exists>r e. ready_of t = (ready_of s)(w \<mapsto> Inl e) \<and> pc' = WExiting r \<and> pc = WStarting))
     \<and> (p_exits t = p_exits s \<or> (\<exists>r. p_exits t = p_exits s @ [(w, r)] \<and> pc' = WDone))
     \<and> p_workers t = p_workers s \<and> p_workers_gauge t = p_workers_gauge s
     \<and> p_next_worker_id t = p_next_worker_id s \<and> p_desired t = p_desired s
     \<and> p_super t = p_super s \<and> p_ctor t = p_ctor s \<and> p_drop t = p_drop s \<and> p_closed t = p_closed s"

fun actor_of :: "'v worker_action \<Rightarrow> worker_id" where
  "actor_of (WorkerStarted w) = w"
| "actor_of (WorkerStartFailed w e) = w"
| "actor_of (WorkerStartPanicked w) = w"
| "actor_of (WorkerReceive w) = w"
| "actor_of (WorkerDispatch w) = w"
| "actor_of (WorkerEarlyReply w r) = w"
| "actor_of (WorkerMainReplied w) = w"
| "actor_of (WorkerMainNotReplied w e) = w"
| "actor_of (WorkerUnwind w) = w"
| "actor_of (WorkerPanicReply w) = w"
| "actor_of (WorkerEndJob w) = w"
| "actor_of (WorkerStop w) = w"
| "actor_of (WorkerExit w) = w"

lemma worker_act_effect:
  "worker_act a s = Some t \<Longrightarrow>
     worker_effect (actor_of a) (the (pc_of s (actor_of a))) (the (pc_of t (actor_of a))) s t"
  by (cases a)
    (auto simp: worker_defs worker_effect_def send_result_pc pc_of_def [of s] fun_eq_iff
      elim!: send_result_cases split: if_splits option.splits list.splits worker_pc.splits)

lemma worker_effect_threads_inv:
  assumes "worker_effect w pc pc' s t" "threads_inv s"
  shows "threads_inv t"
proof -
  have e: "inserting t = inserting s" "awaiting t = awaiting s" "joining t = joining s"
    using assms(1) by (auto simp: worker_effect_def inserting_def awaiting_def joining_def fun_eq_iff)
  have d: "ended s w' \<Longrightarrow> ended t w'" "pc_of t w' = None \<longleftrightarrow> pc_of s w' = None"
    "pc_of s w' = Some WDone \<Longrightarrow> pc_of t w' = Some WDone" for w'
    using assms(1) by (auto simp: worker_effect_def ended_def)
  have r: "ready_of t w' = Some (Inl e) \<Longrightarrow> ready_of s w' = Some (Inl e) \<or> ended t w'"
    "pc_of s w' \<noteq> None \<Longrightarrow> ready_of t w' = None \<Longrightarrow> ready_of s w' = None \<and> w' \<noteq> w \<or> w' = w \<and> ready_of s w' = None \<and> pc \<noteq> WStarting"
    "(w', x) \<in> set (p_exits t) \<Longrightarrow> (w', x) \<in> set (p_exits s) \<or> pc_of t w' = Some WDone" for w' e x
    using assms(1) by (auto simp: worker_effect_def ended_def split: if_splits)
  have c: "p_workers t = p_workers s" "p_next_worker_id t = p_next_worker_id s"
    "pc_of s w = Some pc" "\<And>w'. w' \<noteq> w \<Longrightarrow> pc_of t w' = pc_of s w'"
    using assms(1) by (auto simp: worker_effect_def)
  from assms(2) show ?thesis
    unfolding threads_inv_def e c(1,2) using d r c(3,4) by (intro conjI; metis option.inject)
qed

lemma worker_effect_room_inv:
  "worker_effect w pc pc' s t \<Longrightarrow> room_inv s \<Longrightarrow> room_inv t"
  "worker_effect w pc pc' s t \<Longrightarrow> phase_inv s \<Longrightarrow> phase_inv t"
  by (simp_all add: worker_effect_def room_inv_def phase_inv_def)

text \<open>The other actors leave every thread where it is, apart from starting a new one.\<close>

lemma call_act_threads:
  assumes "call_act a s = Some t"
  shows "p_threads t = p_threads s" "p_exits t = p_exits s" "p_super t = p_super s"
    "p_ctor t = p_ctor s" "p_next_worker_id t = p_next_worker_id s" "p_desired t = p_desired s"
    "p_busy t = p_busy s" "p_drop t = p_drop s" "p_closed t = p_closed s"
  using assms
  by (cases a;
      auto simp: call_defs Let_def case_prod_unfold elim!: send_result_cases
        split: if_splits option.splits)+

lemma call_act_workers:
  assumes "call_act a s = Some t"
  shows "p_workers t = p_workers s \<and> p_workers_gauge t = p_workers_gauge s
       \<or> p_workers t = p_workers (reap_finished_workers s)
         \<and> p_workers_gauge t = p_workers_gauge (reap_finished_workers s)"
  using assms
  by (cases a;
      auto simp: call_defs Let_def case_prod_unfold set_call_def elim!: send_result_cases
        split: if_splits option.splits)

lemma call_act_threads_inv:
  assumes "call_act a s = Some t" "threads_inv s"
  shows "threads_inv t"
proof -
  note f = call_act_threads [OF assms(1)]
  have "pc_of t = pc_of s" "ready_of t = ready_of s" "inserting t = inserting s"
    "awaiting t = awaiting s" "joining t = joining s" "ended t = ended s"
    using f by (auto simp: fun_eq_iff pc_of_def ready_of_def inserting_def awaiting_def joining_def
        ended_def)
  then show ?thesis
    using assms(2) call_act_workers [OF assms(1)] unfolding threads_inv_def f(2,5)
    by (elim disjE) auto
qed

lemma gauge_reap:
  "p_workers_gauge s = usize_to_f64 (length (p_workers s)) \<Longrightarrow>
   p_workers_gauge (reap_finished_workers s) = usize_to_f64 (length (p_workers (reap_finished_workers s)))"
  using reap_finished_workers_eq [of s] by auto

lemma call_act_room_inv:
  assumes "call_act a s = Some t" "room_inv s"
  shows "room_inv t"
  using assms(2) call_act_threads [OF assms(1)] call_act_workers [OF assms(1)] gauge_reap [of s]
    length_filter_le [of "\<lambda>w. pc_of s w \<noteq> Some WDone" "p_workers s"]
  by (auto simp: room_inv_def simp del: length_filter_le)

lemma length_removeAll_le:
  "length xs \<le> d \<Longrightarrow> length (removeAll x xs) \<le> d"
  "length xs + k \<le> d \<Longrightarrow> length (removeAll x xs) \<le> d"
  using length_filter_le [of "\<lambda>y. x \<noteq> y" xs]
  by (simp_all add: removeAll_filter_not_eq del: length_filter_le)

lemma call_act_phase_inv: "call_act a s = Some t \<Longrightarrow> phase_inv s \<Longrightarrow> phase_inv t"
  by (simp add: phase_inv_def call_act_threads)

lemma phase_inv_spawning:
  "phase_inv s \<Longrightarrow> p_super s \<noteq> SupNone \<Longrightarrow> ctor_spawning (p_ctor s) = 0"
  by (simp add: phase_inv_def)

lemma super_act_not_none: "super_act a s = Some t \<Longrightarrow> p_super s \<noteq> SupNone"
  by (cases a) (auto simp: super_defs split: if_splits super_pc.splits)

lemma super_act_ctor: "super_act a s = Some t \<Longrightarrow> p_ctor t = p_ctor s \<and> p_desired t = p_desired s"
  by (cases a)
    (auto simp: super_defs Let_def case_prod_unfold
      split: if_splits list.splits super_pc.splits nat.splits option.splits sum.splits)

lemma super_act_workers:
  "super_act a s = Some t \<Longrightarrow> p_workers_gauge s = usize_to_f64 (length (p_workers s)) \<Longrightarrow>
   length (p_workers s) + super_spawning (p_super s) \<le> p_desired s \<Longrightarrow>
   length (p_workers t) + super_spawning (p_super t) \<le> p_desired t
   \<and> p_workers_gauge t = usize_to_f64 (length (p_workers t))"
  using gauge_reap [of s] length_filter_le [of "\<lambda>w. pc_of s w \<noteq> Some WDone" "p_workers s"]
  by (cases a)
    (auto simp: super_defs Let_def case_prod_unfold saturating_sub_def
      simp del: length_filter_le intro: length_removeAll_le
      split: if_splits list.splits super_pc.splits nat.splits option.splits sum.splits)

lemma super_act_room_inv:
  "super_act a s = Some t \<Longrightarrow> phase_inv s \<Longrightarrow> room_inv s \<Longrightarrow> room_inv t"
  using super_act_workers [of a s t] super_act_ctor [of a s t] super_act_not_none [of a s t]
    phase_inv_spawning [of s]
  by (simp add: room_inv_def)

lemma super_act_phase_inv: "super_act a s = Some t \<Longrightarrow> phase_inv s \<Longrightarrow> phase_inv t"
  by (cases a)
    (auto simp: super_defs phase_inv_def Let_def case_prod_unfold
      split: if_splits list.splits super_pc.splits nat.splits option.splits sum.splits)

lemma life_act_room_inv:
  "life_act a s = Some t \<Longrightarrow> phase_inv s \<Longrightarrow> room_inv s \<Longrightarrow> room_inv t"
  by (cases a)
    (auto simp: life_defs drop_drain_def room_inv_def phase_inv_def Let_def case_prod_unfold
      intro: length_removeAll_le elim!: send_result_cases
      split: if_splits list.splits ctor_pc.splits nat.splits option.splits sum.splits)

lemma life_act_phase_inv: "life_act a s = Some t \<Longrightarrow> phase_inv s \<Longrightarrow> phase_inv t"
  by (cases a)
    (auto simp: life_defs drop_drain_def phase_inv_def Let_def case_prod_unfold
      elim!: send_result_cases
      split: if_splits list.splits ctor_pc.splits nat.splits option.splits sum.splits)

text \<open>Every thread that runs stays accounted for while the map and the program counters change.\<close>

lemma threads_invD:
  assumes "threads_inv s"
  shows "p_next_worker_id s \<le> w \<Longrightarrow> pc_of s w = None"
    and "distinct (p_workers s)"
    and "w \<in> set (p_workers s) \<Longrightarrow> pc_of s w \<noteq> None"
    and "inserting s w \<Longrightarrow> pc_of s w \<noteq> None"
    and "awaiting s w \<Longrightarrow> pc_of s w \<noteq> None"
    and "pc_of s w \<noteq> None \<Longrightarrow> pc_of s w \<noteq> Some WDone
          \<Longrightarrow> w \<in> set (p_workers s) \<or> inserting s w \<or> joining s w"
    and "inserting s w \<Longrightarrow> w \<notin> set (p_workers s)"
    and "ready_of s w = Some (Inl e) \<Longrightarrow> ended s w"
    and "pc_of s w \<noteq> None \<Longrightarrow> ready_of s w = None \<Longrightarrow> pc_of s w = Some WStarting"
    and "(w, r) \<in> set (p_exits s) \<Longrightarrow> pc_of s w = Some WDone"
    and "joining s w \<Longrightarrow> ended s w"
  using assms unfolding threads_inv_def by blast+

lemma threads_inv_frame:
  assumes inv: "threads_inv s" and pc: "pc_of t = pc_of s" "ready_of t = ready_of s"
    and same: "p_next_worker_id s \<le> p_next_worker_id t" "set (p_exits t) \<subseteq> set (p_exits s)"
    and w: "distinct (p_workers t)"
      "\<And>w. w \<in> set (p_workers t) \<Longrightarrow> w \<in> set (p_workers s) \<or> inserting s w"
    and at: "\<And>w. inserting t w \<Longrightarrow> inserting s w \<and> w \<notin> set (p_workers t)"
      "\<And>w. awaiting t w \<Longrightarrow> awaiting s w \<or> inserting s w"
      "\<And>w. joining t w \<Longrightarrow> ended s w"
      "\<And>w. w \<in> set (p_workers s) \<or> inserting s w \<or> joining s w \<Longrightarrow> pc_of s w \<noteq> Some WDone
           \<Longrightarrow> w \<in> set (p_workers t) \<or> inserting t w \<or> joining t w"
  shows "threads_inv t"
proof -
  note d = threads_invD [OF inv]
  have e: "ended t = ended s" by (simp add: ended_def pc fun_eq_iff)
  have n: "p_next_worker_id t \<le> w \<Longrightarrow> pc_of s w = None" for w
    using d(1) same(1) le_trans by blast
  have x: "w \<in> set (p_workers t) \<or> inserting t w \<or> awaiting t w \<Longrightarrow> pc_of s w \<noteq> None" for w
    using w(2) at(1,2) d(3-5) by metis
  have r: "(w, r) \<in> set (p_exits t) \<Longrightarrow> pc_of s w = Some WDone" for w r
    using same(2) d(10) by blast
  show ?thesis
    unfolding threads_inv_def pc e using n x r w(1) at(1,3,4) d(6,8,9)
    by (intro conjI; metis)
qed

lemma threads_inv_start:
  assumes inv: "threads_inv s"
    and pc: "pc_of t = (pc_of s)(p_next_worker_id s \<mapsto> WStarting)"
      "ready_of t = (ready_of s)(p_next_worker_id s := None)"
    and same: "p_next_worker_id t = Suc (p_next_worker_id s)" "p_exits t = p_exits s"
      "p_workers t = p_workers s"
    and here: "\<And>w. inserting t w \<longleftrightarrow> w = p_next_worker_id s" "\<And>w. \<not> awaiting t w" "\<And>w. \<not> joining t w"
      "\<And>w. \<not> inserting s w" "\<And>w. \<not> joining s w"
  shows "threads_inv t"
proof -
  note d = threads_invD [OF inv]
  have n: "pc_of s (p_next_worker_id s) = None" "p_next_worker_id s \<notin> set (p_workers s)"
    "(p_next_worker_id s, r) \<notin> set (p_exits s)" for r
    using d(1) [OF order_refl] d(3,10) by (blast, blast, fastforce)
  have e: "ended t w \<longleftrightarrow> ended s w" for w
    using n(1) by (auto simp: ended_def pc)
  have x: "pc_of s w \<noteq> None \<Longrightarrow> pc_of s w \<noteq> Some WDone \<Longrightarrow> w \<in> set (p_workers s)" for w
    using d(6) [of w] here by blast
  have y: "ready_of s w = None \<Longrightarrow> pc_of s w = Some p \<Longrightarrow> p = WStarting" for w p
    using d(9) [of w] by simp
  show ?thesis
    unfolding threads_inv_def same pc
    by (intro conjI allI impI)
      (use n d(1-3) in \<open>auto simp: here e intro: x y dest: d(8-10) split: if_splits\<close>)
qed

lemma threads_inv_same:
  assumes "threads_inv s" "pc_of t = pc_of s" "ready_of t = ready_of s"
    "p_next_worker_id t = p_next_worker_id s" "p_exits t = p_exits s" "p_workers t = p_workers s"
    "p_super t = p_super s" "p_ctor t = p_ctor s"
  shows "threads_inv t"
proof -
  have "inserting t = inserting s" "awaiting t = awaiting s" "joining t = joining s" "ended t = ended s"
    using assms by (auto simp: inserting_def awaiting_def joining_def ended_def fun_eq_iff)
  with assms show ?thesis by (simp add: threads_inv_def)
qed

lemma super_start_threads_inv:
  assumes "sup_restart now ok s = Some t" "threads_inv s" "p_ctor s = CtorCommitted"
  shows "threads_inv t"
proof -
  obtain r n where s: "p_super s = SupLoop r (Suc n)"
    using assms(1) by (auto simp: sup_restart_def split: super_pc.splits nat.splits)
  note at = inserting_def awaiting_def joining_def
  show ?thesis
  proof (cases "fst (allow_restart (p_guard s) now) \<and> ok")
    case True
    then show ?thesis using assms s
      by (intro threads_inv_start [OF assms(2)])
        (auto simp: sup_restart_def Let_def case_prod_unfold fun_eq_iff at)
  next
    case False
    then show ?thesis using assms s threads_invD(2) [OF assms(2)]
      by (intro threads_inv_frame [OF assms(2)])
        (auto simp: sup_restart_def Let_def case_prod_unfold fun_eq_iff at split: if_splits)
  qed
qed

lemma super_act_threads_inv:
  assumes "super_act a s = Some t" "threads_inv s" "phase_inv s"
  shows "threads_inv t"
proof -
  have c: "p_ctor s = CtorCommitted"
    using super_act_not_none [OF assms(1)] assms(3) by (simp add: phase_inv_def)
  note at = inserting_def awaiting_def joining_def and d = threads_invD [OF assms(2)]
  note frame = threads_inv_frame [OF assms(2)]
  show ?thesis
  proof (cases a)
    case SupEvent
    then obtain w r es where e: "p_exits s = (w, r) # es"
      using assms(1) by (auto simp: sup_event_def split: if_splits list.splits)
    then show ?thesis using SupEvent assms(1) c d(2) d(10) [of w r]
      by (intro frame)
        (auto simp: sup_event_def remove_worker_handle_def at distinct_removeAll split: if_splits)
  next
    case SupDoReconcile
    then show ?thesis using assms(1) c d(2)
      by (intro frame)
        (auto simp: sup_reconcile_def live_workers_def Let_def at split: if_splits super_pc.splits)
  next
    case SupInsert
    then show ?thesis using assms(1) c d(2) d(7)
      by (intro frame) (auto simp: sup_insert_def insert_worker_def at split: super_pc.splits)
  next
    case SupReady
    then show ?thesis using assms(1) c d(2) d(8)
      by (intro frame)
        (auto simp: sup_ready_def remove_worker_handle_def at distinct_removeAll
          split: if_splits super_pc.splits option.splits sum.splits)
  next
    case SupFailedJoined
    then show ?thesis using assms(1) c d(2)
      by (intro frame) (auto simp: sup_join_failed_def at split: if_splits super_pc.splits)
  next
    case (SupRestart now ok)
    then show ?thesis using super_start_threads_inv assms c by simp
  qed (use assms c d(2) in \<open>auto intro!: frame simp: super_defs at split: if_splits super_pc.splits\<close>)
qed

lemma life_act_threads_inv:
  assumes "life_act a s = Some t" "threads_inv s" "phase_inv s"
  shows "threads_inv t"
proof -
  note at = inserting_def awaiting_def joining_def and d = threads_invD [OF assms(2)]
  note frame = threads_inv_frame [OF assms(2)]
  have c: "p_ctor s \<noteq> CtorCommitted \<Longrightarrow> p_super s = SupNone" "p_drop s \<noteq> DropNone \<Longrightarrow>
    p_ctor s = CtorCommitted \<or> (\<exists>e. p_ctor s = CtorFailed e)"
    using assms(3) by (auto simp: phase_inv_def)
  show ?thesis
  proof (cases a)
    case (CtorDoSpawn os)
    then obtain n where n: "p_ctor s = CtorSpawn (Suc n)"
      using assms(1) by (auto simp: ctor_spawn_def split: ctor_pc.splits nat.splits)
    show ?thesis
    proof (cases os)
      case (Inr u)
      then show ?thesis using assms(1) CtorDoSpawn n c(1)
        by (intro threads_inv_start [OF assms(2)])
          (auto simp: ctor_spawn_def Let_def case_prod_unfold fun_eq_iff at)
    next
      case (Inl e)
      then show ?thesis using assms(1) CtorDoSpawn n d(2) c(1)
        by (intro frame) (auto simp: ctor_spawn_def ctor_fail_def at)
    qed
  next
    case CtorInsert
    then show ?thesis using assms(1) c(1) d(2) d(7)
      by (intro frame) (auto simp: ctor_insert_def insert_worker_def at split: ctor_pc.splits)
  next
    case CtorReady
    then show ?thesis using assms(1) c(1) d(2) d(8)
      by (intro frame)
        (auto simp: ctor_ready_def ctor_fail_def remove_worker_handle_def at distinct_removeAll
          split: if_splits ctor_pc.splits option.splits sum.splits)
  next
    case CtorFailedJoined
    then show ?thesis using assms(1) c(1) d(2)
      by (intro frame) (auto simp: ctor_join_failed_def ctor_fail_def at split: if_splits ctor_pc.splits)
  next
    case (CtorSupervisor os)
    then show ?thesis using assms(1) c(1) d(2)
      by (intro frame)
        (auto simp: ctor_supervisor_def ctor_fail_def at split: ctor_pc.splits nat.splits sum.splits)
  next
    case DropWorkersJoined
    then show ?thesis using assms(1) c d(2,11)
      by (intro frame) (auto simp: drop_join_workers_def list_all_iff at split: if_splits)
  next
    case DropDrainOne
    then show ?thesis using assms(1)
      by (intro threads_inv_same [OF assms(2)])
        (auto simp: drop_drain_def elim!: send_result_cases split: if_splits list.splits)
  qed (use assms(1) in \<open>auto intro!: threads_inv_same [OF assms(2)] simp: life_defs split: if_splits\<close>)
qed

section \<open>The busy counter\<close>

fun is_busy :: "worker_pc option \<Rightarrow> bool" where
  "is_busy (Some (WRun c)) = True"
| "is_busy (Some (WTail c)) = True"
| "is_busy (Some (WPanicked c)) = True"
| "is_busy (Some (WFinishing c b)) = True"
| "is_busy _ = False"

definition busy_threads :: "'v pool \<Rightarrow> worker_id set" where
  "busy_threads s = {w. is_busy (pc_of s w)}"

definition busy_inv :: "'v pool \<Rightarrow> bool" where
  "busy_inv s \<longleftrightarrow> p_busy s = card (busy_threads s)"

lemma busy_threads_tracked:
  assumes "threads_inv s"
  shows "is_busy (pc_of s w) \<or> (\<exists>c. pc_of s w = Some (WGot c))
    \<Longrightarrow> w \<in> set (p_workers s) \<or> inserting s w"
  using threads_invD(6,11) [OF assms, of w]
  by (cases "pc_of s w" rule: is_busy.cases) (auto simp: ended_def)

lemma finite_busy_threads: "threads_inv s \<Longrightarrow> finite (busy_threads s)"
  using threads_invD(1) [of s]
  by (intro finite_subset [of "busy_threads s" "{..<p_next_worker_id s}"])
    (auto simp: busy_threads_def not_le [symmetric])

lemma room_for_inserting:
  assumes "room_inv s" "phase_inv s" "threads_inv s"
  shows "card (set (p_workers s) \<union> {w. inserting s w}) \<le> p_desired s"
proof -
  have "card (set (p_workers s) \<union> {w. inserting s w})
      \<le> card (set (p_workers s)) + card {w. inserting s w}" by (rule card_Un_le)
  also have "card (set (p_workers s)) = length (p_workers s)"
    using threads_invD(2) [OF assms(3)] by (rule distinct_card)
  also have "card {w. inserting s w} \<le> super_spawning (p_super s) + ctor_spawning (p_ctor s)"
    using assms(2) by (cases "p_super s"; cases "p_ctor s") (auto simp: inserting_def phase_inv_def)
  finally show ?thesis using assms(1) by (simp add: room_inv_def)
qed

lemma busy_below_desired:
  assumes "room_inv s" "phase_inv s" "threads_inv s" "pc_of s w = Some (WGot c)"
  shows "card (busy_threads s) < p_desired s"
proof -
  have "insert w (busy_threads s) \<subseteq> set (p_workers s) \<union> {w. inserting s w}"
    using busy_threads_tracked [OF assms(3)] assms(4) by (auto simp: busy_threads_def)
  moreover have "finite {w. inserting s w}"
    by (cases "p_super s"; cases "p_ctor s") (simp_all add: inserting_def)
  ultimately have "card (insert w (busy_threads s)) \<le> p_desired s"
    using room_for_inserting [OF assms(1-3)] card_mono by (meson List.finite_set finite_UnI le_trans)
  moreover have "w \<notin> busy_threads s" using assms(4) by (simp add: busy_threads_def)
  ultimately show ?thesis using finite_busy_threads [OF assms(3)] by simp
qed

lemma busy_threads_move:
  "pc_of s w = Some pc \<Longrightarrow> busy_threads (set_pc w pc' s) =
     (if is_busy (Some pc') then insert w (busy_threads s) else busy_threads s - {w})"
  by (auto simp: busy_threads_def)

lemma busy_threads_cong: "pc_of t = pc_of s \<Longrightarrow> busy_threads t = busy_threads s"
  by (simp add: busy_threads_def)

lemma busy_inv_cong:
  "busy_inv s \<Longrightarrow> p_busy t = p_busy s \<Longrightarrow> busy_threads t = busy_threads s \<Longrightarrow> busy_inv t"
  by (simp add: busy_inv_def)

lemma worker_act_busy_inv:
  assumes "worker_act a s = Some t" "busy_inv s" "threads_inv s" "room_inv s" "phase_inv s"
    and "p_desired s \<le> usize_max"
  shows "busy_inv t"
proof -
  note f = finite_busy_threads [OF assms(3)] and below = busy_below_desired [OF assms(4,5,3)]
  have *: "busy_threads (set_pc w pc' u) =
      (if is_busy (Some pc') then insert w (busy_threads s) else busy_threads s - {w})"
    if "pc_of u = pc_of s" "pc_of s w = Some pc" for w pc pc' and u :: "'a pool"
    using busy_threads_move [of u w pc pc'] that by (simp add: busy_threads_cong [of u s])
  have b: "w \<in> busy_threads s \<longleftrightarrow> is_busy (pc_of s w)" for w by (simp add: busy_threads_def)
  have i: "insert w (busy_threads s) = busy_threads s" if "is_busy (pc_of s w)" for w
    using that b by auto
  have start: "p_threads s w = Some x \<Longrightarrow> w_pc x = WGot c
      \<Longrightarrow> fst (busy_start (card (busy_threads s))) = Suc (card (busy_threads s))" for w x c
    using below [of w c] assms(6) by (intro busy_start_below_max) (simp add: pc_of_def)
  show ?thesis
    using assms(1,2) f
    by (cases a)
      (auto simp: worker_defs busy_inv_def * b i send_result_pc pc_of_def [of s] busy_drop_def
        saturating_sub_def card_Diff_singleton intro: start
        elim!: send_result_cases split: if_splits option.splits list.splits worker_pc.splits)
qed

lemma super_act_busy_inv:
  assumes "super_act a s = Some t" "busy_inv s" "pc_of s (p_next_worker_id s) = None"
  shows "busy_inv t"
proof (rule busy_inv_cong [OF assms(2)])
  show "busy_threads t = busy_threads s"
    using assms(1,3)
    by (cases a)
      (auto simp: super_defs busy_threads_def Let_def case_prod_unfold
        split: if_splits list.splits super_pc.splits nat.splits option.splits sum.splits)
  show "p_busy t = p_busy s"
    using assms(1)
    by (cases a)
      (auto simp: super_defs Let_def case_prod_unfold
        split: if_splits list.splits super_pc.splits nat.splits option.splits sum.splits)
qed

lemma life_act_busy_inv:
  assumes "life_act a s = Some t" "busy_inv s" "pc_of s (p_next_worker_id s) = None"
  shows "busy_inv t"
proof (rule busy_inv_cong [OF assms(2)])
  show "busy_threads t = busy_threads s"
    using assms(1,3)
    by (cases a)
      (auto simp: life_defs drop_drain_def busy_threads_def Let_def case_prod_unfold
        elim!: send_result_cases
        split: if_splits list.splits ctor_pc.splits nat.splits option.splits sum.splits)
  show "p_busy t = p_busy s"
    using assms(1)
    by (cases a)
      (auto simp: life_defs drop_drain_def Let_def case_prod_unfold elim!: send_result_cases
        split: if_splits list.splits ctor_pc.splits nat.splits option.splits sum.splits)
qed

section \<open>Who holds the pool\<close>

definition borrow_inv :: "'v pool \<Rightarrow> bool" where
  "borrow_inv s \<longleftrightarrow>
     (\<forall>c. c \<in> set (p_borrows s) \<longleftrightarrow> cl_pc (p_calls s c) \<in> {CCheckLive, CSending, CAwaiting})"

definition idle_inv :: "'v pool \<Rightarrow> bool" where
  "idle_inv s \<longleftrightarrow>
     (p_drop s \<noteq> DropNone \<longrightarrow> p_borrows s = [])
     \<and> (p_ctor s \<noteq> CtorCommitted \<longrightarrow> (\<forall>c. cl_pc (p_calls s c) = CNew) \<and> p_borrows s = [])"

lemma borrow_inv_finish: "borrow_inv s \<Longrightarrow> borrow_inv (finish_call c r b s)"
  by (simp add: borrow_inv_def finish_call_def Let_def)

lemma borrow_inv_advance:
  "borrow_inv s \<Longrightarrow> c \<in> set (p_borrows s) \<Longrightarrow> cl_pc k \<in> {CCheckLive, CSending, CAwaiting}
   \<Longrightarrow> borrow_inv (set_call c k s)"
  by (simp add: borrow_inv_def)

lemma borrow_inv_send: "borrow_inv s \<Longrightarrow> send_result c r s = Some t \<Longrightarrow> borrow_inv t"
  by (auto simp: borrow_inv_def elim!: send_result_cases split: if_splits)

lemma borrow_inv_cong:
  "borrow_inv s \<Longrightarrow> p_borrows t = p_borrows s \<Longrightarrow> p_calls t = p_calls s \<Longrightarrow> borrow_inv t"
  by (simp add: borrow_inv_def)

lemma borrow_inv_sel [simp]:
  "borrow_inv (reap_finished_workers s) = borrow_inv s"
  "borrow_inv (set_pc w pc s) = borrow_inv s" "borrow_inv (set_ready w r s) = borrow_inv s"
  "borrow_inv (s\<lparr>p_queue := q\<rparr>) = borrow_inv s" "borrow_inv (s\<lparr>p_busy := n\<rparr>) = borrow_inv s"
  "borrow_inv (s\<lparr>p_started := cs\<rparr>) = borrow_inv s" "borrow_inv (s\<lparr>p_exits := es\<rparr>) = borrow_inv s"
  by (simp_all add: borrow_inv_def)

lemma borrow_invD:
  "borrow_inv s \<Longrightarrow> cl_pc (p_calls s c) \<in> {CCheckLive, CSending} \<Longrightarrow> c \<in> set (p_borrows s)"
  by (auto simp: borrow_inv_def)

lemma call_start_borrow_inv: "call_start c s = Some t \<Longrightarrow> borrow_inv s \<Longrightarrow> borrow_inv t"
  by (auto simp: call_start_def finish_call_def borrow_inv_def Let_def split: if_splits)

lemma call_act_borrow_inv: "call_act a s = Some t \<Longrightarrow> borrow_inv s \<Longrightarrow> borrow_inv t"
  using borrow_invD [of s]
  by (cases a)
    (auto simp: call_check_live_def call_enqueue_def call_give_up_def call_receive_def
      call_timeout_def call_disconnected_def live_workers_def Let_def
      intro!: borrow_inv_finish borrow_inv_advance intro: call_start_borrow_inv borrow_inv_send
      split: if_splits option.splits)

lemma worker_act_borrow_inv: "worker_act a s = Some t \<Longrightarrow> borrow_inv s \<Longrightarrow> borrow_inv t"
  by (cases a)
    (auto simp: worker_defs intro: borrow_inv_send
      split: if_splits option.splits list.splits worker_pc.splits)

lemma super_act_calls:
  "super_act a s = Some t \<Longrightarrow> p_borrows t = p_borrows s \<and> p_calls t = p_calls s \<and> p_drop t = p_drop s"
  by (cases a)
    (auto simp: super_defs Let_def case_prod_unfold
      split: if_splits list.splits super_pc.splits nat.splits option.splits sum.splits)

lemma life_act_calls:
  "life_act a s = Some t \<Longrightarrow> p_borrows t = p_borrows s
   \<and> (\<forall>c. cl_pc (p_calls t c) = cl_pc (p_calls s c) \<and> cl_result (p_calls t c) = cl_result (p_calls s c))"
  by (cases a)
    (auto simp: life_defs drop_drain_def Let_def case_prod_unfold elim!: send_result_cases
      split: if_splits list.splits ctor_pc.splits nat.splits option.splits sum.splits)

lemma life_act_borrow_inv: "life_act a s = Some t \<Longrightarrow> borrow_inv s \<Longrightarrow> borrow_inv t"
  using life_act_calls [of a s t] by (simp add: borrow_inv_def)

lemma life_act_idle_inv: "life_act a s = Some t \<Longrightarrow> idle_inv s \<Longrightarrow> idle_inv t"
  using life_act_calls [of a s t]
  by (cases a)
    (auto simp: life_defs drop_drain_def idle_inv_def Let_def case_prod_unfold
      elim!: send_result_cases
      split: if_splits list.splits ctor_pc.splits nat.splits option.splits sum.splits)

lemma call_act_pc:
  "call_act a s = Some t \<Longrightarrow>
     cl_pc (p_calls s (caller_of a)) \<in> {CCheckLive, CSending, CAwaiting}
     \<or> p_ctor s = CtorCommitted \<and> p_drop s = DropNone"
  by (cases a)
    (auto simp: call_start_def call_check_live_def call_enqueue_def call_give_up_def
      call_receive_def call_timeout_def call_disconnected_def split: if_splits)

lemma call_act_idle_inv:
  assumes "call_act a s = Some t" "idle_inv s" "borrow_inv s"
  shows "idle_inv t"
proof -
  have "p_ctor s = CtorCommitted \<and> p_drop s = DropNone"
    using call_act_pc [OF assms(1)] assms(2,3) unfolding idle_inv_def borrow_inv_def
    by (metis call_pc.distinct(1,3,5) emptyE insertE list.set(1))
  then show ?thesis using call_act_threads [OF assms(1)] by (simp add: idle_inv_def)
qed

lemma worker_act_calls:
  "worker_act a s = Some t \<Longrightarrow> p_borrows t = p_borrows s \<and> p_drop t = p_drop s \<and> p_ctor t = p_ctor s
   \<and> (\<forall>c. cl_pc (p_calls t c) = cl_pc (p_calls s c) \<and> cl_result (p_calls t c) = cl_result (p_calls s c))"
  by (cases a)
    (auto simp: worker_defs elim!: send_result_cases
      split: if_splits option.splits list.splits worker_pc.splits)

section \<open>Every reachable state\<close>

definition pool_inv :: "'c MechanicsPoolConfig \<Rightarrow> 'v pool \<Rightarrow> bool" where
  "pool_inv cfg s \<longleftrightarrow>
     jobs_inv s \<and> reply_inv s \<and> threads_inv s \<and> room_inv s \<and> phase_inv s \<and> busy_inv s
     \<and> borrow_inv s \<and> idle_inv s \<and> p_desired s = pc_worker_count cfg
     \<and> p_capacity s = pc_queue_capacity cfg \<and> pc_worker_count cfg \<le> usize_max"

lemma pool_new_eq: "pool_new clock_max now client cfg = Inr s \<Longrightarrow> s = shared_new cfg"
  by (auto simp: pool_new_def bind_ok_def split: sum.splits)

lemma pool_inv_init: "pc_worker_count cfg \<le> usize_max \<Longrightarrow> pool_inv cfg (shared_new cfg)"
  by (simp add: pool_inv_def shared_new_def jobs_inv_def reply_inv_def threads_inv_def room_inv_def
      phase_inv_def busy_inv_def borrow_inv_def idle_inv_def owed_def panicking_def holds_def
      inserting_def awaiting_def joining_def busy_threads_def pc_of_def ready_of_def new_call_def
      usize_to_f64_def u32_try_from_def)

lemma act_capacity: "act a s = Some t \<Longrightarrow> p_capacity t = p_capacity s"
proof (cases a)
  case (Caller b)
  then show "act a s = Some t \<Longrightarrow> ?thesis"
    using call_act_effect [of b s t] by (simp add: call_effect_def)
next
  case (Worker b)
  then show "act a s = Some t \<Longrightarrow> ?thesis"
    by (cases b)
      (auto simp: worker_defs elim!: send_result_cases
        split: if_splits option.splits list.splits worker_pc.splits)
next
  case (Supervisor b)
  then show "act a s = Some t \<Longrightarrow> ?thesis"
    by (cases b)
      (auto simp: super_defs Let_def case_prod_unfold
        split: if_splits list.splits super_pc.splits nat.splits option.splits sum.splits)
next
  case (Owner b)
  then show "act a s = Some t \<Longrightarrow> ?thesis"
    by (cases b)
      (auto simp: life_defs drop_drain_def Let_def case_prod_unfold elim!: send_result_cases
        split: if_splits list.splits ctor_pc.splits nat.splits option.splits sum.splits)
qed

lemma life_act_desired: "life_act a s = Some t \<Longrightarrow> p_desired t = p_desired s"
  by (cases a)
    (auto simp: life_defs drop_drain_def Let_def case_prod_unfold elim!: send_result_cases
      split: if_splits list.splits ctor_pc.splits nat.splits option.splits sum.splits)

lemma pool_inv_step:
  assumes "pool_inv cfg s" "act a s = Some t"
  shows "pool_inv cfg t"
proof -
  have i: "jobs_inv s" "reply_inv s" "threads_inv s" "room_inv s" "phase_inv s" "busy_inv s"
    "borrow_inv s" "idle_inv s" "p_desired s \<le> usize_max" "pc_of s (p_next_worker_id s) = None"
    using assms(1) threads_invD(1) [of s] by (auto simp: pool_inv_def)
  have "jobs_inv t \<and> reply_inv t \<and> threads_inv t \<and> room_inv t \<and> phase_inv t \<and> busy_inv t
     \<and> borrow_inv t \<and> idle_inv t \<and> p_desired t = p_desired s"
  proof (cases a)
    case (Caller b)
    then have t: "call_act b s = Some t" using assms(2) by simp
    note e = call_act_effect [OF t] and f = call_act_threads [OF t]
    show ?thesis
      using call_effect_jobs_inv [OF e i(1)] call_effect_reply_inv [OF e i(2)]
        call_act_threads_inv [OF t i(3)] call_act_room_inv [OF t i(4)]
        call_act_phase_inv [OF t i(5)]
        busy_inv_cong [OF i(6) f(7) busy_threads_cong [OF pc_of_cong [OF f(1)]]]
        call_act_borrow_inv [OF t i(7)] call_act_idle_inv [OF t i(8,7)] f(6)
      by (intro conjI)
  next
    case (Worker b)
    then have t: "worker_act b s = Some t" using assms(2) by simp
    note e = worker_act_effect [OF t]
    show ?thesis
      using worker_act_jobs_inv [OF i(1) t] worker_act_reply_inv [OF i(1,2) t]
        worker_effect_threads_inv [OF e i(3)] worker_effect_room_inv(1) [OF e i(4)]
        worker_effect_room_inv(2) [OF e i(5)] worker_act_busy_inv [OF t i(6,3,4,5,9)]
        worker_act_borrow_inv [OF t i(7)] worker_act_calls [OF t] i(8)
        e [unfolded worker_effect_def]
      by (simp add: idle_inv_def)
  next
    case (Supervisor b)
    then have t: "super_act b s = Some t" using assms(2) by simp
    note e = super_act_same_jobs [OF i(10) t]
    show ?thesis
      using same_jobs_jobs_inv [OF e i(1)] same_jobs_reply_inv [OF e i(2)]
        super_act_threads_inv [OF t i(3,5)] super_act_room_inv [OF t i(5,4)]
        super_act_phase_inv [OF t i(5)] super_act_busy_inv [OF t i(6,10)] super_act_calls [OF t]
        super_act_ctor [OF t] i(7,8)
      by (simp add: idle_inv_def borrow_inv_def)
  next
    case (Owner b)
    then have t: "life_act b s = Some t" using assms(2) by simp
    have j: "jobs_inv t \<and> reply_inv t"
    proof (cases "b = DropDrainOne")
      case True
      then show ?thesis using t drain_jobs_inv [OF i(1)] drain_reply_inv [OF i(1,2)] by simp
    next
      case False
      note e = life_act_same_jobs [OF i(10) False t]
      show ?thesis using same_jobs_jobs_inv [OF e i(1)] same_jobs_reply_inv [OF e i(2)] by simp
    qed
    show ?thesis
      using j life_act_threads_inv [OF t i(3,5)] life_act_room_inv [OF t i(5,4)]
        life_act_phase_inv [OF t i(5)] life_act_busy_inv [OF t i(6,10)]
        life_act_borrow_inv [OF t i(7)] life_act_idle_inv [OF t i(8)] life_act_desired [OF t]
      by simp
  qed
  then show ?thesis using assms act_capacity [OF assms(2)] by (simp add: pool_inv_def)
qed

lemma reachable_inv: "reachable cfg s \<Longrightarrow> pool_inv cfg s"
  by (induction rule: reachable.induct)
    (auto simp: pool_inv_init dest: pool_new_eq elim!: pool_stepE intro: pool_inv_step)

end
