(* ===== verification/Pool_Properties.thy ===== *)
theory Pool_Properties
  imports Pool_Invariant
begin

text \<open>
  What the invariants of the worker pool give its callers: a job runs at most once and is never
  lost, the bounds of the configuration hold, a success comes from an execution, and each step of
  the pool is a step of an abstract service of calls.
\<close>

section \<open>Values come from executions\<close>

definition value_inv :: "'v pool \<Rightarrow> bool" where
  "value_inv s \<longleftrightarrow>
     (\<forall>c v. cl_reply (p_calls s c) = Some (Inr v) \<or> cl_result (p_calls s c) = Some (Inr v)
        \<longrightarrow> c \<in> set (p_started s))"

lemma value_inv_cong:
  "value_inv s \<Longrightarrow> p_calls t = p_calls s \<Longrightarrow> set (p_started s) \<subseteq> set (p_started t) \<Longrightarrow> value_inv t"
  by (auto simp: value_inv_def)

lemma value_inv_sel [simp]:
  "value_inv (set_pc w pc s) = value_inv s" "value_inv (set_ready w r s) = value_inv s"
  "value_inv (reap_finished_workers s) = value_inv s"
  "value_inv (s\<lparr>p_queue := q\<rparr>) = value_inv s" "value_inv (s\<lparr>p_busy := n\<rparr>) = value_inv s"
  "value_inv (s\<lparr>p_exits := es\<rparr>) = value_inv s" "value_inv (s\<lparr>p_borrows := cs\<rparr>) = value_inv s"
  by (simp_all add: value_inv_def)

lemma value_inv_finish:
  "value_inv s \<Longrightarrow> (\<And>v. r = Inr v \<Longrightarrow> c \<in> set (p_started s)) \<Longrightarrow> value_inv (finish_call c r b s)"
  by (auto simp: value_inv_def finish_call_def Let_def)

lemma value_inv_set_pc:
  "value_inv s \<Longrightarrow> value_inv (set_call c ((p_calls s c)\<lparr>cl_pc := pc\<rparr>) s)"
  by (auto simp: value_inv_def)

lemma value_inv_send:
  "value_inv s \<Longrightarrow> send_result c r s = Some t \<Longrightarrow> (\<And>v. r = Inr v \<Longrightarrow> c \<in> set (p_started s))
   \<Longrightarrow> value_inv t"
  by (auto simp: value_inv_def elim!: send_result_cases split: if_splits)

lemma value_inv_send_error: "send_result c (Inl e) s = Some t \<Longrightarrow> value_inv s \<Longrightarrow> value_inv t"
  using value_inv_send [of s c "Inl e" t] by simp

lemma value_inv_started: "value_inv s \<Longrightarrow> value_inv (s\<lparr>p_busy := n, p_started := p_started s @ [c]\<rparr>)"
  by (auto simp: value_inv_def)

lemma call_act_value_inv:
  assumes "value_inv s" "call_act a s = Some t"
  shows "value_inv t"
proof -
  have "c \<in> set (p_started s)" if "cl_reply (p_calls s c) = Some (Inr v)" for c v
    using assms(1) that by (auto simp: value_inv_def)
  then show ?thesis
    using assms
    by (cases a)
      (auto simp: call_start_def call_check_live_def call_enqueue_def call_give_up_def
        call_receive_def call_timeout_def call_disconnected_def live_workers_def Let_def
        intro!: value_inv_finish value_inv_set_pc [of "reap_finished_workers s", simplified]
          value_inv_set_pc [of "s\<lparr>p_queue := q\<rparr>" for q, simplified]
          value_inv_set_pc [of "s\<lparr>p_borrows := q\<rparr>" for q, simplified]
        intro: value_inv_send split: if_splits option.splits)
qed

lemma running_started:
  assumes "jobs_inv s" "pc_of s w = Some (WRun c)"
  shows "c \<in> set (p_started s)"
proof -
  have "holds s w c" using assms(2) by (simp add: holds_pc)
  then have "c \<in> set (p_started s) \<longleftrightarrow> pc_of s w \<noteq> Some (WGot c)"
    using assms(1) unfolding jobs_inv_def by blast
  with assms(2) show ?thesis by simp
qed

lemma worker_act_value_inv:
  "value_inv s \<Longrightarrow> jobs_inv s \<Longrightarrow> worker_act a s = Some t \<Longrightarrow> value_inv t"
  by (cases a)
    (auto simp: worker_defs
      dest!: value_inv_send [OF _ _ running_started, rotated] value_inv_send_error
      intro: value_inv_started
      split: if_splits option.splits list.splits worker_pc.splits)

lemma life_act_value_inv: "value_inv s \<Longrightarrow> life_act a s = Some t \<Longrightarrow> value_inv t"
proof (cases "a = DropDrainOne")
  case True
  then show "value_inv s \<Longrightarrow> life_act a s = Some t \<Longrightarrow> ?thesis"
    using value_inv_cong [of s "s\<lparr>p_drop := DropRequest\<rparr>"]
    by (auto simp: drop_drain_def dest!: value_inv_send_error split: if_splits list.splits)
next
  case False
  then show "value_inv s \<Longrightarrow> life_act a s = Some t \<Longrightarrow> ?thesis"
    by (cases a; elim value_inv_cong)
      (auto simp: life_defs Let_def case_prod_unfold
        split: if_splits ctor_pc.splits nat.splits option.splits sum.splits)
qed

lemma super_act_started: "super_act a s = Some t \<Longrightarrow> p_started t = p_started s"
  by (cases a)
    (auto simp: super_defs Let_def case_prod_unfold
      split: if_splits list.splits super_pc.splits nat.splits option.splits sum.splits)

lemma reachable_value_inv: "reachable cfg s \<Longrightarrow> value_inv s"
proof (induction rule: reachable.induct)
  case (init clock_max now client s)
  then show ?case by (auto dest!: pool_new_eq simp: value_inv_def shared_new_def new_call_def)
next
  case (next_step s t)
  then obtain a where "act a s = Some t" by (auto elim: pool_stepE)
  moreover have "jobs_inv s" using reachable_inv [OF next_step.hyps(1)] by (simp add: pool_inv_def)
  ultimately show ?case
    using next_step.IH call_act_value_inv [of s _ t] worker_act_value_inv [of s _ t]
      life_act_value_inv [of s _ t] value_inv_cong [of s t] super_act_calls [of _ s t]
      super_act_started [of _ s t]
    by (cases a) simp_all
qed

section \<open>A run of a small pool\<close>

text \<open>One worker and a queue of one; the worker has taken the job of call 7 and runs it.\<close>

definition small_config :: "unit MechanicsPoolConfig" where
  "small_config =
     \<lparr>pc_worker_count = 1, pc_queue_capacity = 1, pc_enqueue_timeout = 5, pc_run_timeout = 30,
      pc_execution_limits = \<lparr>el_max_execution_time = 10, el_max_loop_iterations = 10,
        el_max_recursion_depth = 10, el_max_stack_size = 10\<rparr>,
      pc_default_http_timeout_ms = None, pc_default_http_response_max_bytes = None,
      pc_restart_window = 10, pc_max_restarts_in_window = 2, pc_endpoint_http_client = None\<rparr>"

definition start_up :: "nat action list" where
  "start_up = [Owner (CtorDoSpawn (Inr ())), Owner CtorInsert, Worker (WorkerStarted 0),
     Owner CtorReady, Owner (CtorSupervisor (Inr ()))]"

definition job_running :: "nat action list" where
  "job_running = start_up @ [Caller (CallStart 7), Caller (CallEnqueue 7),
     Worker (WorkerReceive 0), Worker (WorkerDispatch 0)]"

definition small_pool :: "nat action list \<Rightarrow> nat pool option" where
  "small_pool as = run_actions as (shared_new small_config)"

lemma small_pool_reachable:
  assumes "small_pool as = Some s"
  shows "reachable small_config s"
proof -
  have "config_validate 100 0 small_config = Inr ()"
    by (simp add: config_validate_iff config_wf_def small_config_def limits_wf_def)
  then have "pool_new 100 0 (Inr ()) small_config =
      (Inr (shared_new small_config) :: (MechanicsError, nat pool) result)"
    by (simp add: pool_new_def small_config_def result_simps)
  moreover have "pc_worker_count small_config \<le> usize_max"
    by (simp add: small_config_def usize_max_def)
  ultimately have "reachable small_config (shared_new small_config :: nat pool)"
    by (rule reachable.init)
  with assms show ?thesis unfolding small_pool_def by (blast intro: run_actions_reachable)
qed

lemmas pool_eval = small_pool_def start_up_def job_running_def shared_new_def small_config_def
  call_defs worker_defs super_defs life_defs drop_drain_def request_shutdown_def set_call_def set_pc_def
  set_ready_def set_workers_def send_result_def reap_finished_workers_def start_thread_def new_call_def
  new_thread_def pc_of_def ready_of_def is_finished_def usize_to_f64_def u32_try_from_def u32_max_def
  busy_start_def busy_drop_def checked_add_usize_def usize_max_def saturating_sub_def guard_new_def
  allow_restart_def Let_def

lemma small_poolE:
  assumes "case small_pool as of None \<Rightarrow> False | Some s \<Rightarrow> P s"
  obtains s where "small_pool as = Some s" "P s" "reachable small_config s"
  using assms small_pool_reachable by (auto split: option.splits)

section \<open>Properties\<close>

text \<open>
  Property C1: in every reachable state of the pool, whatever the interleaving of callers, workers,
  supervisor and owner, no job has been handed to a runtime twice, a queued job has not been handed
  to one, and no two workers hold the same job.
\<close>

theorem job_runs_at_most_once:
  assumes "reachable cfg s"
  shows "distinct (p_started s) \<and> set (p_queue s) \<inter> set (p_started s) = {}
    \<and> (holds s w c \<longrightarrow> holds s w' c \<longrightarrow> w = w')"
proof -
  have "jobs_inv s" using reachable_inv [OF assms] by (simp add: pool_inv_def)
  then show ?thesis unfolding jobs_inv_def by blast
qed

text \<open>
  Property C2: no job is lost. A caller that waits without a reply always has its job in the queue
  or in the hands of a worker, so the branch that reports a dropped reply channel is never taken.
\<close>

theorem reply_sender_never_lost:
  assumes "reachable cfg s"
  shows "call_disconnected c s = None"
proof -
  have inv: "reply_inv s" "threads_inv s" using reachable_inv [OF assms] by (simp_all add: pool_inv_def)
  have "sender_alive s c" if "cl_pc (p_calls s c) = CAwaiting" "cl_reply (p_calls s c) = None"
  proof -
    have "owed s c \<or> panicking s c" using inv(1) that by (simp add: reply_inv_def)
    moreover have "sender_alive s c" if "pc_of s w = Some pc" "job_of pc = Some c" for w pc
      using threads_invD(1) [OF inv(2), of w] that
      by (cases "w < p_next_worker_id s") (auto simp: sender_alive_def holds_def intro: bexI [of _ w])
    moreover have "c \<in> set (p_queue s) \<Longrightarrow> sender_alive s c" by (simp add: sender_alive_def)
    ultimately show ?thesis by (auto simp: owed_def panicking_def)
  qed
  then show ?thesis by (auto simp: call_disconnected_def)
qed

text \<open>
  The first answer to a job is never blocked by its reply channel: a worker that has
  just received a job, or is running it and has not replied, can always send.
\<close>

theorem first_reply_never_blocks:
  assumes "reachable cfg s" and "pc_of s w \<in> {Some (WGot c), Some (WRun c)}"
  shows "\<exists>t. send_result c r s = Some t"
proof -
  have "reply_inv s" using reachable_inv [OF assms(1)] by (simp add: pool_inv_def)
  moreover have "owed s c" using assms(2) unfolding owed_def by blast
  moreover have "cl_pc (p_calls s c) = CAwaiting" if "cl_rx (p_calls s c)"
  proof -
    have "submitted s c"
      using reachable_inv [OF assms(1)] assms(2)
      unfolding pool_inv_def jobs_inv_def by (metis holds_def bind.simps(2) insertE job_of.simps(1,2) singletonD)
    with that \<open>reply_inv s\<close> show ?thesis by (auto simp: reply_inv_def)
  qed
  ultimately show ?thesis by (auto simp: send_result_def Let_def reply_inv_def)
qed

text \<open>
  Property C8: the bounds of the configuration hold in every reachable state. The queue never holds
  more jobs than its capacity, the worker map never more handles than the configured count, and the
  busy counter is exactly the number of threads that run a job, at most the configured count.
\<close>

theorem pool_bounds:
  assumes "reachable cfg s"
  shows "length (p_queue s) \<le> pc_queue_capacity cfg \<and> length (p_workers s) \<le> pc_worker_count cfg
    \<and> p_busy s = card (busy_threads s) \<and> p_busy s \<le> pc_worker_count cfg"
proof -
  have inv: "room_inv s" "phase_inv s" "threads_inv s" "pool_inv cfg s"
    using reachable_inv [OF assms] by (simp_all add: pool_inv_def)
  have sub: "busy_threads s \<subseteq> set (p_workers s) \<union> {w. inserting s w}"
    using busy_threads_tracked [OF inv(3)] by (auto simp: busy_threads_def)
  have "finite (set (p_workers s) \<union> {w. inserting s w})"
    by (cases "p_super s"; cases "p_ctor s") (simp_all add: inserting_def)
  from card_mono [OF this sub] room_for_inserting [OF inv(1-3)]
  have "card (busy_threads s) \<le> p_desired s" by linarith
  with inv(4) show ?thesis by (simp add: pool_inv_def room_inv_def busy_inv_def jobs_inv_def)
qed

text \<open>
  A call succeeds only if its job was executed: a value in the reply channel or in the
  result of a call implies that the job was handed to a runtime.
\<close>

theorem success_implies_execution:
  assumes "reachable cfg s" and "cl_result (p_calls s c) = Some (Inr v)"
  shows "c \<in> set (p_started s)"
  using reachable_value_inv [OF assms(1)] assms(2) by (auto simp: value_inv_def)

lemma send_result_keeps:
  "send_result c r s = Some t \<Longrightarrow>
     p_started t = p_started s \<and> cl_canceled (p_calls t d) = cl_canceled (p_calls s d)"
  by (auto elim!: send_result_cases split: if_splits)

lemma canceled_step:
  assumes "act a s = Some t" "cl_canceled (p_calls s c)" "c \<notin> set (p_started s)"
  shows "cl_canceled (p_calls t c) \<and> c \<notin> set (p_started t)"
proof (cases a)
  case (Caller b)
  then show ?thesis
    using assms
    by (cases b)
      (auto simp: call_start_def call_check_live_def call_enqueue_def call_give_up_def
        call_receive_def call_timeout_def call_disconnected_def live_workers_def finish_call_def
        Let_def dest!: send_result_keeps split: if_splits option.splits)
next
  case (Worker b)
  then show ?thesis
    using assms
    by (cases b)
      (auto simp: worker_defs dest!: send_result_keeps
        split: if_splits option.splits list.splits worker_pc.splits)
next
  case (Supervisor b)
  then show ?thesis
    using assms super_act_calls [of b s t] super_act_started [of b s t] by simp
next
  case (Owner b)
  then show ?thesis
    using assms
    by (cases b)
      (auto simp: life_defs drop_drain_def Let_def case_prod_unfold dest!: send_result_keeps
        split: if_splits list.splits ctor_pc.splits nat.splits option.splits sum.splits)
qed

text \<open>
  Property C9: cancellation is effective until a worker starts the job. Once the call of a job that
  was not started is marked canceled (its run timeout elapsed), no continuation starts the job.
\<close>

theorem canceled_job_never_starts:
  assumes "pool_step\<^sup>*\<^sup>* s t" and "cl_canceled (p_calls s c)" and "c \<notin> set (p_started s)"
  shows "c \<notin> set (p_started t)"
proof -
  from assms have "cl_canceled (p_calls t c) \<and> c \<notin> set (p_started t)"
    by (induction rule: rtranclp_induct) (auto elim!: pool_stepE dest: canceled_step)
  then show ?thesis by simp
qed

theorem job_runs_at_most_once_witness:
  "case small_pool job_running of None \<Rightarrow> False
   | Some s \<Rightarrow> p_started s = [7] \<and> distinct (p_started s)"
proof -
  have "case small_pool job_running of None \<Rightarrow> False | Some s \<Rightarrow> p_started s = [7]"
    by (simp add: pool_eval)
  then obtain s where "small_pool job_running = Some s" "p_started s = [7]" "reachable small_config s"
    by (rule small_poolE)
  with job_runs_at_most_once [of small_config s] show ?thesis by simp
qed

definition job_waiting :: "nat action list" where
  "job_waiting = start_up @ [Caller (CallStart 7), Caller (CallEnqueue 7)]"

theorem reply_sender_never_lost_witness:
  "case small_pool job_waiting of None \<Rightarrow> False
   | Some s \<Rightarrow> cl_pc (p_calls s 7) = CAwaiting \<and> cl_reply (p_calls s 7) = None
       \<and> call_disconnected 7 s = None"
proof -
  have "case small_pool job_waiting of None \<Rightarrow> False
    | Some s \<Rightarrow> cl_pc (p_calls s 7) = CAwaiting \<and> cl_reply (p_calls s 7) = None"
    by (simp add: pool_eval job_waiting_def)
  then obtain s where "small_pool job_waiting = Some s" "reachable small_config s"
    "cl_pc (p_calls s 7) = CAwaiting \<and> cl_reply (p_calls s 7) = None"
    by (elim small_poolE)
  with reply_sender_never_lost [of small_config s 7] show ?thesis by simp
qed

theorem first_reply_never_blocks_witness:
  "case small_pool job_running of None \<Rightarrow> False
   | Some s \<Rightarrow> pc_of s 0 = Some (WRun 7) \<and> (\<exists>t. send_result 7 (Inr 42) s = Some t)"
proof -
  have "case small_pool job_running of None \<Rightarrow> False | Some s \<Rightarrow> pc_of s 0 = Some (WRun 7)"
    by (simp add: pool_eval)
  then obtain s where "small_pool job_running = Some s" "reachable small_config s"
    "pc_of s 0 = Some (WRun 7)"
    by (elim small_poolE)
  with first_reply_never_blocks [of small_config s 0 7 "Inr 42"] show ?thesis by simp
qed

theorem pool_bounds_witness:
  "case small_pool job_running of None \<Rightarrow> False
   | Some s \<Rightarrow> p_workers s = [0] \<and> card (busy_threads s) = 1 \<and> length (p_workers s) \<le> 1"
proof -
  have "case small_pool job_running of None \<Rightarrow> False | Some s \<Rightarrow> p_workers s = [0] \<and> p_busy s = 1"
    by (simp add: pool_eval)
  then obtain s where "small_pool job_running = Some s" "reachable small_config s"
    "p_workers s = [0] \<and> p_busy s = 1"
    by (elim small_poolE)
  with pool_bounds [of small_config s] show ?thesis by (simp add: small_config_def)
qed

definition job_done :: "nat action list" where
  "job_done = job_running @ [Worker (WorkerEarlyReply 0 (Inr 42)), Caller (CallReceive 7)]"

theorem success_implies_execution_witness:
  "case small_pool job_done of None \<Rightarrow> False
   | Some s \<Rightarrow> cl_result (p_calls s 7) = Some (Inr 42) \<and> 7 \<in> set (p_started s)"
proof -
  have "case small_pool job_done of None \<Rightarrow> False | Some s \<Rightarrow> cl_result (p_calls s 7) = Some (Inr 42)"
    by (simp add: pool_eval job_done_def)
  then obtain s where "small_pool job_done = Some s" "reachable small_config s"
    "cl_result (p_calls s 7) = Some (Inr 42)"
    by (elim small_poolE)
  with success_implies_execution [of small_config s 7 42] show ?thesis by simp
qed

definition job_timed_out :: "nat action list" where
  "job_timed_out = job_waiting @ [Caller (CallTimeout 7)]"

lemma run_actions_steps: "run_actions as s = Some t \<Longrightarrow> pool_step\<^sup>*\<^sup>* s t"
  by (induction as arbitrary: s)
    (auto split: bind_splits intro: converse_rtranclp_into_rtranclp pool_step.intros)

theorem canceled_job_never_starts_witness:
  "case small_pool job_timed_out of None \<Rightarrow> False
   | Some s \<Rightarrow> cl_canceled (p_calls s 7)
       \<and> (case run_actions [Worker (WorkerReceive 0), Worker (WorkerDispatch 0)] s of
             None \<Rightarrow> False | Some t \<Rightarrow> 7 \<notin> set (p_started t))"
proof -
  have "case small_pool job_timed_out of None \<Rightarrow> False
    | Some s \<Rightarrow> cl_canceled (p_calls s 7) \<and> p_started s = []
        \<and> run_actions [Worker (WorkerReceive 0), Worker (WorkerDispatch 0)] s \<noteq> None"
    by (simp add: pool_eval job_timed_out_def job_waiting_def)
  then obtain s t where "small_pool job_timed_out = Some s" "cl_canceled (p_calls s 7)" "p_started s = []"
    "run_actions [Worker (WorkerReceive 0), Worker (WorkerDispatch 0)] s = Some t"
    by (elim small_poolE) auto
  with canceled_job_never_starts [OF run_actions_steps, of _ s t 7] show ?thesis
    by (simp del: run_actions.simps)
qed

section \<open>Refinement of a service of calls\<close>

text \<open>
  The contract of the pool towards its callers, without queue, workers or supervisor: a call is
  admitted or refused, an admitted call is executed at most once and answered once, with a value only
  after its execution. An execution may outlive its call.
\<close>

datatype 'v call_status = Fresh | Pending | Done "(MechanicsError, 'v) result"

type_synonym 'v service = "(call_id \<Rightarrow> 'v call_status) \<times> call_id set"

inductive service_step :: "'v service \<Rightarrow> 'v service \<Rightarrow> bool" where
  admit: "st c = Fresh \<Longrightarrow> service_step (st, ex) (st(c := Pending), ex)"
| refuse: "st c = Fresh \<Longrightarrow> service_step (st, ex) (st(c := Done (Inl e)), ex)"
| execute: "st c \<noteq> Fresh \<Longrightarrow> c \<notin> ex \<Longrightarrow> service_step (st, ex) (st, insert c ex)"
| succeed: "st c = Pending \<Longrightarrow> c \<in> ex \<Longrightarrow> service_step (st, ex) (st(c := Done (Inr v)), ex)"
| fail: "st c = Pending \<Longrightarrow> service_step (st, ex) (st(c := Done (Inl e)), ex)"

definition status :: "'v call \<Rightarrow> 'v call_status" where
  "status k =
     (case cl_pc k of
        CNew \<Rightarrow> Fresh
      | CReturned \<Rightarrow> Done (the (cl_result k))
      | _ \<Rightarrow> Pending)"

definition service_state :: "'v pool \<Rightarrow> 'v service" where
  "service_state s = (\<lambda>c. status (p_calls s c), set (p_started s))"

lemma status_cong: "cl_pc k = cl_pc k' \<Longrightarrow> cl_result k = cl_result k' \<Longrightarrow> status k = status k'"
  by (simp add: status_def split: call_pc.splits)

lemma call_act_result:
  assumes "call_act a s = Some t"
  shows "cl_pc (p_calls s (caller_of a)) \<noteq> CReturned
    \<and> (cl_pc (p_calls t (caller_of a)) = CReturned
        \<longrightarrow> (\<exists>r. cl_result (p_calls t (caller_of a)) = Some r
              \<and> (\<forall>v. r = Inr v \<longrightarrow> cl_reply (p_calls s (caller_of a)) = Some (Inr v)
                    \<and> cl_pc (p_calls s (caller_of a)) = CAwaiting)))"
  using assms
  by (cases a)
    (auto simp: call_start_def call_check_live_def call_enqueue_def call_give_up_def
      call_receive_def call_timeout_def call_disconnected_def live_workers_def finish_call_def
      Let_def split: if_splits option.splits)

lemma call_act_service:
  assumes "call_act a s = Some t" "value_inv s"
  shows "service_state t = service_state s \<or> service_step (service_state s) (service_state t)"
proof -
  let ?c = "caller_of a" and ?st = "\<lambda>c. status (p_calls s c)"
  note e = call_act_effect [OF assms(1)] and r = call_act_result [OF assms(1)]
  have "p_started t = p_started s" "\<And>c. c \<noteq> ?c \<Longrightarrow> p_calls t c = p_calls s c"
    using e unfolding call_effect_def by (blast, metis fun_upd_apply)
  then have t: "service_state t = (?st(?c := status (p_calls t ?c)), set (p_started s))"
    by (auto simp: service_state_def fun_eq_iff)
  have s: "service_state s = (?st, set (p_started s))" by (simp add: service_state_def)
  show ?thesis
  proof (cases "cl_pc (p_calls t ?c) = CReturned")
    case True
    then obtain x where x: "cl_result (p_calls t ?c) = Some x" using r by blast
    then have "status (p_calls t ?c) = Done x" using True by (simp add: status_def)
    moreover have "?st ?c \<in> {Fresh, Pending}"
      using r by (cases "cl_pc (p_calls s ?c)") (auto simp: status_def)
    moreover have "?st ?c = Pending \<and> ?c \<in> set (p_started s)" if "x = Inr v" for v
      using r True x that assms(2) by (auto simp: status_def value_inv_def)
    ultimately show ?thesis
      unfolding s t by (cases x) (auto intro: refuse fail succeed)
  next
    case False
    then have "cl_pc (p_calls t ?c) \<in> {CCheckLive, CSending, CAwaiting}"
      using e unfolding call_effect_def by blast
    then have p: "status (p_calls t ?c) = Pending" "?st ?c \<in> {Fresh, Pending}"
      using r by (auto simp: status_def split: call_pc.splits)
    show ?thesis
    proof (cases "?st ?c = Fresh")
      case True
      then show ?thesis unfolding s t p(1) by (auto intro: admit)
    next
      case False
      with p have "?st(?c := Pending) = ?st" by (auto simp: fun_upd_idem)
      then show ?thesis unfolding s t p(1) by simp
    qed
  qed
qed

lemma worker_act_started:
  "worker_act a s = Some t \<Longrightarrow>
     p_started t = p_started s \<or> (\<exists>w c. pc_of s w = Some (WGot c) \<and> p_started t = p_started s @ [c])"
  by (cases a)
    (auto simp: worker_defs dest!: send_result_keeps
      split: if_splits option.splits list.splits worker_pc.splits)

lemma life_act_started: "life_act a s = Some t \<Longrightarrow> p_started t = p_started s"
  by (cases a)
    (auto simp: life_defs drop_drain_def Let_def case_prod_unfold dest!: send_result_keeps
      split: if_splits list.splits ctor_pc.splits nat.splits option.splits sum.splits)

lemma worker_act_service:
  assumes "worker_act a s = Some t" "jobs_inv s"
  shows "service_state t = service_state s \<or> service_step (service_state s) (service_state t)"
proof -
  have st: "(\<lambda>c. status (p_calls t c)) = (\<lambda>c. status (p_calls s c))"
    using worker_act_calls [OF assms(1)] by (auto intro: status_cong)
  from worker_act_started [OF assms(1)] show ?thesis
  proof (elim disjE exE conjE)
    fix w c
    assume w: "pc_of s w = Some (WGot c)" and t: "p_started t = p_started s @ [c]"
    have "holds s w c" using w by (simp add: holds_pc)
    then have "submitted s c" "c \<notin> set (p_started s)" using assms(2) w unfolding jobs_inv_def by blast+
    then show ?thesis
      unfolding service_state_def st t by (auto simp: status_def intro!: disjI2 execute)
  qed (simp add: service_state_def st)
qed

text \<open>
  Property C3: the pool refines the service of calls. Every step of every interleaving is a step of
  the service or leaves it unchanged, so a call is answered once, its answer never changes, and a
  value is only returned for an executed job.
\<close>

theorem pool_refines_service:
  assumes "reachable cfg s" and "pool_step s t"
  shows "service_state t = service_state s \<or> service_step (service_state s) (service_state t)"
proof -
  obtain a where a: "act a s = Some t" using assms(2) by (auto elim: pool_stepE)
  have inv: "jobs_inv s" "value_inv s"
    using reachable_inv [OF assms(1)] reachable_value_inv [OF assms(1)] by (simp_all add: pool_inv_def)
  show ?thesis
  proof (cases a)
    case (Caller b)
    then show ?thesis using call_act_service [OF _ inv(2)] a by simp
  next
    case (Worker b)
    then show ?thesis using worker_act_service [OF _ inv(1)] a by simp
  next
    case (Supervisor b)
    then show ?thesis
      using a super_act_calls [of b s t] super_act_started [of b s t] by (simp add: service_state_def)
  next
    case (Owner b)
    then have b: "life_act b s = Some t" using a by simp
    have "(\<lambda>c. status (p_calls t c)) = (\<lambda>c. status (p_calls s c))"
      using life_act_calls [OF b] by (auto intro: status_cong)
    then show ?thesis using life_act_started [OF b] by (simp add: service_state_def)
  qed
qed

theorem pool_refines_service_witness:
  "case small_pool job_waiting of None \<Rightarrow> False
   | Some s \<Rightarrow> (case act (Caller (CallTimeout 7)) s of None \<Rightarrow> False
       | Some t \<Rightarrow> service_state t = service_state s \<or> service_step (service_state s) (service_state t))"
proof -
  have "case small_pool job_waiting of None \<Rightarrow> False
    | Some s \<Rightarrow> act (Caller (CallTimeout 7)) s \<noteq> None"
    by (simp add: pool_eval job_waiting_def)
  then obtain s t where "small_pool job_waiting = Some s" "reachable small_config s"
    "act (Caller (CallTimeout 7)) s = Some t"
    by (elim small_poolE) auto
  moreover from this(3) have "pool_step s t" by (rule pool_step.step)
  ultimately show ?thesis using pool_refines_service [of small_config s t] by simp
qed

end
