(* ===== verification/Pool_Shutdown.thy ===== *)
theory Pool_Shutdown
  imports Pool_Properties
begin

text \<open>
  Dropping the pool, \<^verbatim>\<open>src/internal/pool/drop_impl.rs\<close> and the drop of \<^verbatim>\<open>constructor.rs\<close>: what a
  completed drop leaves behind, in which states a drop can be stuck, and a run in which it is.
\<close>

section \<open>Invariant of the drop sequence\<close>

definition shutdown_of :: "'v pool \<Rightarrow> worker_id \<Rightarrow> bool" where
  "shutdown_of s w \<longleftrightarrow> (case p_threads s w of None \<Rightarrow> False | Some t \<Rightarrow> w_shutdown t)"

definition drop_inv :: "'v pool \<Rightarrow> bool" where
  "drop_inv s \<longleftrightarrow>
     (p_drop s \<notin> {DropNone, DropDrain} \<longrightarrow> p_queue s = [])
     \<and> (p_drop s \<in> {DropJoinWorkers, DropDone} \<longrightarrow> p_super s \<in> {SupNone, SupDone})
     \<and> (p_drop s = DropDone \<longrightarrow> p_workers s = [])
     \<and> (case p_super s of SupLoop r n \<Rightarrow> 0 < n | _ \<Rightarrow> True)
     \<and> (p_ctor s \<noteq> CtorCommitted \<and> p_drop s \<in> {DropSignal, DropJoinSupervisor, DropJoinWorkers}
        \<longrightarrow> (\<forall>w. w \<in> set (p_workers s) \<longrightarrow> shutdown_of s w))"

lemma drop_no_calls:
  assumes "call_act a s = Some t" "borrow_inv s" "idle_inv s"
  shows "p_drop s = DropNone"
  using call_act_pc [OF assms(1)] assms(2,3) unfolding borrow_inv_def idle_inv_def
  by (metis emptyE empty_set)

lemma send_result_drop:
  "send_result c r s = Some t \<Longrightarrow> p_drop t = p_drop s \<and> p_queue t = p_queue s \<and> p_super t = p_super s
   \<and> p_workers t = p_workers s \<and> p_ctor t = p_ctor s \<and> p_threads t = p_threads s"
  by (auto elim!: send_result_cases)

lemma worker_act_shutdown:
  "worker_act a s = Some t \<Longrightarrow> shutdown_of t w = shutdown_of s w
   \<and> (p_queue s = [] \<longrightarrow> p_queue t = [])"
  by (cases a)
    (auto simp: worker_defs shutdown_of_def set_pc_def set_ready_def dest!: send_result_drop
      split: if_splits option.splits list.splits worker_pc.splits)

lemma worker_act_drop_inv:
  assumes "worker_act a s = Some t" "drop_inv s"
  shows "drop_inv t"
  using worker_act_shutdown [OF assms(1)] worker_act_effect [OF assms(1)] assms(2)
  by (simp add: drop_inv_def worker_effect_def)

lemma call_act_drop_inv:
  assumes "call_act a s = Some t" "borrow_inv s" "idle_inv s" "drop_inv s"
  shows "drop_inv t"
  using drop_no_calls [OF assms(1-3)] call_act_threads [OF assms(1)] assms(4)
  by (simp add: drop_inv_def)

lemma super_act_drop_inv:
  assumes "super_act a s = Some t" "drop_inv s" "phase_inv s" "threads_inv s"
  shows "drop_inv t"
proof -
  have "p_super s \<noteq> SupDone" "p_super s \<noteq> SupNone"
    using assms(1) by (cases a; auto simp: super_defs split: if_splits super_pc.splits)+
  then have "p_drop s \<notin> {DropJoinWorkers, DropDone}" "p_ctor s = CtorCommitted"
    using assms(2,3) by (auto simp: drop_inv_def phase_inv_def)
  moreover have "p_queue t = p_queue s"
    using super_act_same_jobs [OF _ assms(1)] threads_invD(1) [OF assms(4)]
    by (simp add: same_jobs_def)
  moreover have "case p_super t of SupLoop r n \<Rightarrow> 0 < n | _ \<Rightarrow> True"
    using assms(1)
    by (cases a)
      (auto simp: super_defs Let_def case_prod_unfold saturating_sub_def
        split: if_splits list.splits super_pc.splits nat.splits option.splits sum.splits)
  ultimately show ?thesis
    using assms(2) super_act_calls [OF assms(1)] super_act_ctor [OF assms(1)]
    by (simp add: drop_inv_def)
qed

lemma shutdown_of_drop [simp]: "shutdown_of (s\<lparr>p_drop := d\<rparr>) = shutdown_of s"
  by (simp add: shutdown_of_def fun_eq_iff)

lemma fold_request_shutdown_of:
  "shutdown_of (fold request_shutdown ws s) w \<longleftrightarrow>
     shutdown_of s w \<or> w \<in> set ws \<and> pc_of s w \<noteq> None"
  by (induction ws arbitrary: s)
    (auto simp: request_shutdown_def shutdown_of_def pc_of_def split: option.splits if_splits)

fun constructing :: "life_action \<Rightarrow> bool" where
  "constructing (CtorDoSpawn os) = True"
| "constructing CtorInsert = True"
| "constructing CtorReady = True"
| "constructing CtorFailedJoined = True"
| "constructing (CtorSupervisor os) = True"
| "constructing _ = False"

lemma constructing_drop:
  assumes "life_act a s = Some t" "constructing a"
  shows "p_ctor s \<noteq> CtorCommitted \<and> (\<forall>e. p_ctor s \<noteq> CtorFailed e)
    \<and> p_drop t \<in> {p_drop s, DropDrain} \<and> p_super t \<in> {p_super s, SupSelect}"
  using assms
  by (cases a)
    (auto simp: ctor_spawn_def ctor_insert_def ctor_ready_def ctor_join_failed_def
      ctor_supervisor_def ctor_fail_def insert_worker_def remove_worker_handle_def Let_def
      case_prod_unfold split: if_splits ctor_pc.splits nat.splits option.splits sum.splits)

lemma life_act_drop_inv:
  assumes "life_act a s = Some t" "drop_inv s" "phase_inv s" "threads_inv s"
  shows "drop_inv t"
proof (cases "constructing a")
  case True
  then have "p_drop s = DropNone" "p_super s = SupNone"
    using constructing_drop [OF assms(1)] assms(3) by (auto simp: phase_inv_def)
  then show ?thesis using constructing_drop [OF assms(1) True] by (auto simp: drop_inv_def)
next
  case False
  note w = threads_invD(3) [OF assms(4)]
  show ?thesis
  proof (cases a)
    case DropDrainOne
    then show ?thesis using assms(1,2)
      by (auto simp: drop_drain_def drop_inv_def dest!: send_result_drop split: if_splits list.splits)
  next
    case DropRequestAll
    then show ?thesis using assms(1,2) w
      by (auto simp: drop_request_def drop_inv_def fold_request_shutdown_of split: if_splits)
  qed (use False assms(1,2) in \<open>auto simp: life_defs drop_inv_def shutdown_of_def split: if_splits\<close>)
qed

lemma reachable_drop_inv: "reachable cfg s \<Longrightarrow> drop_inv s"
proof (induction rule: reachable.induct)
  case (init clock_max now client s)
  then show ?case by (auto dest!: pool_new_eq simp: drop_inv_def shared_new_def)
next
  case (next_step s t)
  then obtain a where a: "act a s = Some t" by (auto elim: pool_stepE)
  have "borrow_inv s" "idle_inv s" "phase_inv s" "threads_inv s"
    using reachable_inv [OF next_step.hyps(1)] by (simp_all add: pool_inv_def)
  with a next_step.IH show ?case
    by (cases a) (auto intro: call_act_drop_inv worker_act_drop_inv super_act_drop_inv life_act_drop_inv)
qed

section \<open>What a completed drop leaves\<close>

text \<open>
  Property C7: when the drop of a pool, or the teardown after a failed construction, has returned,
  every worker thread has finished, the supervisor has finished or never existed, the worker map and
  the queue are empty, and no call is in progress.
\<close>

theorem drop_leaves_nothing_running:
  assumes "reachable cfg s" and "p_drop s = DropDone"
  shows "pc_of s w \<in> {None, Some WDone} \<and> p_super s \<in> {SupNone, SupDone} \<and> p_workers s = []
    \<and> p_queue s = [] \<and> cl_pc (p_calls s c) \<in> {CNew, CReturned}"
proof -
  have inv: "threads_inv s" "phase_inv s" "borrow_inv s" "idle_inv s" "drop_inv s"
    using reachable_inv [OF assms(1)] reachable_drop_inv [OF assms(1)] by (simp_all add: pool_inv_def)
  have d: "p_super s \<in> {SupNone, SupDone}" "p_workers s = []" "p_queue s = []" "p_borrows s = []"
    using inv(4,5) assms(2) by (simp_all add: drop_inv_def idle_inv_def)
  have "\<not> inserting s w" "\<not> joining s w"
    using d(1) inv(2) assms(2) by (auto simp: inserting_def joining_def phase_inv_def)
  then have "pc_of s w \<in> {None, Some WDone}" using threads_invD(6) [OF inv(1), of w] d(2) by (cases "pc_of s w") auto
  moreover have "cl_pc (p_calls s c) \<in> {CNew, CReturned}"
    using inv(3) d(4) by (cases "cl_pc (p_calls s c)") (auto simp: borrow_inv_def)
  ultimately show ?thesis using d by simp
qed

section \<open>Where a drop can be stuck\<close>

text \<open>During a drop no caller holds a receiver, so no send of a worker blocks.\<close>

lemma drop_no_receiver:
  assumes "reachable cfg s" "p_drop s \<noteq> DropNone" "submitted s c"
  shows "\<not> cl_rx (p_calls s c)"
proof -
  have "reply_inv s" "borrow_inv s" "idle_inv s"
    using reachable_inv [OF assms(1)] by (simp_all add: pool_inv_def)
  then show ?thesis
    using assms(2,3) unfolding reply_inv_def borrow_inv_def idle_inv_def by auto
qed

lemma drop_send_result:
  "reachable cfg s \<Longrightarrow> p_drop s \<noteq> DropNone \<Longrightarrow> submitted s c \<Longrightarrow> send_result c r s = Some s"
  using drop_no_receiver [of cfg s c] by (simp add: send_result_def)

lemma worker_can_move:
  assumes r: "reachable cfg s" and d: "p_drop s \<noteq> DropNone"
    and w: "pc_of s w \<noteq> None" "pc_of s w \<noteq> Some WDone" "pc_of s w \<noteq> Some WSelect \<or> shutdown_of s w"
  shows "\<exists>a t. worker_act a s = Some t"
proof -
  have "jobs_inv s" using reachable_inv [OF r] by (simp add: pool_inv_def)
  then have "send_result c x s = Some s" if "pc_of s w = Some pc" "job_of pc = Some c" for pc c x
    using that drop_send_result [OF r d] unfolding jobs_inv_def holds_iff by blast
  note send = this
  obtain pc where pc: "pc_of s w = Some pc" using w(1) by auto
  show ?thesis
  proof (cases pc)
    case WStarting
    then have "worker_act (WorkerStarted w) s \<noteq> None" using pc by (simp add: worker_started_def)
    then show ?thesis by blast
  next
    case WSelect
    then have "worker_act (WorkerStop w) s \<noteq> None"
      using pc w(3) by (auto simp: worker_stop_def pc_of_def shutdown_of_def split: option.splits)
    then show ?thesis by blast
  next
    case (WGot c)
    then have "worker_act (WorkerDispatch w) s \<noteq> None"
      using pc send by (simp add: worker_dispatch_def)
    then show ?thesis by blast
  next
    case (WRun c)
    then have "worker_act (WorkerUnwind w) s \<noteq> None" using pc by (simp add: worker_unwind_def)
    then show ?thesis by blast
  next
    case (WTail c)
    then have "worker_act (WorkerMainReplied w) s \<noteq> None" using pc by (simp add: worker_main_replied_def)
    then show ?thesis by blast
  next
    case (WPanicked c)
    then have "worker_act (WorkerPanicReply w) s \<noteq> None"
      using pc send by (simp add: worker_panic_reply_def)
    then show ?thesis by blast
  next
    case (WFinishing c b)
    then have "worker_act (WorkerEndJob w) s \<noteq> None" using pc by (simp add: worker_end_job_def)
    then show ?thesis by blast
  next
    case (WExiting r)
    then have "worker_act (WorkerExit w) s \<noteq> None" using pc by (simp add: worker_exit_def)
    then show ?thesis by blast
  qed (use w pc in simp)
qed

lemma supervisor_can_move:
  assumes r: "reachable cfg s" and d: "p_drop s \<noteq> DropNone" and u: "p_super s \<notin> {SupNone, SupDone}"
  shows "(\<exists>a t. super_act a s = Some t) \<or> (\<exists>a t. worker_act a s = Some t)"
proof -
  have inv: "threads_inv s" "drop_inv s"
    using reachable_inv [OF r] reachable_drop_inv [OF r] by (simp_all add: pool_inv_def)
  have move: "super_act a s \<noteq> None \<Longrightarrow> \<exists>a t. super_act a s = Some t" for a by blast
  show ?thesis
  proof (cases "p_super s")
    case SupSelect
    then show ?thesis using move [of SupTick] by (simp add: sup_tick_def)
  next
    case (SupCheck x)
    then show ?thesis using move [of SupDoCheck] by (simp add: sup_check_def)
  next
    case (SupReconcile x)
    then show ?thesis using move [of SupDoReconcile]
      by (simp add: sup_reconcile_def Let_def case_prod_unfold)
  next
    case (SupLoop x n)
    then obtain m where "n = Suc m" using inv(2) by (cases n) (auto simp: drop_inv_def)
    then show ?thesis using SupLoop move [of "SupRestart 0 True"]
      by (simp add: sup_restart_def Let_def case_prod_unfold)
  next
    case (SupStarted x n w)
    then show ?thesis using move [of SupInsert] by (simp add: sup_insert_def)
  next
    case (SupAwaitReady x n w)
    then have "pc_of s w \<noteq> None" using threads_invD(5) [OF inv(1), of w] by (auto simp: awaiting_def)
    then have "ready_of s w \<noteq> None \<or> pc_of s w = Some WStarting"
      using threads_invD(9) [OF inv(1), of w] by blast
    then show ?thesis
    proof
      assume "ready_of s w \<noteq> None"
      then show ?thesis using SupAwaitReady move [of SupReady]
        by (auto simp: sup_ready_def split: option.splits sum.splits)
    qed (use worker_can_move [OF r d, of w] in auto)
  next
    case (SupJoinFailed w)
    then have "ended s w" using threads_invD(11) [OF inv(1), of w] by (auto simp: joining_def)
    then consider "pc_of s w = Some WDone" | x where "pc_of s w = Some (WExiting x)"
      by (auto simp: ended_def)
    then show ?thesis
    proof cases
      case 1
      then show ?thesis using SupJoinFailed move [of SupFailedJoined] by (simp add: sup_join_failed_def)
    qed (use worker_can_move [OF r d, of w] in auto)
  qed (use u in auto)
qed

text \<open>
  Property C5: the only state in which a drop waits forever. While a drop is in progress some thread
  can always move, unless the drop joins the workers and one of them idles in its receive loop
  without a shutdown request; after a failed construction that state does not exist.
\<close>

theorem drop_stuck_only_on_unsignalled_worker:
  assumes "reachable cfg s" and "p_drop s \<notin> {DropNone, DropDone}" and "\<not> (\<exists>t. pool_step s t)"
  shows "p_ctor s = CtorCommitted \<and> p_drop s = DropJoinWorkers
    \<and> (\<exists>w. w \<in> set (p_workers s) \<and> pc_of s w = Some WSelect \<and> \<not> shutdown_of s w)"
proof -
  have d: "p_drop s \<noteq> DropNone" using assms(2) by simp
  have inv: "jobs_inv s" "threads_inv s" "phase_inv s" "drop_inv s"
    using reachable_inv [OF assms(1)] reachable_drop_inv [OF assms(1)] by (simp_all add: pool_inv_def)
  have stuck: "act a s = None" for a
    using assms(3) by (cases "act a s") (auto intro: pool_step.intros)
  have no: "worker_act a s = None" "super_act b s = None" "life_act c s = None" for a b c
    using stuck [of "Worker a"] stuck [of "Supervisor b"] stuck [of "Owner c"] by simp_all
  have super: "p_super s \<in> {SupNone, SupDone}" using supervisor_can_move [OF assms(1) d] no by auto
  have drain: "p_drop s \<noteq> DropDrain"
  proof
    assume "p_drop s = DropDrain"
    have "drop_drain s \<noteq> None"
    proof (cases "p_queue s")
      case (Cons c q)
      then have "submitted s c" using inv(1) by (simp add: jobs_inv_def)
      then have "send_result c r (s\<lparr>p_queue := q\<rparr>) = Some (s\<lparr>p_queue := q\<rparr>)" for r
        using drop_no_receiver [OF assms(1) d, of c] by (simp add: send_result_def)
      with Cons \<open>p_drop s = DropDrain\<close> show ?thesis by (simp add: drop_drain_def)
    qed (use \<open>p_drop s = DropDrain\<close> in \<open>simp add: drop_drain_def\<close>)
    then show False using no(3) [of DropDrainOne] by simp
  qed
  have j: "p_drop s = DropJoinWorkers"
    using assms(2) drain super no(3) [of DropRequestAll] no(3) [of DropSignalSupervisor]
      no(3) [of DropSupervisorJoined]
    by (cases "p_drop s")
      (auto simp: drop_request_def drop_signal_def drop_join_supervisor_def split: if_splits)
  then obtain w where w: "w \<in> set (p_workers s)" "pc_of s w \<noteq> Some WDone"
    using no(3) [of DropWorkersJoined] by (auto simp: drop_join_workers_def list_all_iff split: if_splits)
  have idle: "pc_of s w = Some WSelect \<and> \<not> shutdown_of s w"
    using worker_can_move [OF assms(1) d, of w] threads_invD(3) [OF inv(2) w(1)] w(2) no(1) by auto
  moreover have "p_ctor s = CtorCommitted" using inv(4) j w(1) idle by (auto simp: drop_inv_def)
  ultimately show ?thesis using j w(1) by blast
qed

section \<open>A drop that never returns\<close>

text \<open>
  The supervisor has read that the pool is open and has started a replacement thread; the drop then
  asks the workers in the map to stop; only afterwards the supervisor enters the new handle. The new
  worker is never asked to stop, its job channel stays connected, and the drop joins it forever.
\<close>

definition hang_trace :: "nat action list" where
  "hang_trace = job_running @
     [Worker (WorkerUnwind 0), Worker (WorkerPanicReply 0), Caller (CallReceive 7),
      Worker (WorkerEndJob 0), Worker (WorkerExit 0),
      Supervisor SupEvent, Supervisor SupDoCheck, Supervisor SupDoReconcile,
      Supervisor (SupRestart 0 True),
      Owner DropStart, Owner DropDrainOne, Owner DropRequestAll, Owner DropSignalSupervisor,
      Supervisor SupInsert, Worker (WorkerStarted 1), Supervisor SupReady, Supervisor SupShutdown,
      Owner DropSupervisorJoined]"

definition hung :: "worker_id \<Rightarrow> 'v pool \<Rightarrow> bool" where
  "hung w s \<longleftrightarrow>
     p_drop s = DropJoinWorkers \<and> p_super s = SupDone \<and> p_ctor s = CtorCommitted
     \<and> p_queue s = [] \<and> w \<in> set (p_workers s) \<and> pc_of s w = Some WSelect \<and> \<not> shutdown_of s w"

lemma idle_worker_acts:
  assumes "worker_act a s = Some t" "pc_of s (actor_of a) = Some WSelect"
  shows "p_queue s \<noteq> [] \<or> shutdown_of s (actor_of a)"
proof -
  obtain th where "p_threads s (actor_of a) = Some th" "w_pc th = WSelect"
    using assms(2) by (auto simp: pc_of_def)
  then show ?thesis using assms
    by (cases a) (simp_all add: worker_defs shutdown_of_def split: if_splits list.splits)
qed

lemma hung_worker:
  assumes "worker_act a s = Some t" "hung w s"
  shows "hung w t"
proof -
  have "actor_of a \<noteq> w"
    using idle_worker_acts [OF assms(1)] assms(2) by (auto simp: hung_def)
  moreover obtain pc pc' where "worker_effect (actor_of a) pc pc' s t"
    using worker_act_effect [OF assms(1)] by blast
  ultimately show ?thesis
    using assms(2) worker_act_shutdown [OF assms(1)] by (simp add: hung_def worker_effect_def)
qed

lemma hung_acts:
  assumes "reachable cfg s" "hung w s" "act a s = Some t"
  obtains b where "worker_act b s = Some t"
proof (cases a)
  case (Caller b)
  have "borrow_inv s" "idle_inv s" using reachable_inv [OF assms(1)] by (simp_all add: pool_inv_def)
  then show ?thesis using Caller assms(2,3) drop_no_calls [of b s t] by (simp add: hung_def)
next
  case (Worker b)
  then show ?thesis using that assms(3) by simp
next
  case (Supervisor b)
  then show ?thesis using assms(2,3) by (cases b) (simp_all add: super_defs hung_def)
next
  case (Owner b)
  then show ?thesis using assms(2,3)
    by (cases b) (auto simp: life_defs drop_drain_def hung_def list_all_iff split: if_splits)
qed

lemma hung_step: "reachable cfg s \<Longrightarrow> hung w s \<Longrightarrow> pool_step s t \<Longrightarrow> hung w t"
  by (auto elim!: pool_stepE hung_acts intro: hung_worker)

lemma hung_stuck:
  assumes "reachable cfg s" "hung w s" "\<And>w'. w' \<noteq> w \<Longrightarrow> pc_of s w' \<in> {None, Some WDone}"
  shows "\<not> (\<exists>t. pool_step s t)"
proof
  assume "\<exists>t. pool_step s t"
  then obtain b t where b: "worker_act b s = Some t"
    using assms(1,2) by (auto elim!: pool_stepE hung_acts)
  obtain pc pc' where "worker_effect (actor_of b) pc pc' s t" using worker_act_effect [OF b] by blast
  then have "actor_of b = w" using assms(3) [of "actor_of b"] by (auto simp: worker_effect_def)
  then show False using idle_worker_acts [OF b] assms(2) by (simp add: hung_def)
qed

lemma hung_forever:
  assumes "pool_step\<^sup>*\<^sup>* s t" "reachable cfg s" "hung w s"
  shows "reachable cfg t \<and> hung w t"
  using assms by (induction rule: rtranclp_induct) (auto intro: reachable.next_step hung_step)

text \<open>
  Property C6: a drop can hang. There is a run of a pool with one worker after which the drop waits
  for a worker, and no continuation of that run completes the drop.
\<close>

theorem drop_can_hang:
  "\<exists>s. small_pool hang_trace = Some s \<and> p_drop s = DropJoinWorkers
     \<and> \<not> (\<exists>t. pool_step\<^sup>*\<^sup>* s t \<and> p_drop t = DropDone)"
proof -
  have "case small_pool hang_trace of None \<Rightarrow> False | Some s \<Rightarrow> hung 1 s"
    by (simp add: pool_eval hang_trace_def hung_def shutdown_of_def)
  then obtain s where s: "small_pool hang_trace = Some s" "hung 1 s" "reachable small_config s"
    by (rule small_poolE)
  then have "p_drop t \<noteq> DropDone" if "pool_step\<^sup>*\<^sup>* s t" for t
    using hung_forever [OF that s(3,2)] by (simp add: hung_def)
  with s show ?thesis by (auto simp: hung_def)
qed

definition clean_drop :: "nat action list" where
  "clean_drop = start_up @
     [Owner DropStart, Owner DropDrainOne, Owner DropRequestAll, Owner DropSignalSupervisor,
      Supervisor SupShutdown, Owner DropSupervisorJoined, Worker (WorkerStop 0),
      Worker (WorkerExit 0), Owner DropWorkersJoined]"

theorem drop_leaves_nothing_running_witness:
  "case small_pool clean_drop of None \<Rightarrow> False
   | Some s \<Rightarrow> p_drop s = DropDone \<and> pc_of s 0 \<in> {None, Some WDone}"
proof -
  have "case small_pool clean_drop of None \<Rightarrow> False | Some s \<Rightarrow> p_drop s = DropDone"
    by (simp add: pool_eval clean_drop_def)
  then obtain s where "small_pool clean_drop = Some s" "p_drop s = DropDone" "reachable small_config s"
    by (rule small_poolE)
  with drop_leaves_nothing_running [of small_config s 0] show ?thesis by simp
qed

theorem drop_stuck_only_on_unsignalled_worker_witness:
  "case small_pool hang_trace of None \<Rightarrow> False
   | Some s \<Rightarrow> p_drop s \<notin> {DropNone, DropDone} \<and> \<not> (\<exists>t. pool_step s t)
       \<and> (\<exists>w. w \<in> set (p_workers s) \<and> \<not> shutdown_of s w)"
proof -
  have "case small_pool hang_trace of None \<Rightarrow> False
    | Some s \<Rightarrow> hung 1 s \<and> (\<forall>w. w \<noteq> 1 \<longrightarrow> pc_of s w \<in> {None, Some WDone})"
    by (simp add: pool_eval hang_trace_def hung_def shutdown_of_def)
  then obtain s where s: "small_pool hang_trace = Some s" "reachable small_config s"
    "hung 1 s \<and> (\<forall>w. w \<noteq> 1 \<longrightarrow> pc_of s w \<in> {None, Some WDone})"
    by (elim small_poolE)
  moreover from this have "\<not> (\<exists>t. pool_step s t)" by (intro hung_stuck) auto
  moreover have "p_drop s \<notin> {DropNone, DropDone}" using s(3) by (simp add: hung_def)
  ultimately show ?thesis
    using drop_stuck_only_on_unsignalled_worker [of small_config s] by auto
qed

end
