(* ===== verification/Pool_Run.thy ===== *)
theory Pool_Run
  imports Pool_Config Pool_Metrics
begin

text \<open>
  One call of \<^verbatim>\<open>MechanicsPool::run\<close> or \<^verbatim>\<open>run_nonblocking_enqueue\<close>
  (\<^verbatim>\<open>src/internal/pool/api.rs\<close>), from the calling thread's side: the deadline computation, the
  waits handed to the two channels, the classification of every outcome, the cancellation flag and
  the metric updates. What the clock, the channels and the shared flags answer is the environment
  of the call.
\<close>

section \<open>Deadlines\<close>

definition deadline_from_timeout ::
  "instant \<Rightarrow> instant \<Rightarrow> duration \<Rightarrow> (MechanicsError, instant) result" where
  "deadline_from_timeout clock_max now timeout =
     ok_or (runtime_pool ''run_timeout is too large for the current platform clock'')
       (instant_checked_add_std clock_max now timeout)"

definition remaining_to_deadline :: "instant \<Rightarrow> instant \<Rightarrow> duration option" where
  "remaining_to_deadline deadline now = (if now \<ge> deadline then None else Some (deadline - now))"

text \<open>The quarter of the restart window is a floating-point division, given as an argument.\<close>

definition reconcile_interval :: "(duration \<Rightarrow> nat \<Rightarrow> duration) \<Rightarrow> duration \<Rightarrow> duration" where
  "reconcile_interval div_f64 restart_window =
     min (max (div_f64 restart_window 4) (from_millis 50)) (from_millis 500)"

section \<open>The environment of one call\<close>

datatype send_outcome = SendOk | SendTimeout | SendDisconnected
datatype try_send_outcome = TrySendOk | TrySendFull | TrySendDisconnected
datatype 'v recv_outcome =
  RecvOk "(MechanicsError, 'v) result" | RecvTimeout | RecvDisconnected

record 'v run_env =
  re_clock_max :: instant
  re_closed :: bool
  re_restart_blocked :: bool
  re_live_workers :: nat
  re_now_start :: instant
  re_now_enqueue :: instant
  re_now_accepted :: instant
  re_queue_depth :: nat
  re_now_reply :: instant
  re_now_completed :: instant
  re_send :: send_outcome
  re_try_send :: try_send_outcome
  re_recv :: "'v recv_outcome"

text \<open>What the call did: its result, whether it raised the cancellation flag, the waits it handed
  to the channels, and the metric updates.\<close>

record 'v run_report =
  rr_result :: "(MechanicsError, 'v) result"
  rr_canceled :: bool
  rr_enqueue_wait :: "duration option"
  rr_reply_wait :: "duration option"
  rr_metrics :: "metric_update list"

definition early_return :: "MechanicsError \<Rightarrow> 'v run_report" where
  "early_return e =
     \<lparr>rr_result = Inl e, rr_canceled = False, rr_enqueue_wait = None, rr_reply_wait = None,
      rr_metrics = []\<rparr>"

section \<open>The call\<close>

text \<open>The part shared by both entry points: waiting for the worker's reply.\<close>

definition await_reply ::
  "'v run_env \<Rightarrow> instant \<Rightarrow> duration option \<Rightarrow> metric_update list \<Rightarrow> 'v run_report" where
  "await_reply env deadline enqueue_wait accepted =
     (let completed = (\<lambda>out. accepted
            @ record_job_completed (re_now_completed env - re_now_accepted env) out)
      in case remaining_to_deadline deadline (re_now_reply env) of
           None \<Rightarrow>
             \<lparr>rr_result = Inl (run_timeout_error ''run timeout elapsed while waiting for worker reply''),
              rr_canceled = True, rr_enqueue_wait = enqueue_wait, rr_reply_wait = None,
              rr_metrics = completed OutTimeout\<rparr>
         | Some remaining \<Rightarrow>
             (case re_recv env of
                RecvOk r \<Rightarrow>
                  \<lparr>rr_result = r, rr_canceled = False, rr_enqueue_wait = enqueue_wait,
                   rr_reply_wait = Some remaining,
                   rr_metrics = completed (case r of Inr _ \<Rightarrow> OutOk | Inl e \<Rightarrow> outcome_from_error e)\<rparr>
              | RecvTimeout \<Rightarrow>
                  \<lparr>rr_result = Inl (run_timeout_error ''run timeout elapsed while waiting for worker reply''),
                   rr_canceled = True, rr_enqueue_wait = enqueue_wait,
                   rr_reply_wait = Some remaining, rr_metrics = completed OutTimeout\<rparr>
              | RecvDisconnected \<Rightarrow>
                  \<lparr>rr_result = Inl (worker_unavailable ''worker dropped reply channel''),
                   rr_canceled = False, rr_enqueue_wait = enqueue_wait,
                   rr_reply_wait = Some remaining, rr_metrics = completed OutFailed\<rparr>))"

definition admission_error :: "'v run_env \<Rightarrow> MechanicsError option" where
  "admission_error env =
     (if re_closed env then Some (pool_closed ''runtime pool is closed'')
      else if re_restart_blocked env \<and> re_live_workers env = 0 then
        Some (worker_unavailable ''all workers are unavailable and restart guard is active'')
      else None)"

definition effective_run_timeout :: "duration \<Rightarrow> ('n, 'c) MechanicsJob \<Rightarrow> duration" where
  "effective_run_timeout pool_run_timeout job =
     (case mj_run_timeout job of Some d \<Rightarrow> d | None \<Rightarrow> pool_run_timeout)"

definition run ::
  "duration \<Rightarrow> duration \<Rightarrow> ('n, 'c) MechanicsJob \<Rightarrow> 'v run_env \<Rightarrow> 'v run_report" where
  "run enqueue_timeout pool_run_timeout job env =
     (case admission_error env of
        Some e \<Rightarrow> early_return e
      | None \<Rightarrow>
          (case deadline_from_timeout (re_clock_max env) (re_now_start env)
                  (effective_run_timeout pool_run_timeout job) of
             Inl e \<Rightarrow> early_return e
           | Inr deadline \<Rightarrow>
               (case remaining_to_deadline deadline (re_now_enqueue env) of
                  None \<Rightarrow>
                    (early_return (run_timeout_error ''run timeout elapsed before enqueue''))
                      \<lparr>rr_canceled := True\<rparr>
                | Some remaining_for_enqueue \<Rightarrow>
                    (let enqueue_wait = min enqueue_timeout remaining_for_enqueue;
                         limited_by_run_timeout = (enqueue_wait = remaining_for_enqueue)
                     in case re_send env of
                          SendOk \<Rightarrow>
                            await_reply env deadline (Some enqueue_wait)
                              (record_job_accepted (re_queue_depth env))
                        | SendTimeout \<Rightarrow>
                            (if limited_by_run_timeout then
                               (early_return (run_timeout_error
                                  ''run timeout elapsed while waiting to enqueue''))
                                 \<lparr>rr_canceled := True, rr_enqueue_wait := Some enqueue_wait\<rparr>
                             else
                               (early_return (queue_timeout
                                  ''enqueue timed out because queue is full''))
                                 \<lparr>rr_enqueue_wait := Some enqueue_wait\<rparr>)
                        | SendDisconnected \<Rightarrow>
                            (early_return (worker_unavailable
                               ''job queue disconnected from workers''))
                              \<lparr>rr_enqueue_wait := Some enqueue_wait\<rparr>))))"

definition run_nonblocking_enqueue ::
  "duration \<Rightarrow> ('n, 'c) MechanicsJob \<Rightarrow> 'v run_env \<Rightarrow> 'v run_report" where
  "run_nonblocking_enqueue pool_run_timeout job env =
     (case admission_error env of
        Some e \<Rightarrow> early_return e
      | None \<Rightarrow>
          (case deadline_from_timeout (re_clock_max env) (re_now_start env)
                  (effective_run_timeout pool_run_timeout job) of
             Inl e \<Rightarrow> early_return e
           | Inr deadline \<Rightarrow>
               (case re_try_send env of
                  TrySendOk \<Rightarrow>
                    await_reply env deadline None (record_job_accepted (re_queue_depth env))
                | TrySendFull \<Rightarrow> early_return (queue_full ''queue is full'')
                | TrySendDisconnected \<Rightarrow>
                    early_return (worker_unavailable ''job queue disconnected from workers''))))"

section \<open>Lemmas\<close>

lemmas run_unfold = run_def run_nonblocking_enqueue_def await_reply_def early_return_def
  deadline_from_timeout_def remaining_to_deadline_def instant_checked_add_std_def Let_def

lemma await_reply_wait:
  "rr_reply_wait (await_reply env d ew acc) = Some w \<Longrightarrow> 0 < w \<and> re_now_reply env + w = d"
  by (auto simp: await_reply_def remaining_to_deadline_def Let_def
      split: if_splits option.splits recv_outcome.splits)

lemma await_reply_enqueue_wait [simp]: "rr_enqueue_wait (await_reply env d ew acc) = ew"
  by (simp add: await_reply_def Let_def split: option.splits recv_outcome.splits)

lemma await_reply_canceled:
  "rr_canceled (await_reply env d ew acc) \<longleftrightarrow> d \<le> re_now_reply env \<or> re_recv env = RecvTimeout"
  by (auto simp: await_reply_def remaining_to_deadline_def Let_def
      split: option.splits recv_outcome.splits)

lemma await_reply_metrics:
  "completions (rr_metrics (await_reply env d ew acc)) = completions acc
     @ [outcome_label (case rr_result (await_reply env d ew acc) of
          Inr _ \<Rightarrow> OutOk | Inl e \<Rightarrow> outcome_from_error e)]"
  "acceptances (rr_metrics (await_reply env d ew acc)) = acceptances acc"
  by (auto simp: await_reply_def remaining_to_deadline_def Let_def outcome_from_error_def
      split: option.splits recv_outcome.splits sum.splits)

lemma await_reply_result:
  "rr_result (await_reply env d ew acc) = Inr v \<longleftrightarrow>
     re_now_reply env < d \<and> re_recv env = RecvOk (Inr v)"
  by (auto simp: await_reply_def remaining_to_deadline_def Let_def
      split: option.splits recv_outcome.splits)

lemma admission_error_no_value: "admission_error env = Some e \<Longrightarrow> kind e \<in> {KPoolClosed, KWorkerUnavailable}"
  by (auto simp: admission_error_def split: if_splits)

section \<open>Properties\<close>

text \<open>
  Property C13: \<^verbatim>\<open>run\<close> never blocks past its deadline. The wait handed to the queue is at most the
  configured enqueue timeout and ends by the deadline; the wait handed to the reply channel is
  positive and ends exactly at the deadline, which is the start plus the effective run timeout.
\<close>

theorem run_waits_end_by_deadline:
  assumes "r = run et pt job env" and "d = re_now_start env + effective_run_timeout pt job"
  shows "(rr_enqueue_wait r = Some w \<longrightarrow> w \<le> et \<and> re_now_enqueue env + w \<le> d)
       \<and> (rr_reply_wait r = Some w' \<longrightarrow> 0 < w' \<and> re_now_reply env + w' = d)"
proof (rule conjI; rule impI)
  show "w \<le> et \<and> re_now_enqueue env + w \<le> d" if "rr_enqueue_wait r = Some w"
    using that assms
    by (auto simp: run_def early_return_def deadline_from_timeout_def remaining_to_deadline_def
        instant_checked_add_std_def ok_or_def Let_def
        split: option.splits sum.splits if_splits send_outcome.splits)
  show "0 < w' \<and> re_now_reply env + w' = d" if "rr_reply_wait r = Some w'"
    using that assms await_reply_wait [of env d _ _ w']
    by (auto simp: run_def early_return_def deadline_from_timeout_def Let_def result_simps width_simps
        split: option.splits sum.splits if_splits send_outcome.splits)
qed

definition example_env :: "nat run_env" where
  "example_env =
     \<lparr>re_clock_max = 1000, re_closed = False, re_restart_blocked = False, re_live_workers = 1,
      re_now_start = 10, re_now_enqueue = 11, re_now_accepted = 12, re_queue_depth = 1,
      re_now_reply = 13, re_now_completed = 20, re_send = SendOk, re_try_send = TrySendOk,
      re_recv = RecvOk (Inr 7)\<rparr>"

definition example_job :: "(nat, unit) MechanicsJob" where
  "example_job = \<lparr>mj_module_source = ''x'', mj_arg = JNull, mj_config = (), mj_run_timeout = Some 50\<rparr>"

theorem run_waits_end_by_deadline_witness:
  "rr_enqueue_wait (run 5 100 example_job example_env) = Some 5
   \<and> rr_reply_wait (run 5 100 example_job example_env) = Some 47
   \<and> (11::nat) + 5 \<le> 60 \<and> (13::nat) + 47 = 60"
proof -
  have e: "rr_enqueue_wait (run 5 100 example_job example_env) = Some 5"
    "rr_reply_wait (run 5 100 example_job example_env) = Some 47"
    by (simp_all add: run_unfold admission_error_def effective_run_timeout_def example_env_def
        example_job_def)
  from run_waits_end_by_deadline [OF refl refl, of 5 100 example_job example_env 5 47] e
  show ?thesis by (simp add: effective_run_timeout_def example_env_def example_job_def)
qed

text \<open>
  A run call succeeds exactly when it is admitted, its deadline is representable,
  the queue accepts the job and the worker replies with a value, both before the deadline.
\<close>

theorem run_success_iff:
  "rr_result (run et pt job env) = Inr v \<longleftrightarrow>
     admission_error env = None
     \<and> re_now_start env + effective_run_timeout pt job \<le> re_clock_max env
     \<and> re_now_enqueue env < re_now_start env + effective_run_timeout pt job
     \<and> re_send env = SendOk
     \<and> re_now_reply env < re_now_start env + effective_run_timeout pt job
     \<and> re_recv env = RecvOk (Inr v)"
  by (auto simp: run_def early_return_def deadline_from_timeout_def Let_def remaining_to_deadline_def
      await_reply_result instant_checked_add_std_def
      split: option.splits if_splits send_outcome.splits)

text \<open>
  Every accepted job is counted as completed exactly once, under the label of the
  result the caller gets; a call that was not accepted records nothing.
\<close>

theorem run_metrics_balanced:
  "r \<in> {run et pt job env, run_nonblocking_enqueue pt job env} \<Longrightarrow>
     acceptances (rr_metrics r) \<le> 1
     \<and> completions (rr_metrics r) =
         (if acceptances (rr_metrics r) = 1
          then [outcome_label (case rr_result r of Inr _ \<Rightarrow> OutOk | Inl e \<Rightarrow> outcome_from_error e)]
          else [])"
  by (auto simp: run_def run_nonblocking_enqueue_def early_return_def Let_def await_reply_metrics
      split: option.splits sum.splits send_outcome.splits try_send_outcome.splits if_splits)

theorem run_metrics_balanced_witness:
  "completions (rr_metrics (run 5 100 example_job example_env)) = [''ok'']"
proof -
  have "acceptances (rr_metrics (run 5 100 example_job example_env)) = 1"
    "rr_result (run 5 100 example_job example_env) = Inr 7"
    by (simp_all add: run_unfold admission_error_def effective_run_timeout_def example_env_def
        example_job_def)
  with run_metrics_balanced [of "run 5 100 example_job example_env" 5 100 example_job example_env]
  show ?thesis by simp
qed

text \<open>
  When the queue stays full, the call reports \<^verbatim>\<open>RunTimeout\<close> (and cancels the job) if
  the run deadline was the tighter bound, and \<^verbatim>\<open>QueueTimeout\<close> (without cancelling) otherwise; the
  non-blocking entry point reports \<^verbatim>\<open>QueueFull\<close>.
\<close>

theorem full_queue_classification:
  assumes "admission_error env = None" and "d = re_now_start env + effective_run_timeout pt job"
    and "d \<le> re_clock_max env" and "re_now_enqueue env < d"
    and "re_send env = SendTimeout" and "re_try_send env = TrySendFull"
  shows "(\<exists>m. rr_result (run et pt job env) =
            Inl (if d - re_now_enqueue env \<le> et then RunTimeout m else QueueTimeout m))
       \<and> (rr_canceled (run et pt job env) \<longleftrightarrow> d - re_now_enqueue env \<le> et)
       \<and> (\<exists>m. rr_result (run_nonblocking_enqueue pt job env) = Inl (QueueFull m))"
  using assms by (auto simp: run_unfold min_def)

theorem full_queue_classification_witness:
  "rr_canceled (run 5 100 example_job
     (example_env\<lparr>re_send := SendTimeout, re_try_send := TrySendFull\<rparr>)) \<longleftrightarrow> (49::nat) \<le> 5"
  using full_queue_classification [of
      "example_env\<lparr>re_send := SendTimeout, re_try_send := TrySendFull\<rparr>" 60 100 example_job 5]
  by (simp add: admission_error_def effective_run_timeout_def example_env_def example_job_def)

end
