(* ===== verification/Timer_Queue.thy ===== *)
theory Timer_Queue
  imports Prelude "HOL-Library.Multiset"
begin

text \<open>
  The timer queue of \<^verbatim>\<open>src/internal/executor.rs\<close>: a \<^verbatim>\<open>BTreeMap<JsInstant, Vec<TimeoutJob>>\<close>, here the
  list of its entries in key order, with the operations the executor uses on it. An interface locale
  states what the executor relies on; it is interpreted on the map.
\<close>

section \<open>The map\<close>

type_synonym ('i, 't) timers = "('i \<times> 't list) list"

text \<open>\<^verbatim>\<open>entry(at).or_default().push(t)\<close>.\<close>

fun timers_push :: "'i::linorder \<Rightarrow> 't \<Rightarrow> ('i, 't) timers \<Rightarrow> ('i, 't) timers" where
  "timers_push at t [] = [(at, [t])]"
| "timers_push at t ((k, ts) # m) =
     (if at < k then (at, [t]) # (k, ts) # m
      else if at = k then (k, ts @ [t]) # m
      else (k, ts) # timers_push at t m)"

text \<open>\<^verbatim>\<open>first_key_value().map(|(k, _)| *k)\<close>.\<close>

definition next_timeout_at :: "('i, 't) timers \<Rightarrow> 'i option" where
  "next_timeout_at m = (case m of [] \<Rightarrow> None | (k, ts) # _ \<Rightarrow> Some k)"

text \<open>\<^verbatim>\<open>retain\<close> on the lists, then on the entries.\<close>

definition timers_retain :: "('t \<Rightarrow> bool) \<Rightarrow> ('i, 't) timers \<Rightarrow> ('i, 't) timers" where
  "timers_retain live m =
     filter (\<lambda>(k, ts). ts \<noteq> []) (map (\<lambda>(k, ts). (k, filter live ts)) m)"

text \<open>The loop that pops the entries that are due.\<close>

fun pop_due :: "'i::linorder \<Rightarrow> ('i, 't) timers \<Rightarrow> 't list \<Rightarrow> 't list \<times> ('i, 't) timers" where
  "pop_due now [] due = (due, [])"
| "pop_due now ((at, ts) # m) due =
     (if at > now then (due, (at, ts) # m) else pop_due now m (due @ ts))"

definition timers_count :: "('i, 't) timers \<Rightarrow> nat" where
  "timers_count m = sum_list (map (\<lambda>(k, ts). length ts) m)"

definition timers_inv :: "('i::linorder, 't) timers \<Rightarrow> bool" where
  "timers_inv m \<longleftrightarrow> sorted_wrt (<) (map fst m) \<and> (\<forall>e. e \<in> set m \<longrightarrow> snd e \<noteq> [])"

text \<open>The timers in the order in which they fire.\<close>

definition timers_list :: "('i, 't) timers \<Rightarrow> ('i \<times> 't) list" where
  "timers_list m = concat (map (\<lambda>(k, ts). map (Pair k) ts) m)"

section \<open>The interface\<close>

locale timer_queue =
  fixes empty :: 'q
    and push :: "'i::linorder \<Rightarrow> 't \<Rightarrow> 'q \<Rightarrow> 'q"
    and due :: "'i \<Rightarrow> 'q \<Rightarrow> 't list"
    and rest :: "'i \<Rightarrow> 'q \<Rightarrow> 'q"
    and contents :: "'q \<Rightarrow> ('i \<times> 't) list"
    and invar :: "'q \<Rightarrow> bool"
  assumes invar_empty: "invar empty"
    and contents_empty: "contents empty = []"
    and invar_push: "invar q \<Longrightarrow> invar (push at t q)"
    and contents_push: "invar q \<Longrightarrow>
      contents (push at t q) =
        takeWhile (\<lambda>e. fst e \<le> at) (contents q) @ (at, t) # dropWhile (\<lambda>e. fst e \<le> at) (contents q)"
    and invar_sorted: "invar q \<Longrightarrow> sorted (map fst (contents q))"
    and due_contents: "invar q \<Longrightarrow> due now q = map snd (takeWhile (\<lambda>e. fst e \<le> now) (contents q))"
    and rest_contents: "invar q \<Longrightarrow> contents (rest now q) = dropWhile (\<lambda>e. fst e \<le> now) (contents q)"
    and invar_rest: "invar q \<Longrightarrow> invar (rest now q)"
begin

lemma push_all_invar: "invar q \<Longrightarrow> invar (fold (\<lambda>(at, t). push at t) xs q)"
  by (induction xs arbitrary: q) (auto simp: invar_push)

text \<open>Pushing is a stable insertion, so a sequence of pushes is a stable sort.\<close>

lemma contents_push_filter:
  assumes "invar q"
  shows "filter (\<lambda>e. fst e = k) (contents (push at t q)) =
    filter (\<lambda>e. fst e = k) (contents q) @ filter (\<lambda>e. fst e = k) [(at, t)]"
proof -
  let ?p = "\<lambda>e. fst e \<le> at" and ?f = "filter (\<lambda>e. fst e = k)"
  have split: "?f (contents q) = ?f (takeWhile ?p (contents q)) @ ?f (dropWhile ?p (contents q))"
    by (simp flip: filter_append)
  have "?f (dropWhile ?p (contents q)) = []" if "k \<le> at"
    using sorted_dropWhile_gt [OF invar_sorted [OF assms]] that by (fastforce simp: filter_empty_conv)
  then show ?thesis
    by (cases "at = k") (simp_all add: contents_push [OF assms] split)
qed

lemma contents_push_mset: "invar q \<Longrightarrow> mset (contents (push at t q)) = add_mset (at, t) (mset (contents q))"
  by (simp add: contents_push flip: mset_append) (simp flip: union_code mset_append)

lemma contents_fold:
  assumes "invar q"
  shows "invar (fold (\<lambda>(at, t). push at t) xs q)
    \<and> mset (contents (fold (\<lambda>(at, t). push at t) xs q)) = mset (contents q) + mset xs
    \<and> (\<forall>k. filter (\<lambda>e. fst e = k) (contents (fold (\<lambda>(at, t). push at t) xs q)) =
         filter (\<lambda>e. fst e = k) (contents q) @ filter (\<lambda>e. fst e = k) xs)"
  using assms
proof (induction xs arbitrary: q)
  case (Cons x xs)
  then show ?case
    using Cons.IH [OF invar_push [OF Cons.prems, of "fst x" "snd x"]]
    by (cases x) (simp add: contents_push_filter contents_push_mset)
qed simp

lemma contents_sorted_by_time: "contents (fold (\<lambda>(at, t). push at t) xs empty) = sort_key fst xs"
proof (rule properties_for_sort_key [symmetric])
  note f = contents_fold [OF invar_empty, of xs, unfolded contents_empty]
  show "mset (contents (fold (\<lambda>(at, t). push at t) xs empty)) = mset xs" using f by simp
  show "sorted (map fst (contents (fold (\<lambda>(at, t). push at t) xs empty)))"
    using f invar_sorted by blast
  show "filter (\<lambda>x. fst e = fst x) (contents (fold (\<lambda>(at, t). push at t) xs empty)) =
      filter (\<lambda>x. fst e = fst x) xs" for e
    using f by (simp add: eq_commute [of "fst e"])
qed

lemma due_after_pushes:
  "due now (fold (\<lambda>(at, t). push at t) xs empty) = map snd (sort_key fst (filter (\<lambda>e. fst e \<le> now) xs))"
proof -
  have "takeWhile (\<lambda>e. fst e \<le> now) (sort_key fst xs) = filter (\<lambda>e. fst e \<le> now) (sort_key fst xs)"
    by (rule takeWhile_eq_filter_sorted) simp
  also have "\<dots> = sort_key fst (filter (\<lambda>e. fst e \<le> now) xs)" by (simp add: filter_sort)
  finally show ?thesis
    using contents_fold [OF invar_empty, of xs] by (simp add: due_contents contents_sorted_by_time)
qed

end

section \<open>The map implements the interface\<close>

lemma timers_push_keys:
  "set (map fst (timers_push at t m)) = insert at (set (map fst m))"
  by (induction at t m rule: timers_push.induct) auto

lemma timers_push_inv: "timers_inv m \<Longrightarrow> timers_inv (timers_push at t m)"
proof (induction at t m rule: timers_push.induct)
  case (2 at t k ts m)
  then show ?case
    using timers_push_keys [of at t m] by (fastforce simp: timers_inv_def)
qed (simp add: timers_inv_def)

lemma timers_list_Cons: "timers_list ((k, ts) # m) = map (Pair k) ts @ timers_list m"
  by (simp add: timers_list_def)

lemma timers_list_keys: "e \<in> set (timers_list m) \<Longrightarrow> fst e \<in> set (map fst m)"
  by (force simp: timers_list_def)

lemma timers_list_sorted: "timers_inv m \<Longrightarrow> sorted (map fst (timers_list m))"
proof (induction m)
  case (Cons e m)
  obtain k ts where e: "e = (k, ts)" by (cases e)
  have "timers_inv m" using Cons.prems by (simp add: timers_inv_def)
  moreover have "k \<le> fst x" if "x \<in> set (timers_list m)" for x
    using Cons.prems timers_list_keys [OF that] e by (auto simp: timers_inv_def)
  ultimately show ?case
    using Cons.IH e by (auto simp: timers_list_Cons sorted_append comp_def map_replicate_const)
qed (simp add: timers_list_def)

lemma timers_inv_Cons: "timers_inv ((k, ts) # m) \<Longrightarrow> timers_inv m"
  by (simp add: timers_inv_def)

lemma timers_inv_head:
  "timers_inv ((k, ts) # m) \<Longrightarrow> e \<in> set (timers_list m) \<Longrightarrow> k < fst e"
  using timers_list_keys [of e m] by (auto simp: timers_inv_def)

lemma timers_inv_nonempty: "timers_inv ((k, ts) # m) \<Longrightarrow> ts \<noteq> []"
  by (auto simp: timers_inv_def)

lemma takeWhile_same_key:
  "k \<le> at \<Longrightarrow> takeWhile (\<lambda>e. fst e \<le> at) (map (Pair k) ts @ xs) =
     map (Pair k) ts @ takeWhile (\<lambda>e. fst e \<le> at) xs"
  "k \<le> at \<Longrightarrow> dropWhile (\<lambda>e. fst e \<le> at) (map (Pair k) ts @ xs) = dropWhile (\<lambda>e. fst e \<le> at) xs"
  by (induction ts) simp_all

lemma timers_push_list:
  "timers_inv m \<Longrightarrow> timers_list (timers_push at t m) =
     takeWhile (\<lambda>e. fst e \<le> at) (timers_list m) @ (at, t)
       # dropWhile (\<lambda>e. fst e \<le> at) (timers_list m)"
proof (induction at t m rule: timers_push.induct)
  case (2 at t k ts m)
  note inv = timers_inv_Cons [OF "2.prems"] and head = timers_inv_head [OF "2.prems"]
  have tail: "takeWhile (\<lambda>e. fst e \<le> at) (timers_list m) = []"
    "dropWhile (\<lambda>e. fst e \<le> at) (timers_list m) = timers_list m" if "at \<le> k"
    using head that by (cases "timers_list m"; fastforce)+
  have ne: "ts \<noteq> []" using "2.prems" by (rule timers_inv_nonempty)
  consider "at < k" | "at = k" | "k < at" by fastforce
  then show ?case
  proof cases
    case 1
    then show ?thesis using ne by (cases ts) (auto simp: timers_list_Cons)
  next
    case 2
    then show ?thesis using tail by (simp add: timers_list_Cons takeWhile_same_key)
  next
    case 3
    then have "\<not> at < k" "at \<noteq> k" by auto
    with 3 show ?thesis using "2.IH" inv by (simp add: timers_list_Cons takeWhile_same_key)
  qed
qed (simp add: timers_list_def)

lemma pop_due_list:
  "timers_inv m \<Longrightarrow>
     fst (pop_due now m due) = due @ map snd (takeWhile (\<lambda>e. fst e \<le> now) (timers_list m))
     \<and> timers_list (snd (pop_due now m due)) = dropWhile (\<lambda>e. fst e \<le> now) (timers_list m)
     \<and> timers_inv (snd (pop_due now m due))"
proof (induction now m due rule: pop_due.induct)
  case (2 now at ts m due)
  show ?case
  proof (cases "at > now")
    case True
    then show ?thesis using "2.prems" by (cases ts) (auto simp: timers_list_Cons timers_inv_def)
  next
    case False
    then have "takeWhile (\<lambda>e. fst e \<le> now) (timers_list ((at, ts) # m)) =
        map (Pair at) ts @ takeWhile (\<lambda>e. fst e \<le> now) (timers_list m)"
      "dropWhile (\<lambda>e. fst e \<le> now) (timers_list ((at, ts) # m)) =
        dropWhile (\<lambda>e. fst e \<le> now) (timers_list m)"
      by (simp_all add: timers_list_Cons takeWhile_same_key)
    with False "2.IH" timers_inv_Cons [OF "2.prems"] show ?thesis by (simp add: comp_def)
  qed
qed (simp add: timers_list_def)

interpretation btree: timer_queue
  "[]" timers_push "\<lambda>now m. fst (pop_due now m [])" "\<lambda>now m. snd (pop_due now m [])" timers_list timers_inv
proof unfold_locales
  show "timers_inv []" "timers_list [] = []" by (simp_all add: timers_inv_def timers_list_def)
qed (simp_all add: timers_push_inv timers_push_list timers_list_sorted pop_due_list)

lemma timers_retain_list: "timers_list (timers_retain live m) = filter (\<lambda>e. live (snd e)) (timers_list m)"
proof (induction m)
  case (Cons e m)
  obtain k ts where e: "e = (k, ts)" by (cases e)
  have "filter (\<lambda>e. live (snd e)) (map (Pair k) ts) = map (Pair k) (filter live ts)"
    by (simp add: filter_map comp_def)
  with Cons e show ?case by (simp add: timers_retain_def timers_list_def)
qed (simp add: timers_retain_def timers_list_def)

lemma timers_retain_inv: "timers_inv m \<Longrightarrow> timers_inv (timers_retain live m)"
proof (induction m)
  case (Cons e m)
  have "set (map fst (timers_retain live m)) \<subseteq> set (map fst m)"
    by (force simp: timers_retain_def)
  with Cons show ?case by (cases e) (fastforce simp: timers_inv_def timers_retain_def)
qed (simp add: timers_inv_def timers_retain_def)

lemma timers_count_list: "timers_count m = length (timers_list m)"
  by (simp add: timers_count_def timers_list_def length_concat comp_def case_prod_unfold)

lemma timers_list_empty_iff: "timers_inv m \<Longrightarrow> timers_list m = [] \<longleftrightarrow> m = []"
  by (cases m) (auto simp: timers_list_Cons timers_list_def dest: timers_inv_nonempty)

lemma next_timeout_at_list:
  "timers_inv m \<Longrightarrow>
     next_timeout_at m = (case timers_list m of [] \<Rightarrow> None | e # _ \<Rightarrow> Some (fst e))"
  by (cases m)
    (auto simp: next_timeout_at_def timers_list_Cons timers_list_def neq_Nil_conv
      dest!: timers_inv_nonempty)

end
