(* ===== verification/Executor.thy ===== *)
theory Executor
  imports Timer_Queue
begin

text \<open>
  The job executor, \<^verbatim>\<open>src/internal/executor.rs\<close>. The JavaScript engine is a parameter: its clock, what
  a call of a job does, how a group of futures is awaited. A job body has type \<open>'j\<close>, the engine's
  world \<open>'w\<close>, an engine error \<open>'e\<close>. A call returns a result, the jobs it enqueued (each with the
  instant the executor read when it was enqueued) and the new world.

  \<^verbatim>\<open>JsInstant\<close> belongs to the engine: it is a linearly ordered type \<open>'i\<close> with a constructor from
  seconds and nanoseconds and a projection to milliseconds.
\<close>

section \<open>The engine\<close>

datatype ('j) engine_job =
    PromiseJob 'j
  | AsyncJob 'j
  | TimeoutJob 'j
  | GenericJob 'j
  | OtherJob string

text \<open>A generic job is one of the engine, or one the executor made to raise an error.\<close>

datatype 'j generic_job = UserGeneric 'j | RangeErrorJob string | TypeErrorJob string

datatype 'e js_error =
    EngineError 'e
  | RangeError string
  | TypeError string
  | RuntimeLimit string
  | ReferenceError string
  | PlainError string

record 'i js_clock =
  ic_new :: "nat \<Rightarrow> nat \<Rightarrow> 'i"
  ic_millis :: "'i \<Rightarrow> nat"

type_synonym ('j, 'i) requests = "('j engine_job \<times> 'i) list"

text \<open>
  \<open>en_next\<close> is \<^verbatim>\<open>group.next()\<close>, bounded by a duration or not: the position and the result of a
  finished future, or nothing when the time is up.
\<close>

record ('w, 'j, 'i, 'e) engine =
  en_now :: "'w \<Rightarrow> 'i \<times> 'w"
  en_call :: "'j \<Rightarrow> 'w \<Rightarrow> ('e, unit) result \<times> ('j, 'i) requests \<times> 'w"
  en_timeout :: "'j \<Rightarrow> duration"
  en_cancelled :: "'j \<Rightarrow> 'w \<Rightarrow> bool"
  en_clear_kept :: "'w \<Rightarrow> 'w"
  en_sleep :: "duration \<Rightarrow> 'w \<Rightarrow> 'w"
  en_next :: "duration option \<Rightarrow> 'j list \<Rightarrow> 'w
                \<Rightarrow> (nat \<times> ('e, unit) result) option \<times> ('j, 'i) requests \<times> 'w"

section \<open>The queue\<close>

record ('j, 'i) Queue =
  q_async :: "'j list"
  q_promise :: "'j list"
  q_timeout :: "('i, 'j) timers"
  q_generic :: "'j generic_job list"
  q_deadline :: "'i option"

record QueueSnapshot =
  qs_in_flight_async_jobs :: nat
  qs_promise_jobs :: nat
  qs_timeout_jobs :: nat
  qs_generic_jobs :: nat

datatype RunJobsExit = Complete | DeadlineExceeded QueueSnapshot

definition queue_new :: "('j, 'i) Queue" where
  "queue_new = \<lparr>q_async = [], q_promise = [], q_timeout = [], q_generic = [], q_deadline = None\<rparr>"

definition timeout_error :: "'e js_error" where
  "timeout_error = RuntimeLimit ''Maximum execution time exceeded''"

definition set_deadline :: "'i option \<Rightarrow> ('j, 'i) Queue \<Rightarrow> ('j, 'i) Queue" where
  "set_deadline d q = q\<lparr>q_deadline := d\<rparr>"

definition clear_all :: "('j, 'i) Queue \<Rightarrow> ('j, 'i) Queue" where
  "clear_all q = q\<lparr>q_async := [], q_promise := [], q_timeout := [], q_generic := []\<rparr>"

definition snapshot :: "('j, 'i) Queue \<Rightarrow> nat \<Rightarrow> QueueSnapshot" where
  "snapshot q in_flight =
     \<lparr>qs_in_flight_async_jobs = in_flight, qs_promise_jobs = length (q_promise q),
      qs_timeout_jobs = timers_count (q_timeout q), qs_generic_jobs = length (q_generic q)\<rparr>"

section \<open>Instants\<close>

definition js_instant_from_millis :: "'i js_clock \<Rightarrow> nat \<Rightarrow> 'i option" where
  "js_instant_from_millis ic ms =
     Option.bind (checked_mul_u64 (ms mod 1000) 1000000) (\<lambda>nanos.
     Option.bind (u32_try_from nanos) (\<lambda>nanos.
     Some (ic_new ic (ms div 1000) nanos)))"

definition instant_checked_add :: "'i js_clock \<Rightarrow> 'i \<Rightarrow> duration \<Rightarrow> 'i option" where
  "instant_checked_add ic base delta =
     (let base_ms = ic_millis ic base; delta_ms = as_millis delta
      in Option.bind (checked_add_u128 base_ms delta_ms) (\<lambda>total_ms.
         Option.bind (u64_try_from total_ms) (\<lambda>total_ms.
         js_instant_from_millis ic total_ms)))"

definition millis_until_or_zero :: "'i js_clock \<Rightarrow> 'i \<Rightarrow> 'i \<Rightarrow> nat" where
  "millis_until_or_zero ic later earlier = saturating_sub (ic_millis ic later) (ic_millis ic earlier)"

definition has_due_timeout_job :: "('j, 'i::linorder) Queue \<Rightarrow> 'i \<Rightarrow> bool" where
  "has_due_timeout_job q now =
     (case next_timeout_at (q_timeout q) of None \<Rightarrow> False | Some at \<Rightarrow> at \<le> now)"

definition wait_budget :: "'i js_clock \<Rightarrow> ('j, 'i) Queue \<Rightarrow> 'i \<Rightarrow> duration option" where
  "wait_budget ic q now =
     (let timeout_budget =
            map_option (\<lambda>at. from_millis (millis_until_or_zero ic at now))
              (next_timeout_at (q_timeout q));
          deadline_budget =
            map_option (\<lambda>d. from_millis (millis_until_or_zero ic d now)) (q_deadline q)
      in case (timeout_budget, deadline_budget) of
           (Some a, Some b) \<Rightarrow> Some (min a b)
         | (Some a, None) \<Rightarrow> Some a
         | (None, Some b) \<Rightarrow> Some b
         | (None, None) \<Rightarrow> None)"

section \<open>Enqueueing\<close>

definition enqueue_job ::
  "'i js_clock \<Rightarrow> ('w, 'j, 'i::linorder, 'e) engine \<Rightarrow> 'j engine_job \<times> 'i \<Rightarrow> ('j, 'i) Queue \<Rightarrow> ('j, 'i) Queue"
where
  "enqueue_job ic en request q =
     (case request of (job, now) \<Rightarrow>
        case job of
          PromiseJob j \<Rightarrow> q\<lparr>q_promise := q_promise q @ [j]\<rparr>
        | AsyncJob j \<Rightarrow> q\<lparr>q_async := q_async q @ [j]\<rparr>
        | TimeoutJob j \<Rightarrow>
            (case instant_checked_add ic now (en_timeout en j) of
               None \<Rightarrow> q\<lparr>q_generic := q_generic q @
                 [RangeErrorJob ''setTimeout delay is too large for the current platform clock'']\<rparr>
             | Some at \<Rightarrow> q\<lparr>q_timeout := timers_push at j (q_timeout q)\<rparr>)
        | GenericJob j \<Rightarrow> q\<lparr>q_generic := q_generic q @ [UserGeneric j]\<rparr>
        | OtherJob debug \<Rightarrow> q\<lparr>q_generic := q_generic q @
            [TypeErrorJob (''unsupported job type: '' @ debug)]\<rparr>)"

definition enqueue_all ::
  "'i js_clock \<Rightarrow> ('w, 'j, 'i::linorder, 'e) engine \<Rightarrow> ('j, 'i) requests \<Rightarrow> ('j, 'i) Queue \<Rightarrow> ('j, 'i) Queue"
where
  "enqueue_all ic en requests q = fold (enqueue_job ic en) requests q"

section \<open>Draining\<close>

type_synonym ('j, 'i, 'w) exec = "('j, 'i) Queue \<times> 'w"

text \<open>A call of a job runs in the engine; the jobs it creates go to the queues.\<close>

definition call_job ::
  "'i js_clock \<Rightarrow> ('w, 'j, 'i::linorder, 'e) engine \<Rightarrow> 'j \<Rightarrow> ('j, 'i, 'w) exec
     \<Rightarrow> ('e js_error, unit) result \<times> ('j, 'i, 'w) exec"
where
  "call_job ic en j s =
     (case s of (q, w) \<Rightarrow>
        case en_call en j w of (r, requests, w') \<Rightarrow>
          (map_err EngineError r, (enqueue_all ic en requests q, w')))"

definition call_generic ::
  "'i js_clock \<Rightarrow> ('w, 'j, 'i::linorder, 'e) engine \<Rightarrow> 'j generic_job \<Rightarrow> ('j, 'i, 'w) exec
     \<Rightarrow> ('e js_error, unit) result \<times> ('j, 'i, 'w) exec"
where
  "call_generic ic en g s =
     (case g of
        UserGeneric j \<Rightarrow> call_job ic en j s
      | RangeErrorJob m \<Rightarrow> (Inl (RangeError m), s)
      | TypeErrorJob m \<Rightarrow> (Inl (TypeError m), s))"

fun call_all ::
  "'i js_clock \<Rightarrow> ('w, 'j, 'i::linorder, 'e) engine \<Rightarrow> 'j list \<Rightarrow> ('j, 'i, 'w) exec
     \<Rightarrow> ('e js_error, unit) result \<times> ('j, 'i, 'w) exec"
where
  "call_all ic en [] s = (Inr (), s)"
| "call_all ic en (j # js) s =
     (case call_job ic en j s of
        (Inl e, s') \<Rightarrow> (Inl e, s')
      | (Inr _, s') \<Rightarrow> call_all ic en js s')"

definition take_due ::
  "('w, 'j, 'i::linorder, 'e) engine \<Rightarrow> ('j, 'i, 'w) exec \<Rightarrow> 'j list \<times> ('j, 'i, 'w) exec"
where
  "take_due en s =
     (case s of (q, w) \<Rightarrow>
        case en_now en w of (now, w') \<Rightarrow>
          case pop_due now (timers_retain (\<lambda>j. \<not> en_cancelled en j w') (q_timeout q)) [] of
            (due, m) \<Rightarrow> (due, (q\<lparr>q_timeout := m\<rparr>, w')))"

definition drain_timeout_jobs ::
  "'i js_clock \<Rightarrow> ('w, 'j, 'i::linorder, 'e) engine \<Rightarrow> ('j, 'i, 'w) exec
     \<Rightarrow> ('e js_error, unit) result \<times> ('j, 'i, 'w) exec"
where
  "drain_timeout_jobs ic en s = (case take_due en s of (due, s') \<Rightarrow> call_all ic en due s')"

definition drain_one_generic ::
  "'i js_clock \<Rightarrow> ('w, 'j, 'i::linorder, 'e) engine \<Rightarrow> ('j, 'i, 'w) exec
     \<Rightarrow> ('e js_error, unit) result \<times> ('j, 'i, 'w) exec"
where
  "drain_one_generic ic en s =
     (case s of (q, w) \<Rightarrow>
        case q_generic q of
          [] \<Rightarrow> (Inr (), s)
        | g # gs \<Rightarrow> call_generic ic en g (q\<lparr>q_generic := gs\<rparr>, w))"

definition drain_jobs ::
  "'i js_clock \<Rightarrow> ('w, 'j, 'i::linorder, 'e) engine \<Rightarrow> ('j, 'i, 'w) exec
     \<Rightarrow> ('e js_error, unit) result \<times> ('j, 'i, 'w) exec"
where
  "drain_jobs ic en s =
     (case drain_timeout_jobs ic en s of
        (Inl e, s1) \<Rightarrow> (Inl e, s1)
      | (Inr _, s1) \<Rightarrow>
          (case drain_one_generic ic en s1 of
             (Inl e, s2) \<Rightarrow> (Inl e, s2)
           | (Inr _, (q, w)) \<Rightarrow>
               (case call_all ic en (q_promise q) (q\<lparr>q_promise := []\<rparr>, w) of
                  (Inl e, s3) \<Rightarrow> (Inl e, s3)
                | (Inr _, (q', w')) \<Rightarrow> (Inr (), (q', en_clear_kept en w')))))"

section \<open>The loop\<close>

text \<open>
  The local state of the loop. \<open>rn_stop\<close> is the value produced by \<^verbatim>\<open>on_stop\<close>: it is there exactly
  when \<^verbatim>\<open>stopped\<close> is set and the callback is taken.
\<close>

record ('j, 'i, 'w, 'o) run_state =
  rn_queue :: "('j, 'i) Queue"
  rn_world :: 'w
  rn_group :: "'j list"
  rn_in_flight :: nat
  rn_stop :: "'o option"

definition deadline_exceeded ::
  "('w, 'j, 'i::linorder, 'e) engine \<Rightarrow> ('j, 'i, 'w, 'o) run_state \<Rightarrow> bool \<times> ('j, 'i, 'w, 'o) run_state"
where
  "deadline_exceeded en st =
     (case q_deadline (rn_queue st) of
        None \<Rightarrow> (False, st)
      | Some deadline \<Rightarrow>
          (case en_now en (rn_world st) of (now, w) \<Rightarrow> (deadline \<le> now, st\<lparr>rn_world := w\<rparr>)))"

definition check_stop ::
  "('w \<Rightarrow> bool) \<Rightarrow> ('w \<Rightarrow> ('e js_error, 'o) result \<times> 'w) \<Rightarrow> ('j, 'i, 'w, 'o) run_state
     \<Rightarrow> ('e js_error, unit) result \<times> ('j, 'i, 'w, 'o) run_state"
where
  "check_stop should_stop on_stop st =
     (if rn_stop st = None \<and> should_stop (rn_world st) then
        (case on_stop (rn_world st) of
           (Inl e, w) \<Rightarrow> (Inl e, st\<lparr>rn_world := w\<rparr>)
         | (Inr out, w) \<Rightarrow> (Inr (), st\<lparr>rn_world := w, rn_stop := Some out\<rparr>))
      else (Inr (), st))"

definition start_async :: "('j, 'i, 'w, 'o) run_state \<Rightarrow> ('j, 'i, 'w, 'o) run_state" where
  "start_async st =
     (let q = rn_queue st
      in st\<lparr>rn_queue := q\<lparr>q_async := []\<rparr>, rn_group := rn_group st @ q_async q,
            rn_in_flight := fold (\<lambda>_ n. saturating_add n 1) (q_async q) (rn_in_flight st)\<rparr>)"

definition quiescent :: "('j, 'i, 'w, 'o) run_state \<Rightarrow> bool" where
  "quiescent st \<longleftrightarrow>
     rn_group st = [] \<and> q_promise (rn_queue st) = [] \<and> q_timeout (rn_queue st) = []
     \<and> q_generic (rn_queue st) = []"

definition sleep_duration :: "'i js_clock \<Rightarrow> ('j, 'i::linorder) Queue \<Rightarrow> 'i \<Rightarrow> 'i \<Rightarrow> duration" where
  "sleep_duration ic q at now =
     (if at \<le> now then 0
      else
        (let d = from_millis (millis_until_or_zero ic at now)
         in case q_deadline q of
              None \<Rightarrow> d
            | Some deadline \<Rightarrow>
                min d (if deadline \<le> now then 0
                       else from_millis (millis_until_or_zero ic deadline now))))"

definition wait_for_timer ::
  "'i js_clock \<Rightarrow> ('w, 'j, 'i::linorder, 'e) engine \<Rightarrow> ('j, 'i, 'w, 'o) run_state \<Rightarrow> ('j, 'i, 'w, 'o) run_state"
where
  "wait_for_timer ic en st =
     (let q = rn_queue st
      in if q_promise q = [] \<and> q_generic q = [] then
           (case next_timeout_at (q_timeout q) of
              None \<Rightarrow> st
            | Some at \<Rightarrow>
                (case en_now en (rn_world st) of (now, w) \<Rightarrow>
                   let d = sleep_duration ic q at now
                   in st\<lparr>rn_world := (if d = 0 then w else en_sleep en d w)\<rparr>))
         else st)"

definition remove_nth :: "nat \<Rightarrow> 'a list \<Rightarrow> 'a list" where
  "remove_nth i xs = take i xs @ drop (Suc i) xs"

definition poll_group ::
  "'i js_clock \<Rightarrow> ('w, 'j, 'i::linorder, 'e) engine \<Rightarrow> duration option \<Rightarrow> ('j, 'i, 'w, 'o) run_state
     \<Rightarrow> ('e js_error, unit) result \<times> ('j, 'i, 'w, 'o) run_state"
where
  "poll_group ic en limit st =
     (case en_next en limit (rn_group st) (rn_world st) of (outcome, requests, w) \<Rightarrow>
        let st' = st\<lparr>rn_queue := enqueue_all ic en requests (rn_queue st), rn_world := w\<rparr>
        in case outcome of
             None \<Rightarrow> (Inr (), st')
           | Some (i, Inr _) \<Rightarrow>
               (Inr (), st'\<lparr>rn_group := remove_nth i (rn_group st'),
                            rn_in_flight := saturating_sub (rn_in_flight st') 1\<rparr>)
           | Some (i, Inl e) \<Rightarrow> (Inl (EngineError e), st'))"

definition wait_for_group ::
  "'i js_clock \<Rightarrow> ('w, 'j, 'i::linorder, 'e) engine \<Rightarrow> ('j, 'i, 'w, 'o) run_state
     \<Rightarrow> ('e js_error, unit) result \<times> ('j, 'i, 'w, 'o) run_state"
where
  "wait_for_group ic en st =
     (case en_now en (rn_world st) of (now, w) \<Rightarrow>
        let st' = st\<lparr>rn_world := w\<rparr>; q = rn_queue st;
            has_sync_ready_jobs = (q_promise q \<noteq> [] \<or> q_generic q \<noteq> [] \<or> has_due_timeout_job q now)
        in if has_sync_ready_jobs then (Inr (), st')
           else case wait_budget ic q now of
                  Some budget \<Rightarrow>
                    if budget = 0 then (Inr (), st') else poll_group ic en (Some budget) st'
                | None \<Rightarrow> poll_group ic en None st')"

definition wait_stage ::
  "'i js_clock \<Rightarrow> ('w, 'j, 'i::linorder, 'e) engine \<Rightarrow> ('j, 'i, 'w, 'o) run_state
     \<Rightarrow> ('e js_error, unit) result \<times> ('j, 'i, 'w, 'o) run_state"
where
  "wait_stage ic en st =
     (if rn_group st = [] then (Inr (), wait_for_timer ic en st) else wait_for_group ic en st)"

definition drain_stage ::
  "'i js_clock \<Rightarrow> ('w, 'j, 'i::linorder, 'e) engine \<Rightarrow> ('j, 'i, 'w, 'o) run_state
     \<Rightarrow> ('e js_error, unit) result \<times> ('j, 'i, 'w, 'o) run_state"
where
  "drain_stage ic en st =
     (case drain_jobs ic en (rn_queue st, rn_world st) of
        (r, (q, w)) \<Rightarrow> (r, st\<lparr>rn_queue := q, rn_world := w\<rparr>))"

datatype ('e, 's) turn = Returned "('e js_error, RunJobsExit) result" 's | Continue 's

text \<open>One turn of the loop.\<close>

definition loop_turn ::
  "'i js_clock \<Rightarrow> ('w, 'j, 'i::linorder, 'e) engine \<Rightarrow> ('w \<Rightarrow> bool)
     \<Rightarrow> ('w \<Rightarrow> ('e js_error, 'o) result \<times> 'w) \<Rightarrow> ('j, 'i, 'w, 'o) run_state
     \<Rightarrow> ('e, ('j, 'i, 'w, 'o) run_state) turn"
where
  "loop_turn ic en should_stop on_stop st =
     (case check_stop should_stop on_stop st of
        (Inl e, st1) \<Rightarrow> Returned (Inl e) st1
      | (Inr _, st1) \<Rightarrow>
     (case deadline_exceeded en st1 of
        (True, st2) \<Rightarrow>
          Returned (Inr (DeadlineExceeded (snapshot (rn_queue st2) (rn_in_flight st2)))) st2
      | (False, st2) \<Rightarrow>
     (let st3 = start_async st2
      in if quiescent st3 then Returned (Inr Complete) st3
         else
     (case wait_stage ic en st3 of
        (Inl e, st4) \<Rightarrow> Returned (Inl e) st4
      | (Inr _, st4) \<Rightarrow>
     (case deadline_exceeded en st4 of
        (True, st5) \<Rightarrow>
          Returned (Inr (DeadlineExceeded (snapshot (rn_queue st5) (rn_in_flight st5)))) st5
      | (False, st5) \<Rightarrow>
     (case drain_stage ic en st5 of
        (Inl e, st6) \<Rightarrow> Returned (Inl e) st6
      | (Inr _, st6) \<Rightarrow> Continue st6))))))"

text \<open>The loop runs with fuel; \<open>None\<close> says that it has not returned within that many turns.\<close>

fun run_loop ::
  "'i js_clock \<Rightarrow> ('w, 'j, 'i::linorder, 'e) engine \<Rightarrow> ('w \<Rightarrow> bool)
     \<Rightarrow> ('w \<Rightarrow> ('e js_error, 'o) result \<times> 'w) \<Rightarrow> nat \<Rightarrow> ('j, 'i, 'w, 'o) run_state
     \<Rightarrow> (('e js_error, RunJobsExit) result \<times> ('j, 'i, 'w, 'o) run_state) option"
where
  "run_loop ic en should_stop on_stop 0 st = None"
| "run_loop ic en should_stop on_stop (Suc fuel) st =
     (case loop_turn ic en should_stop on_stop st of
        Returned r st' \<Rightarrow> Some (r, st')
      | Continue st' \<Rightarrow> run_loop ic en should_stop on_stop fuel st')"

definition start_state :: "('j, 'i) Queue \<Rightarrow> 'w \<Rightarrow> ('j, 'i, 'w, 'o) run_state" where
  "start_state q w = \<lparr>rn_queue = q, rn_world = w, rn_group = [], rn_in_flight = 0, rn_stop = None\<rparr>"

definition run_jobs_until_then_to_quiescence ::
  "'i js_clock \<Rightarrow> ('w, 'j, 'i::linorder, 'e) engine \<Rightarrow> ('w \<Rightarrow> bool)
     \<Rightarrow> ('w \<Rightarrow> ('e js_error, 'o) result \<times> 'w) \<Rightarrow> nat \<Rightarrow> ('j, 'i, 'w) exec
     \<Rightarrow> (('e js_error, RunJobsExit) result \<times> ('j, 'i, 'w, 'o) run_state) option"
where
  "run_jobs_until_then_to_quiescence ic en should_stop on_stop fuel s =
     (case s of (q, w) \<Rightarrow> run_loop ic en should_stop on_stop fuel (start_state q w))"

definition run_jobs ::
  "'i js_clock \<Rightarrow> ('w, 'j, 'i::linorder, 'e) engine \<Rightarrow> nat \<Rightarrow> ('j, 'i, 'w) exec
     \<Rightarrow> (('e js_error, unit) result \<times> ('j, 'i, 'w) exec) option"
where
  "run_jobs ic en fuel s =
     map_option
       (\<lambda>(r, st). (case r of
            Inl e \<Rightarrow> Inl e
          | Inr Complete \<Rightarrow> Inr ()
          | Inr (DeadlineExceeded _) \<Rightarrow> Inl timeout_error,
          (rn_queue st, rn_world (st :: ('j, 'i, 'w, unit) run_state))))
       (run_jobs_until_then_to_quiescence ic en (\<lambda>_. False) (\<lambda>w. (Inr (), w)) fuel s)"

section \<open>Module loader\<close>

type_synonym 'm module_loader = "string \<Rightarrow> 'm option"

definition loader_new :: "'m module_loader" where
  "loader_new = (\<lambda>_. None)"

definition define_module :: "string \<Rightarrow> 'm \<Rightarrow> 'm module_loader \<Rightarrow> 'm module_loader" where
  "define_module spec m l = l(spec \<mapsto> m)"

definition load_imported_module :: "'m module_loader \<Rightarrow> string \<Rightarrow> (string, 'm) result" where
  "load_imported_module l spec = ok_or ''Module not found'' (l spec)"

end
