(* ===== verification/Executor_Properties.thy ===== *)
theory Executor_Properties
  imports Executor
begin

text \<open>
  Correctness of the job executor: what its exits mean, in which order jobs run, how long it waits,
  and that it returns once the clock has passed the deadline.
\<close>

section \<open>Queue operations\<close>

lemma enqueue_job_deadline [simp]: "q_deadline (enqueue_job ic en r q) = q_deadline q"
  by (simp add: enqueue_job_def case_prod_unfold split: engine_job.splits option.splits)

lemma enqueue_all_deadline [simp]: "q_deadline (enqueue_all ic en rs q) = q_deadline q"
  unfolding enqueue_all_def by (induction rs arbitrary: q) simp_all

lemma enqueue_job_timers: "timers_inv (q_timeout q) \<Longrightarrow> timers_inv (q_timeout (enqueue_job ic en r q))"
  by (simp add: enqueue_job_def case_prod_unfold timers_push_inv split: engine_job.splits option.splits)

lemma enqueue_all_timers: "timers_inv (q_timeout q) \<Longrightarrow> timers_inv (q_timeout (enqueue_all ic en rs q))"
  unfolding enqueue_all_def by (induction rs arbitrary: q) (simp_all add: enqueue_job_timers)

lemma enqueue_all_append: "enqueue_all ic en (rs @ rs') q = enqueue_all ic en rs' (enqueue_all ic en rs q)"
  by (simp add: enqueue_all_def)

lemma enqueue_all_Nil [simp]: "enqueue_all ic en [] q = q"
  by (simp add: enqueue_all_def)

text \<open>The promise jobs among some requests.\<close>

fun promises_of :: "('j, 'i) requests \<Rightarrow> 'j list" where
  "promises_of [] = []"
| "promises_of ((PromiseJob j, _) # rs) = j # promises_of rs"
| "promises_of (_ # rs) = promises_of rs"

lemma enqueue_all_promise: "q_promise (enqueue_all ic en rs q) = q_promise q @ promises_of rs"
  unfolding enqueue_all_def
  by (induction rs arbitrary: q rule: promises_of.induct)
    (auto simp: enqueue_job_def split: option.splits)

section \<open>Batches of calls\<close>

text \<open>
  What the engine does when a fixed list of jobs is called in order: the queues play no part, so a
  job that is enqueued meanwhile does not run in the same batch.
\<close>

fun engine_calls ::
  "('w, 'j, 'i, 'e) engine \<Rightarrow> 'j list \<Rightarrow> 'w \<Rightarrow> ('e, unit) result \<times> ('j, 'i) requests \<times> 'w" where
  "engine_calls en [] w = (Inr (), [], w)"
| "engine_calls en (j # js) w =
     (case en_call en j w of
        (Inl e, rs, w') \<Rightarrow> (Inl e, rs, w')
      | (Inr _, rs, w') \<Rightarrow>
          (case engine_calls en js w' of (r, rs', w'') \<Rightarrow> (r, rs @ rs', w'')))"

lemma call_all_eq:
  "call_all ic en js (q, w) =
     (case engine_calls en js w of
        (r, rs, w') \<Rightarrow> (map_err EngineError r, (enqueue_all ic en rs q, w')))"
  by (induction js arbitrary: q w)
    (auto simp: call_job_def enqueue_all_append case_prod_unfold map_err_def split: sum.splits)

lemma call_all_deadline: "q_deadline (fst (snd (call_all ic en js s))) = q_deadline (fst s)"
  by (cases s) (simp add: call_all_eq case_prod_unfold)

lemma call_all_timers:
  "timers_inv (q_timeout (fst s)) \<Longrightarrow> timers_inv (q_timeout (fst (snd (call_all ic en js s))))"
  by (cases s) (simp add: call_all_eq case_prod_unfold enqueue_all_timers)

lemma call_generic_deadline: "q_deadline (fst (snd (call_generic ic en g s))) = q_deadline (fst s)"
  by (cases s) (simp add: call_generic_def call_job_def case_prod_unfold split: generic_job.splits)

lemma call_generic_timers:
  "timers_inv (q_timeout (fst s)) \<Longrightarrow> timers_inv (q_timeout (fst (snd (call_generic ic en g s))))"
  by (cases s)
    (simp add: call_generic_def call_job_def case_prod_unfold enqueue_all_timers
      split: generic_job.splits)

section \<open>Properties of draining\<close>

text \<open>
  A turn takes exactly the timers that are due and not cancelled, ordered by instant and
  then by the order in which they were set; timers that are cancelled disappear, the others stay.
\<close>

theorem take_due_spec:
  assumes "timers_inv (q_timeout q)" and "en_now en w = (now, w')"
    and "take_due en (q, w) = (due, (q', w''))"
  shows "due = map snd (filter (\<lambda>e. fst e \<le> now \<and> \<not> en_cancelled en (snd e) w') (timers_list (q_timeout q)))
    \<and> timers_list (q_timeout q') =
        filter (\<lambda>e. now < fst e \<and> \<not> en_cancelled en (snd e) w') (timers_list (q_timeout q))
    \<and> sorted (map fst (timers_list (q_timeout q))) \<and> timers_inv (q_timeout q')"
proof -
  let ?m = "timers_retain (\<lambda>j. \<not> en_cancelled en j w') (q_timeout q)"
  have inv: "timers_inv ?m" using assms(1) by (rule timers_retain_inv)
  have due: "due = fst (pop_due now ?m [])" "q_timeout q' = snd (pop_due now ?m [])"
    using assms(2,3) by (auto simp: take_due_def case_prod_unfold)
  have sorted: "sorted (map fst (filter (\<lambda>e. \<not> en_cancelled en (snd e) w') (timers_list (q_timeout q))))"
    using timers_list_sorted [OF inv] by (simp add: timers_retain_list)
  show ?thesis
    unfolding due
    using pop_due_list [OF inv, of now "[]"] timers_list_sorted [OF assms(1)]
    by (simp add: timers_retain_list takeWhile_eq_filter_sorted [OF sorted]
        dropWhile_eq_filter_sorted [OF sorted] conj_commute)
qed

text \<open>
  Timers set one after the other fire ordered by their instants, and in the order in
  which they were set when the instants are equal: the map is a stable sort of the requests.
\<close>

theorem timers_fire_in_order:
  "fst (pop_due now (fold (\<lambda>(at, t). timers_push at t) xs []) []) =
     map snd (sort_key fst (filter (\<lambda>e. fst e \<le> now) xs))"
  by (rule btree.due_after_pushes)

text \<open>
  Promise jobs run first in, first out, and a promise job created by another one waits
  for the next turn: the turn runs the promise jobs that were queued after its generic job, and when
  it succeeds the queue holds exactly the promise jobs created meanwhile, in order.
\<close>

theorem promise_jobs_fifo:
  assumes "drain_timeout_jobs ic en s = (Inr (), s1)" and "drain_one_generic ic en s1 = (Inr (), (q, w))"
    and "engine_calls en (q_promise q) w = (r, requests, w')" and "drain_jobs ic en s = (r', (q', w''))"
  shows "q_promise q' = promises_of requests \<and> r' = map_err EngineError r"
  using assms
  by (auto simp: drain_jobs_def call_all_eq enqueue_all_promise map_err_def split: sum.splits)

section \<open>The loop\<close>

lemma deadline_exceeded_True:
  "deadline_exceeded en st = (True, st') \<longleftrightarrow>
     (\<exists>d now w. q_deadline (rn_queue st) = Some d \<and> en_now en (rn_world st) = (now, w) \<and> d \<le> now
        \<and> st' = st\<lparr>rn_world := w\<rparr>)"
  by (auto simp: deadline_exceeded_def split: option.splits prod.splits)

lemma deadline_exceeded_keeps:
  "rn_queue (snd (deadline_exceeded en st)) = rn_queue st"
  "rn_group (snd (deadline_exceeded en st)) = rn_group st"
  "rn_in_flight (snd (deadline_exceeded en st)) = rn_in_flight st"
  "rn_stop (snd (deadline_exceeded en st)) = rn_stop st"
  by (simp_all add: deadline_exceeded_def case_prod_unfold split: option.splits)

text \<open>How a turn returns.\<close>

lemma loop_turn_Complete:
  assumes "loop_turn ic en should_stop on_stop st = Returned (Inr Complete) st'"
  shows "\<exists>st1 st2. check_stop should_stop on_stop st = (Inr (), st1)
    \<and> deadline_exceeded en st1 = (False, st2) \<and> st' = start_async st2 \<and> quiescent st'"
  using assms
  by (auto simp: loop_turn_def Let_def
      split: prod.splits sum.splits bool.splits if_splits)

lemma loop_turn_Deadline:
  assumes "loop_turn ic en should_stop on_stop st = Returned (Inr (DeadlineExceeded snap)) st'"
  shows "\<exists>st0. deadline_exceeded en st0 = (True, st')
    \<and> snap = snapshot (rn_queue st') (rn_in_flight st')"
  using assms
  by (auto simp: loop_turn_def Let_def
      split: prod.splits sum.splits bool.splits if_splits)

lemma run_loop_Some:
  assumes "run_loop ic en should_stop on_stop fuel st = Some (r, st')"
  shows "\<exists>st0. loop_turn ic en should_stop on_stop st0 = Returned r st'"
  using assms
  by (induction fuel arbitrary: st) (auto split: turn.splits)

text \<open>
  The executor reports completion only when nothing is left to run: no future is in
  flight and all four queues are empty.
\<close>

theorem complete_only_when_quiescent:
  assumes "run_loop ic en should_stop on_stop fuel st = Some (Inr Complete, st')"
  shows "rn_group st' = [] \<and> q_async (rn_queue st') = []
    \<and> snapshot (rn_queue st') 0 =
        \<lparr>qs_in_flight_async_jobs = 0, qs_promise_jobs = 0, qs_timeout_jobs = 0, qs_generic_jobs = 0\<rparr>"
proof -
  obtain st0 where "loop_turn ic en should_stop on_stop st0 = Returned (Inr Complete) st'"
    using run_loop_Some [OF assms] by blast
  then obtain st2 where "st' = start_async st2" "quiescent st'" using loop_turn_Complete by blast
  then show ?thesis
    by (simp add: quiescent_def start_async_def snapshot_def timers_count_def Let_def)
qed

text \<open>
  The executor gives up only past its deadline: it then has a deadline, the last clock
  reading is at or after it, and the reported snapshot counts the jobs that are left.
\<close>

theorem deadline_exit_only_past_deadline:
  assumes "run_loop ic en should_stop on_stop fuel st = Some (Inr (DeadlineExceeded snap), st')"
  shows "\<exists>d w now. q_deadline (rn_queue st') = Some d \<and> en_now en w = (now, rn_world st') \<and> d \<le> now
    \<and> snap = \<lparr>qs_in_flight_async_jobs = rn_in_flight st',
               qs_promise_jobs = length (q_promise (rn_queue st')),
               qs_timeout_jobs = length (timers_list (q_timeout (rn_queue st'))),
               qs_generic_jobs = length (q_generic (rn_queue st'))\<rparr>"
proof -
  obtain st0 where "loop_turn ic en should_stop on_stop st0 = Returned (Inr (DeadlineExceeded snap)) st'"
    using run_loop_Some [OF assms] by blast
  then obtain st1 where "deadline_exceeded en st1 = (True, st')"
    "snap = snapshot (rn_queue st') (rn_in_flight st')"
    using loop_turn_Deadline by blast
  then show ?thesis
    by (auto simp: deadline_exceeded_True snapshot_def timers_count_list) blast
qed

lemma complete_delivers_mainD:
  assumes "\<And>w. should_stop (snd (en_now en w)) = should_stop w"
    and "run_loop ic en should_stop on_stop fuel st = Some (Inr Complete, st')"
  shows "rn_stop st' = None \<longrightarrow> \<not> should_stop (rn_world st')"
proof -
  obtain st0 where "loop_turn ic en should_stop on_stop st0 = Returned (Inr Complete) st'"
    using run_loop_Some [OF assms(2)] by blast
  then obtain st1 st2 where c: "check_stop should_stop on_stop st0 = (Inr (), st1)"
    "deadline_exceeded en st1 = (False, st2)" "st' = start_async st2"
    using loop_turn_Complete by blast
  have "rn_stop st1 = None \<longrightarrow> \<not> should_stop (rn_world st1)"
    using c(1) by (auto simp: check_stop_def split: if_splits prod.splits sum.splits)
  moreover have "rn_stop st2 = rn_stop st1" "should_stop (rn_world st2) = should_stop (rn_world st1)"
    using c(2) assms(1) [of "rn_world st1"]
    by (auto simp: deadline_exceeded_def split: option.splits prod.splits)
  ultimately show ?thesis using c(3) by (simp add: start_async_def Let_def)
qed

text \<open>
  Property C15: the main result is delivered before completion. If reading the clock does not settle
  the main promise, then a run that completes has invoked the stop callback, or the main promise is
  still pending.
\<close>

theorem complete_delivers_main:
  assumes "\<And>w. should_stop (snd (en_now en w)) = should_stop w"
    and "run_loop ic en should_stop on_stop fuel st = Some (Inr Complete, st')"
  shows "rn_stop st' = None \<longrightarrow> \<not> should_stop (rn_world st')"
  using complete_delivers_mainD [OF assms] .

section \<open>The timer invariant\<close>

text \<open>The map of timers stays sorted, with no empty entry, through every turn.\<close>

abbreviation timers_ok :: "('j, 'i::linorder, 'w, 'o) run_state \<Rightarrow> bool" where
  "timers_ok st \<equiv> timers_inv (q_timeout (rn_queue st))"

lemma take_due_timers:
  "timers_inv (q_timeout (fst s)) \<Longrightarrow> timers_inv (q_timeout (fst (snd (take_due en s))))"
  by (cases s) (simp add: take_due_def case_prod_unfold pop_due_list timers_retain_inv)

lemma drain_jobs_timers:
  assumes "timers_inv (q_timeout (fst s))"
  shows "timers_inv (q_timeout (fst (snd (drain_jobs ic en s))))"
proof -
  define s1 where "s1 = snd (drain_timeout_jobs ic en s)"
  define s2 where "s2 = snd (drain_one_generic ic en s1)"
  have 1: "timers_inv (q_timeout (fst s1))"
    using take_due_timers [OF assms, of en]
    by (simp add: s1_def drain_timeout_jobs_def case_prod_unfold call_all_timers)
  have 2: "timers_inv (q_timeout (fst s2))"
    using 1
    by (cases s1) (auto simp: s2_def drain_one_generic_def call_generic_timers split: list.splits)
  have "snd (drain_jobs ic en s) \<in> {s1, s2}
    \<or> fst (snd (drain_jobs ic en s)) =
        fst (snd (call_all ic en (q_promise (fst s2)) ((fst s2)\<lparr>q_promise := []\<rparr>, snd s2)))"
    by (auto simp: drain_jobs_def s2_def s1_def case_prod_unfold split: sum.splits)
  then show ?thesis using 1 2 by (auto simp: call_all_timers)
qed

lemma poll_group_timers: "timers_ok st \<Longrightarrow> timers_ok (snd (poll_group ic en l st))"
  by (auto simp: poll_group_def Let_def case_prod_unfold enqueue_all_timers
      split: option.splits sum.splits)

lemma wait_stage_timers: "timers_ok st \<Longrightarrow> timers_ok (snd (wait_stage ic en st))"
  by (auto simp: wait_stage_def wait_for_timer_def wait_for_group_def Let_def case_prod_unfold
      poll_group_timers split: option.splits)

lemma check_stop_keeps: "rn_queue (snd (check_stop should_stop on_stop st)) = rn_queue st"
  by (auto simp: check_stop_def split: prod.splits sum.splits)

lemma loop_turn_timers:
  assumes "timers_ok st"
  shows "(loop_turn ic en should_stop on_stop st = Continue st' \<longrightarrow> timers_ok st')
    \<and> (loop_turn ic en should_stop on_stop st = Returned r st' \<longrightarrow> timers_ok st')"
proof -
  define st1 where "st1 = snd (check_stop should_stop on_stop st)"
  define st2 where "st2 = snd (deadline_exceeded en st1)"
  define st4 where "st4 = snd (wait_stage ic en (start_async st2))"
  define st5 where "st5 = snd (deadline_exceeded en st4)"
  have *: "timers_ok st1" "timers_ok st2" "timers_ok (start_async st2)"
    using assms by (simp_all add: st2_def st1_def deadline_exceeded_keeps check_stop_keeps
        start_async_def Let_def)
  then have 4: "timers_ok st4" "timers_ok st5"
    using wait_stage_timers by (simp_all add: st5_def st4_def deadline_exceeded_keeps)
  then have "timers_ok (snd (drain_stage ic en st5))"
    using drain_jobs_timers [of "(rn_queue st5, rn_world st5)" ic en]
    by (simp add: drain_stage_def case_prod_unfold)
  with * 4 show ?thesis
    by (auto simp: loop_turn_def st1_def st2_def st4_def st5_def Let_def
        split: prod.splits sum.splits bool.splits if_splits)
qed

lemma run_loop_timers:
  "timers_ok st \<Longrightarrow> run_loop ic en should_stop on_stop fuel st = Some (r, st') \<Longrightarrow> timers_ok st'"
proof (induction fuel arbitrary: st)
  case (Suc fuel)
  then show ?case
    using loop_turn_timers [OF Suc.prems(1), of ic en should_stop on_stop] by (auto split: turn.splits)
qed simp

section \<open>Waiting\<close>

text \<open>
  No wait of the executor extends past its deadline: with a deadline set, the sleep for
  a timer and the wait for a future are bounded by the milliseconds left until the deadline, and by
  those until the next timer.
\<close>

theorem waits_within_deadline:
  assumes "q_deadline q = Some d"
  shows "sleep_duration ic q at now \<le> from_millis (millis_until_or_zero ic d now)
    \<and> sleep_duration ic q at now \<le> from_millis (millis_until_or_zero ic at now)
    \<and> (\<exists>b. wait_budget ic q now = Some b \<and> b \<le> from_millis (millis_until_or_zero ic d now)
          \<and> (next_timeout_at (q_timeout q) = Some t \<longrightarrow> b \<le> from_millis (millis_until_or_zero ic t now)))"
  using assms by (auto simp: sleep_duration_def wait_budget_def Let_def split: option.splits)

section \<open>Termination\<close>

text \<open>
  The clock reaches the deadline: \<open>left\<close> bounds the readings that can still be before the deadline;
  each such reading uses one up, and nothing the engine does gives time back.
\<close>

definition clock_reaches ::
  "('w, 'j, 'i::linorder, 'e) engine \<Rightarrow> ('w \<Rightarrow> ('e js_error, 'o) result \<times> 'w) \<Rightarrow> 'i \<Rightarrow> ('w \<Rightarrow> nat) \<Rightarrow> bool"
where
  "clock_reaches en on_stop d left \<longleftrightarrow>
     (\<forall>w. left (snd (en_now en w)) < left w \<or> d \<le> fst (en_now en w) \<and> left (snd (en_now en w)) \<le> left w)
     \<and> (\<forall>j w. left (snd (snd (en_call en j w))) \<le> left w)
     \<and> (\<forall>b w. left (en_sleep en b w) \<le> left w)
     \<and> (\<forall>b g w. left (snd (snd (en_next en b g w))) \<le> left w)
     \<and> (\<forall>w. left (en_clear_kept en w) \<le> left w)
     \<and> (\<forall>w. left (snd (on_stop w)) \<le> left w)"

lemma engine_calls_left:
  "clock_reaches en on_stop d left \<Longrightarrow> left (snd (snd (engine_calls en js w))) \<le> left w"
proof (induction js arbitrary: w)
  case (Cons j js)
  have "left (snd (snd (en_call en j w))) \<le> left w" using Cons.prems by (simp add: clock_reaches_def)
  moreover have "left (snd (snd (engine_calls en js (snd (snd (en_call en j w))))))
      \<le> left (snd (snd (en_call en j w)))" by (rule Cons.IH [OF Cons.prems])
  ultimately show ?case by (auto simp: case_prod_unfold split: sum.splits)
qed simp

lemma clock_reaches_le:
  assumes "clock_reaches en on_stop d left"
  shows "left (snd (en_now en w)) \<le> left w" "left (snd (snd (en_call en j w))) \<le> left w"
    "left (en_sleep en b w) \<le> left w" "left (snd (snd (en_next en l g w))) \<le> left w"
    "left (en_clear_kept en w) \<le> left w" "left (snd (on_stop w)) \<le> left w"
  using assms unfolding clock_reaches_def by (metis order.strict_implies_order)+

text \<open>No stage of a turn changes the deadline or gives time back.\<close>

definition stage_ok ::
  "('w \<Rightarrow> nat) \<Rightarrow> ('j, 'i, 'w, 'o) run_state \<Rightarrow> ('j, 'i, 'w, 'o) run_state \<Rightarrow> bool" where
  "stage_ok left st st' \<longleftrightarrow>
     q_deadline (rn_queue st') = q_deadline (rn_queue st) \<and> left (rn_world st') \<le> left (rn_world st)"

lemma stage_ok_trans: "stage_ok left a b \<Longrightarrow> stage_ok left b c \<Longrightarrow> stage_ok left a c"
  by (auto simp: stage_ok_def)

lemma check_stop_ok:
  "clock_reaches en on_stop d left \<Longrightarrow> stage_ok left st (snd (check_stop should_stop on_stop st))"
  using clock_reaches_le(6) [of en on_stop d left "rn_world st"]
  by (auto simp: check_stop_def stage_ok_def split: prod.splits sum.splits)

lemma start_async_ok: "stage_ok left st (start_async st)"
  by (simp add: start_async_def stage_ok_def Let_def)

lemma deadline_exceeded_ok:
  "clock_reaches en on_stop d left \<Longrightarrow> stage_ok left st (snd (deadline_exceeded en st))"
  using clock_reaches_le(1) [of en on_stop d left "rn_world st"]
  by (simp add: deadline_exceeded_def stage_ok_def case_prod_unfold split: option.splits)

lemma deadline_exceeded_False_less:
  "clock_reaches en on_stop d left \<Longrightarrow> q_deadline (rn_queue st) = Some d
   \<Longrightarrow> deadline_exceeded en st = (False, st') \<Longrightarrow> left (rn_world st') < left (rn_world st)"
  unfolding clock_reaches_def deadline_exceeded_def
  by (auto simp: case_prod_unfold dest!: spec [of _ "rn_world st"])

lemma wait_for_timer_ok:
  assumes "clock_reaches en on_stop d left"
  shows "stage_ok left st (wait_for_timer ic en st)"
proof -
  note le = clock_reaches_le [OF assms]
  have "left (en_sleep en b (snd (en_now en w))) \<le> left w" for b w
    using le(1) le(3) le_trans by blast
  then show ?thesis
    using le(1) by (simp add: wait_for_timer_def stage_ok_def Let_def case_prod_unfold split: option.splits)
qed

lemma poll_group_ok:
  "clock_reaches en on_stop d left \<Longrightarrow> stage_ok left st (snd (poll_group ic en l st))"
  using clock_reaches_le(4) [of en on_stop d left l "rn_group st" "rn_world st"]
  by (auto simp: poll_group_def stage_ok_def Let_def case_prod_unfold split: option.splits sum.splits)

lemma wait_stage_ok:
  assumes "clock_reaches en on_stop d left"
  shows "stage_ok left st (snd (wait_stage ic en st))"
proof -
  let ?st = "st\<lparr>rn_world := snd (en_now en (rn_world st))\<rparr>"
  have 1: "stage_ok left st ?st" using clock_reaches_le(1) [OF assms] by (simp add: stage_ok_def)
  have "stage_ok left st (snd (poll_group ic en l ?st))" for l
    using stage_ok_trans [OF 1 poll_group_ok [OF assms]] .
  with 1 have "stage_ok left st (snd (wait_for_group ic en st))"
    by (simp add: wait_for_group_def Let_def case_prod_unfold split: option.splits)
  then show ?thesis using wait_for_timer_ok [OF assms, of st ic] by (simp add: wait_stage_def)
qed

lemma call_all_ok:
  assumes "clock_reaches en on_stop d left"
  shows "left (snd (snd (call_all ic en js s))) \<le> left (snd s)"
  using engine_calls_left [OF assms] by (cases s) (simp add: call_all_eq case_prod_unfold)

lemma drain_jobs_ok:
  assumes c: "clock_reaches en on_stop d left"
  shows "q_deadline (fst (snd (drain_jobs ic en s))) = q_deadline (fst s)
    \<and> left (snd (snd (drain_jobs ic en s))) \<le> left (snd s)"
proof -
  define s1 where "s1 = snd (drain_timeout_jobs ic en s)"
  define s2 where "s2 = snd (drain_one_generic ic en s1)"
  define s3 where "s3 = snd (call_all ic en (q_promise (fst s2)) ((fst s2)\<lparr>q_promise := []\<rparr>, snd s2))"
  note le = clock_reaches_le [OF c]
  have "q_deadline (fst (snd (take_due en s))) = q_deadline (fst s)"
    "left (snd (snd (take_due en s))) \<le> left (snd s)"
    using le(1) by (cases s; simp add: take_due_def case_prod_unfold)+
  then have 1: "q_deadline (fst s1) = q_deadline (fst s)" "left (snd s1) \<le> left (snd s)"
    using call_all_ok [OF c, of ic "fst (take_due en s)" "snd (take_due en s)"]
    by (simp_all add: s1_def drain_timeout_jobs_def case_prod_unfold call_all_deadline)
  have 2: "q_deadline (fst s2) = q_deadline (fst s1)" "left (snd s2) \<le> left (snd s1)"
    using le(2)
    by (cases s1; auto simp: s2_def drain_one_generic_def call_generic_deadline call_generic_def
        call_job_def case_prod_unfold split: list.splits generic_job.splits)+
  have 3: "q_deadline (fst s3) = q_deadline (fst s2)" "left (snd s3) \<le> left (snd s2)"
    using call_all_ok [OF c, of ic "q_promise (fst s2)" "((fst s2)\<lparr>q_promise := []\<rparr>, snd s2)"]
    by (simp_all add: s3_def call_all_deadline)
  have "snd (drain_jobs ic en s) \<in> {s1, s2, s3, (fst s3, en_clear_kept en (snd s3))}"
    by (auto simp: drain_jobs_def s3_def s2_def s1_def case_prod_unfold split: sum.splits)
  then show ?thesis using 1 2 3 le(5) [of "snd s3"] by auto
qed

lemma drain_stage_ok:
  "clock_reaches en on_stop d left \<Longrightarrow> stage_ok left st (snd (drain_stage ic en st))"
  using drain_jobs_ok [of en on_stop d left ic "(rn_queue st, rn_world st)"]
  by (simp add: drain_stage_def stage_ok_def case_prod_unfold)

lemma loop_turn_Continue:
  assumes c: "clock_reaches en on_stop d left" and d: "q_deadline (rn_queue st) = Some d"
    and t: "loop_turn ic en should_stop on_stop st = Continue st'"
  shows "q_deadline (rn_queue st') = Some d \<and> left (rn_world st') < left (rn_world st)"
proof -
  define st1 where "st1 = snd (check_stop should_stop on_stop st)"
  define st2 where "st2 = snd (deadline_exceeded en st1)"
  define st4 where "st4 = snd (wait_stage ic en (start_async st2))"
  define st5 where "st5 = snd (deadline_exceeded en st4)"
  have t': "st' = snd (drain_stage ic en st5)" "deadline_exceeded en st1 = (False, st2)"
    using t by (auto simp: loop_turn_def st1_def st2_def st4_def st5_def Let_def
        split: prod.splits sum.splits bool.splits if_splits)
  have 1: "stage_ok left st st1" unfolding st1_def by (rule check_stop_ok [OF c])
  then have "left (rn_world st2) < left (rn_world st1)"
    using deadline_exceeded_False_less [OF c _ t'(2)] d by (simp add: stage_ok_def)
  moreover have "stage_ok left st2 st'"
    unfolding t' st5_def st4_def
    by (rule stage_ok_trans, rule start_async_ok, rule stage_ok_trans, rule wait_stage_ok [OF c],
        rule stage_ok_trans, rule deadline_exceeded_ok [OF c], rule drain_stage_ok [OF c])
  moreover have "q_deadline (rn_queue st2) = q_deadline (rn_queue st1)"
    by (simp add: st2_def deadline_exceeded_keeps)
  ultimately show ?thesis using 1 d by (auto simp: stage_ok_def)
qed

lemma run_loop_terminatesD:
  assumes "clock_reaches en on_stop d left" and "q_deadline (rn_queue st) = Some d"
    and "left (rn_world st) < fuel"
  shows "\<exists>r st'. run_loop ic en should_stop on_stop fuel st = Some (r, st')"
  using assms
proof (induction fuel arbitrary: st)
  case (Suc fuel)
  show ?case
  proof (cases "loop_turn ic en should_stop on_stop st")
    case (Continue st')
    with Suc.IH [OF Suc.prems(1)] loop_turn_Continue [OF Suc.prems(1,2) Continue] Suc.prems(3)
    show ?thesis by simp
  qed simp
qed simp

text \<open>
  Property C16: the executor returns. With a deadline that the clock reaches, a run returns after at
  most one turn more than the readings that were left, whatever the jobs do.
\<close>

theorem run_loop_terminates:
  assumes "clock_reaches en on_stop d left" and "q_deadline (rn_queue st) = Some d"
    and "left (rn_world st) < fuel"
  shows "\<exists>r st'. run_loop ic en should_stop on_stop fuel st = Some (r, st')"
  using run_loop_terminatesD [OF assms] .

section \<open>Instants of timers\<close>

text \<open>The documented behaviour of \<^verbatim>\<open>JsInstant\<close>: seconds and nanoseconds give that many milliseconds.\<close>

definition clock_laws :: "'i js_clock \<Rightarrow> bool" where
  "clock_laws ic \<longleftrightarrow>
     (\<forall>secs nanos. nanos < 1000000000
        \<longrightarrow> ic_millis ic (ic_new ic secs nanos) = secs * 1000 + nanos div 1000000)"

lemma js_instant_from_millis_Some:
  "js_instant_from_millis ic ms = Some (ic_new ic (ms div 1000) (ms mod 1000 * 1000000))"
proof -
  have "ms mod 1000 * 1000000 < 1000000000" using mod_less_divisor [of 1000 ms] by linarith
  then show ?thesis
    by (simp add: js_instant_from_millis_def checked_mul_u64_def u32_try_from_def u64_max_def u32_max_def)
qed

lemma instant_checked_add_eq:
  "instant_checked_add ic base delta =
     (let ms = ic_millis ic base + as_millis delta
      in if ms \<le> u64_max then Some (ic_new ic (ms div 1000) (ms mod 1000 * 1000000)) else None)"
  by (simp add: instant_checked_add_def checked_add_u128_def u64_try_from_def u64_max_def
      js_instant_from_millis_Some Let_def)

text \<open>
  A timer is entered at the instant whose milliseconds are those of the current instant
  plus the delay; when that does not fit 64 bits the timer is replaced by a job that raises a range
  error, and nothing else changes.
\<close>

theorem set_timeout_spec:
  assumes "clock_laws ic"
  shows "(ic_millis ic now + as_millis (en_timeout en j) \<le> u64_max \<longrightarrow>
      (\<exists>at. enqueue_job ic en (TimeoutJob j, now) q = q\<lparr>q_timeout := timers_push at j (q_timeout q)\<rparr>
         \<and> ic_millis ic at = ic_millis ic now + as_millis (en_timeout en j)))
    \<and> (u64_max < ic_millis ic now + as_millis (en_timeout en j) \<longrightarrow>
        enqueue_job ic en (TimeoutJob j, now) q = q\<lparr>q_generic := q_generic q @
          [RangeErrorJob ''setTimeout delay is too large for the current platform clock'']\<rparr>)"
proof -
  have "ic_millis ic (ic_new ic (ms div 1000) (ms mod 1000 * 1000000)) = ms" for ms
  proof -
    have "ms mod 1000 * 1000000 < 1000000000" using mod_less_divisor [of 1000 ms] by linarith
    with assms have "ic_millis ic (ic_new ic (ms div 1000) (ms mod 1000 * 1000000)) =
        ms div 1000 * 1000 + ms mod 1000 * 1000000 div 1000000"
      unfolding clock_laws_def by blast
    then show ?thesis by simp
  qed
  then show ?thesis by (auto simp: enqueue_job_def instant_checked_add_eq Let_def)
qed

section \<open>A small engine\<close>

text \<open>
  Instants in milliseconds; the world is the time and whether the main promise is settled. Reading
  the clock takes a millisecond. Job 1 creates a promise job, job 8 fails, job 9 is cancelled; a
  future finishes after a millisecond and settles the main promise.
\<close>

definition ms_clock :: "nat js_clock" where
  "ms_clock = \<lparr>ic_new = (\<lambda>s n. s * 1000 + n div 1000000), ic_millis = (\<lambda>i. i)\<rparr>"

definition small_engine :: "(nat \<times> bool, nat, nat, string) engine" where
  "small_engine =
     \<lparr>en_now = (\<lambda>(t, b). (t, (t + 1, b))),
      en_call = (\<lambda>j w. (if j = 8 then Inl ''failed'' else Inr (),
                        if j = 1 then [(PromiseJob 0, fst w)] else [], w)),
      en_timeout = (\<lambda>j. from_millis j),
      en_cancelled = (\<lambda>j w. j = 9),
      en_clear_kept = (\<lambda>w. w),
      en_sleep = (\<lambda>d (t, b). (t + as_millis d, b)),
      en_next = (\<lambda>l g (t, b). (Some (0, Inr ()), [], (t + 1, True)))\<rparr>"

definition settle :: "nat \<times> bool \<Rightarrow> (string js_error, nat) result \<times> nat \<times> bool" where
  "settle w = (Inr (fst w), w)"

lemmas engine_eval = small_engine_def ms_clock_def settle_def loop_turn_def check_stop_def
  deadline_exceeded_def start_async_def start_state_def quiescent_def wait_stage_def
  wait_for_timer_def wait_for_group_def poll_group_def drain_stage_def drain_jobs_def
  drain_timeout_jobs_def drain_one_generic_def take_due_def call_job_def call_generic_def
  enqueue_all_def enqueue_job_def timers_retain_def next_timeout_at_def has_due_timeout_job_def
  wait_budget_def sleep_duration_def millis_until_or_zero_def saturating_sub_def saturating_add_def
  remove_nth_def from_millis_def as_millis_def queue_new_def snapshot_def timers_count_def
  usize_max_def run_jobs_until_then_to_quiescence_def

lemma run_loop_numeral:
  "run_loop ic en should_stop on_stop (numeral k) st =
     (case loop_turn ic en should_stop on_stop st of
        Returned r st' \<Rightarrow> Some (r, st')
      | Continue st' \<Rightarrow> run_loop ic en should_stop on_stop (pred_numeral k) st')"
  by (simp add: numeral_eq_Suc)


theorem take_due_spec_witness:
  "fst (take_due small_engine (queue_new\<lparr>q_timeout := [(3, [4, 9]), (5, [6])]\<rparr>, (4, False))) = [4]
   \<and> timers_inv [(3 :: nat, [4, 9 :: nat]), (5, [6])]"
proof -
  let ?q = "queue_new\<lparr>q_timeout := [(3, [4, 9]), (5, [6])]\<rparr> :: (nat, nat) Queue"
  have inv: "timers_inv (q_timeout ?q)" by (auto simp: timers_inv_def)
  obtain due q' w' where t: "take_due small_engine (?q, (4, False)) = (due, (q', w'))" by (metis surj_pair)
  have "en_now small_engine (4, False) = (4, (5, False))" by (simp add: small_engine_def)
  from take_due_spec [OF inv this t] t inv show ?thesis
    by (simp add: small_engine_def timers_list_def)
qed

theorem promise_jobs_fifo_witness:
  "q_promise (fst (snd (drain_jobs ms_clock small_engine (queue_new\<lparr>q_promise := [1, 2]\<rparr>, (0, False))))) = [0]"
proof -
  let ?q = "queue_new\<lparr>q_promise := [1, 2]\<rparr> :: (nat, nat) Queue"
  have 1: "drain_timeout_jobs ms_clock small_engine (?q, (0, False)) = (Inr (), (?q, (1, False)))"
    "drain_one_generic ms_clock small_engine (?q, (1, False)) = (Inr (), (?q, (1, False)))"
    "engine_calls small_engine (q_promise ?q) (1, False) = (Inr (), [(PromiseJob 0, 1)], (1, False))"
    by (simp_all add: engine_eval)
  obtain r' q' w' where d: "drain_jobs ms_clock small_engine (?q, (0, False)) = (r', (q', w'))"
    by (metis surj_pair)
  from promise_jobs_fifo [OF 1 d] d show ?thesis by simp
qed

theorem complete_only_when_quiescent_witness:
  "\<exists>st. run_loop ms_clock small_engine snd settle 5
      (start_state (queue_new\<lparr>q_promise := [1, 2]\<rparr>) (0, False)) = Some (Inr Complete, st)
    \<and> rn_group st = []"
proof -
  have "\<exists>st. run_loop ms_clock small_engine snd settle 5
      (start_state (queue_new\<lparr>q_promise := [1, 2]\<rparr>) (0, False)) = Some (Inr Complete, st)"
    by (simp add: engine_eval run_loop_numeral)
  then show ?thesis using complete_only_when_quiescent by blast
qed

theorem deadline_exit_only_past_deadline_witness:
  "\<exists>st d. run_loop ms_clock small_engine snd settle 5
      (start_state (queue_new\<lparr>q_timeout := [(1000, [9])], q_deadline := Some 500\<rparr>) (0, False)) =
        Some (Inr (DeadlineExceeded \<lparr>qs_in_flight_async_jobs = 0, qs_promise_jobs = 0,
                     qs_timeout_jobs = 1, qs_generic_jobs = 0\<rparr>), st)
    \<and> q_deadline (rn_queue st) = Some d"
proof -
  have "\<exists>st. run_loop ms_clock small_engine snd settle 5
      (start_state (queue_new\<lparr>q_timeout := [(1000, [9])], q_deadline := Some 500\<rparr>) (0, False)) =
        Some (Inr (DeadlineExceeded \<lparr>qs_in_flight_async_jobs = 0, qs_promise_jobs = 0,
                     qs_timeout_jobs = 1, qs_generic_jobs = 0\<rparr>), st)"
    by (simp add: engine_eval run_loop_numeral)
  then show ?thesis using deadline_exit_only_past_deadline by blast
qed

theorem complete_delivers_main_witness:
  "\<exists>st. run_loop ms_clock small_engine snd settle 5
      (start_state (queue_new\<lparr>q_async := [7]\<rparr>) (0, False)) = Some (Inr Complete, st)
    \<and> snd (rn_world st) \<and> rn_stop st \<noteq> None"
proof -
  have "\<exists>st. run_loop ms_clock small_engine snd settle 5
      (start_state (queue_new\<lparr>q_async := [7]\<rparr>) (0, False)) = Some (Inr Complete, st)
    \<and> snd (rn_world st)"
    by (simp add: engine_eval run_loop_numeral)
  moreover have "\<And>w. snd (snd (en_now small_engine w)) = snd w"
    by (simp add: small_engine_def case_prod_unfold)
  ultimately show ?thesis using complete_delivers_main [of snd small_engine ms_clock settle 5] by blast
qed

theorem waits_within_deadline_witness:
  "sleep_duration ms_clock (queue_new\<lparr>q_deadline := Some 8\<rparr> :: (nat, nat) Queue) 20 5 \<le> from_millis 3"
  using waits_within_deadline [of "queue_new\<lparr>q_deadline := Some 8\<rparr> :: (nat, nat) Queue" 8 ms_clock 20 5 0]
  by (simp add: ms_clock_def millis_until_or_zero_def saturating_sub_def)

theorem run_loop_terminates_witness:
  "\<exists>r st. run_loop ms_clock small_engine snd settle 6
      (start_state (queue_new\<lparr>q_generic := [UserGeneric 1], q_deadline := Some 5\<rparr>) (0, False)) = Some (r, st)"
proof -
  have "clock_reaches small_engine settle 5 (\<lambda>w. 5 - fst w)"
    by (auto simp: clock_reaches_def small_engine_def settle_def case_prod_unfold)
  then show ?thesis
    by (rule run_loop_terminates) (simp_all add: start_state_def)
qed

theorem set_timeout_spec_witness:
  "clock_laws ms_clock
   \<and> (\<exists>at. enqueue_job ms_clock small_engine (TimeoutJob 40, 2) queue_new =
            queue_new\<lparr>q_timeout := timers_push at 40 []\<rparr> \<and> at = 42)"
proof -
  have l: "clock_laws ms_clock" by (simp add: clock_laws_def ms_clock_def)
  have "ic_millis ms_clock 2 + as_millis (en_timeout small_engine 40) \<le> u64_max"
    by (simp add: engine_eval u64_max_def)
  with set_timeout_spec [OF l, of 2 small_engine 40 queue_new] l show ?thesis
    by (simp add: engine_eval)
qed

end
