(* ===== verification/Runtime.thy ===== *)
theory Runtime
  imports Executor_Properties Jobs
begin

text \<open>
  The script runtime, \<^verbatim>\<open>src/internal/runtime.rs\<close>: evaluation of a module, the call of its default
  export, the early reply and the clean-up after a job. What the JavaScript engine and the endpoint
  configuration do is a parameter, the record \<open>host\<close>; the executor is theory \<open>Executor\<close>.
\<close>

section \<open>Host hooks\<close>

datatype OperationType = Reject | Handle

definition hooks_clear :: "nat \<Rightarrow> nat" where
  "hooks_clear pending = 0"

definition has_unhandled_rejections :: "nat \<Rightarrow> bool" where
  "has_unhandled_rejections pending \<longleftrightarrow> pending > 0"

fun promise_rejection_tracker :: "OperationType \<Rightarrow> nat \<Rightarrow> nat" where
  "promise_rejection_tracker Reject pending = saturating_add pending 1"
| "promise_rejection_tracker Handle pending = saturating_sub pending 1"

section \<open>Per-job state\<close>

record ('ep, 'pe, 't) MechanicsState =
  ms_endpoints :: "string \<rightharpoonup> 'ep"
  ms_http_client :: 't
  ms_default_timeout_ms :: "nat option"
  ms_default_response_max_bytes :: "nat option"
  ms_prepared_endpoints :: "string \<rightharpoonup> 'pe"

definition state_endpoint :: "('ep, 'pe, 't) MechanicsState \<Rightarrow> string \<Rightarrow> ('ep \<times> 'pe) option" where
  "state_endpoint st name =
     Option.bind (ms_endpoints st name) (\<lambda>endpoint.
     Option.bind (ms_prepared_endpoints st name) (\<lambda>prepared.
     Some (endpoint, prepared)))"

section \<open>The engine and the configuration\<close>

datatype ('v, 'e) promise_state = Fulfilled 'v | PendingPromise | Rejected 'e

text \<open>
  The operations of the engine: they change the world, may fail with an engine error and may enqueue
  jobs. \<open>ho_rejections\<close> is the counter that the engine's calls of the tracker leave in the world.
\<close>

record ('w, 'j, 'i, 'e, 'v, 'm, 'pr, 'r, 'n, 'ep, 'pe, 't) host =
  ho_prepare :: "'ep \<Rightarrow> ('e, 'pe) result"
  ho_create_realm :: "'w \<Rightarrow> ('e, 'r) result \<times> 'w"
  ho_enter_realm :: "'r \<Rightarrow> 'w \<Rightarrow> 'r \<times> 'w"
  ho_bundle :: "'w \<Rightarrow> 'w"
  ho_set_limits :: "nat \<Rightarrow> nat \<Rightarrow> nat \<Rightarrow> 'w \<Rightarrow> 'w"
  ho_insert_state :: "('ep, 'pe, 't) MechanicsState \<Rightarrow> 'w \<Rightarrow> 'w"
  ho_remove_state :: "'w \<Rightarrow> 'w"
  ho_parse :: "string \<Rightarrow> 'w \<Rightarrow> ('e, 'm) result \<times> 'w"
  ho_load_link_evaluate :: "'m \<Rightarrow> 'w \<Rightarrow> 'pr \<times> ('j, 'i) requests \<times> 'w"
  ho_state :: "'pr \<Rightarrow> 'w \<Rightarrow> ('v, 'e) promise_state"
  ho_from_json :: "'n json \<Rightarrow> 'w \<Rightarrow> ('e, 'v) result \<times> 'w"
  ho_get_default :: "'m \<Rightarrow> 'w \<Rightarrow> ('e, 'v) result \<times> 'w"
  ho_is_function :: "'v \<Rightarrow> 'w \<Rightarrow> bool"
  ho_call :: "'v \<Rightarrow> 'v \<Rightarrow> 'w \<Rightarrow> ('e, 'v) result \<times> ('j, 'i) requests \<times> 'w"
  ho_promise_of :: "'v \<Rightarrow> 'w \<Rightarrow> 'pr \<times> ('j, 'i) requests \<times> 'w"
  ho_to_json :: "'v \<Rightarrow> 'w \<Rightarrow> ('e, 'n json option) result \<times> 'w"
  ho_rejections :: "'w \<Rightarrow> nat"
  ho_set_rejections :: "nat \<Rightarrow> 'w \<Rightarrow> 'w"
  ho_show_error :: "'e js_error \<Rightarrow> string"

record ('w, 'j, 'i, 't) RuntimeInternal =
  ri_world :: 'w
  ri_queue :: "('j, 'i) Queue"
  ri_http_client :: 't
  ri_execution_limits :: MechanicsExecutionLimits
  ri_default_endpoint_timeout_ms :: "nat option"
  ri_default_endpoint_response_max_bytes :: "nat option"

definition runtime_new ::
  "(string, unit) result \<Rightarrow> (string, 'w) result \<Rightarrow> ('w \<Rightarrow> 'w) \<Rightarrow> 't
     \<Rightarrow> (MechanicsError, ('w, 'j, 'i, 't) RuntimeInternal) result"
where
  "runtime_new async_runtime context bundle client =
     bind_ok (map_err (\<lambda>e. runtime_pool (''failed to initialize async job runtime: '' @ e)) async_runtime) (\<lambda>_.
     bind_ok (map_err (\<lambda>e. runtime_pool (''failed to initialize JavaScript context: '' @ e)) context) (\<lambda>w.
     Inr \<lparr>ri_world = bundle w, ri_queue = queue_new, ri_http_client = client,
          ri_execution_limits = limits_default, ri_default_endpoint_timeout_ms = None,
          ri_default_endpoint_response_max_bytes = None\<rparr>))"

definition set_execution_limits ::
  "MechanicsExecutionLimits \<Rightarrow> ('w, 'j, 'i, 't) RuntimeInternal \<Rightarrow> ('w, 'j, 'i, 't) RuntimeInternal" where
  "set_execution_limits l rt = rt\<lparr>ri_execution_limits := l\<rparr>"

definition set_default_endpoint_timeout_ms ::
  "nat option \<Rightarrow> ('w, 'j, 'i, 't) RuntimeInternal \<Rightarrow> ('w, 'j, 'i, 't) RuntimeInternal" where
  "set_default_endpoint_timeout_ms t rt = rt\<lparr>ri_default_endpoint_timeout_ms := t\<rparr>"

definition set_default_endpoint_response_max_bytes ::
  "nat option \<Rightarrow> ('w, 'j, 'i, 't) RuntimeInternal \<Rightarrow> ('w, 'j, 'i, 't) RuntimeInternal" where
  "set_default_endpoint_response_max_bytes n rt = rt\<lparr>ri_default_endpoint_response_max_bytes := n\<rparr>"

section \<open>Computations\<close>

text \<open>
  The body of a run: it changes the queue and the world, may raise an error, and may not return
  within the fuel of the executor.
\<close>

type_synonym ('s, 'e, 'a) comp = "'s \<Rightarrow> (('e, 'a) result \<times> 's) option"

definition cret :: "'a \<Rightarrow> ('s, 'e, 'a) comp" where
  "cret a s = Some (Inr a, s)"

definition craise :: "'e \<Rightarrow> ('s, 'e, 'a) comp" where
  "craise e s = Some (Inl e, s)"

definition cbind :: "('s, 'e, 'a) comp \<Rightarrow> ('a \<Rightarrow> ('s, 'e, 'b) comp) \<Rightarrow> ('s, 'e, 'b) comp" where
  "cbind m f s =
     (case m s of
        None \<Rightarrow> None
      | Some (Inl e, s') \<Rightarrow> Some (Inl e, s')
      | Some (Inr a, s') \<Rightarrow> f a s')"

text \<open>Operations of the engine as computations.\<close>

definition engine_op ::
  "('w \<Rightarrow> ('e, 'a) result \<times> 'w) \<Rightarrow> (('j, 'i, 'w) exec, 'e js_error, 'a) comp" where
  "engine_op f s = (case s of (q, w) \<Rightarrow> case f w of (r, w') \<Rightarrow> Some (map_err EngineError r, (q, w')))"

definition engine_op_jobs ::
  "'i js_clock \<Rightarrow> ('w, 'j, 'i::linorder, 'e) engine \<Rightarrow> ('w \<Rightarrow> ('e, 'a) result \<times> ('j, 'i) requests \<times> 'w)
     \<Rightarrow> (('j, 'i, 'w) exec, 'e js_error, 'a) comp"
where
  "engine_op_jobs ic en f s =
     (case s of (q, w) \<Rightarrow>
        case f w of (r, rs, w') \<Rightarrow> Some (map_err EngineError r, (enqueue_all ic en rs q, w')))"

definition compute_deadline ::
  "'i js_clock \<Rightarrow> ('w, 'j, 'i::linorder, 'e) engine \<Rightarrow> duration \<Rightarrow> 'w \<Rightarrow> ('e js_error, 'i) result \<times> 'w"
where
  "compute_deadline ic en max_execution_time w =
     (case en_now en w of (now, w') \<Rightarrow>
        let too_large = RangeError ''Configured max_execution_time is too large''
        in (bind_ok (ok_or too_large
              (checked_add_u128 (ic_millis ic now) (as_millis max_execution_time))) (\<lambda>deadline_ms.
            if deadline_ms > u64_max then Inl too_large
            else
              bind_ok (ok_or too_large (u64_try_from deadline_ms)) (\<lambda>deadline_ms.
              bind_ok (ok_or too_large (checked_mul_u64 (deadline_ms mod 1000) 1000000)) (\<lambda>nanos.
              bind_ok (ok_or too_large (u32_try_from nanos)) (\<lambda>nanos.
              Inr (ic_new ic (deadline_ms div 1000) nanos))))), w'))"

section \<open>Running a job\<close>

type_synonym 'n reply = "(MechanicsError, 'n json) result"

datatype RunSourceOutcome = MainReplied | MainNotReplied MechanicsError

record tail_log =
  tl_job_id :: string
  tl_queued :: nat
  tl_snapshot :: QueueSnapshot

definition js_error_to_execution ::
  "('w, 'j, 'i, 'e, 'v, 'm, 'pr, 'r, 'n, 'ep, 'pe, 't) host \<Rightarrow> 'e js_error \<Rightarrow> MechanicsError" where
  "js_error_to_execution ho e = execution (ho_show_error ho e)"

definition main_pending_error :: "'e js_error" where
  "main_pending_error = RuntimeLimit ''Default export promise did not settle''"

definition js_value_to_json ::
  "('w, 'j, 'i, 'e, 'v, 'm, 'pr, 'r, 'n, 'ep, 'pe, 't) host \<Rightarrow> 'v \<Rightarrow> 'w \<Rightarrow> 'n reply \<times> 'w" where
  "js_value_to_json ho v w =
     (case ho_to_json ho v w of
        (Inl e, w') \<Rightarrow> (Inl (js_error_to_execution ho (EngineError e)), w')
      | (Inr d, w') \<Rightarrow> (Inr (case d of None \<Rightarrow> JNull | Some x \<Rightarrow> x), w'))"

definition is_pending ::
  "('w, 'j, 'i, 'e, 'v, 'm, 'pr, 'r, 'n, 'ep, 'pe, 't) host \<Rightarrow> 'pr \<Rightarrow> 'w \<Rightarrow> bool" where
  "is_pending ho p w = (case ho_state ho p w of PendingPromise \<Rightarrow> True | _ \<Rightarrow> False)"

text \<open>The closure that is called when the main promise has settled.\<close>

definition main_result ::
  "('w, 'j, 'i, 'e, 'v, 'm, 'pr, 'r, 'n, 'ep, 'pe, 't) host \<Rightarrow> 'pr \<Rightarrow> 'w \<Rightarrow> 'n reply \<times> 'w" where
  "main_result ho p w =
     (case ho_state ho p w of
        Fulfilled v \<Rightarrow> js_value_to_json ho v w
      | PendingPromise \<Rightarrow> (Inl (js_error_to_execution ho main_pending_error), w)
      | Rejected e \<Rightarrow> (Inl (js_error_to_execution ho (EngineError e)), w))"

definition log_tail_poll_aborted :: "string \<Rightarrow> QueueSnapshot \<Rightarrow> tail_log" where
  "log_tail_poll_aborted job_id snap =
     \<lparr>tl_job_id = job_id,
      tl_queued = saturating_add (saturating_add (qs_promise_jobs snap) (qs_timeout_jobs snap))
                    (qs_generic_jobs snap),
      tl_snapshot = snap\<rparr>"

fun prepare_endpoints ::
  "('w, 'j, 'i, 'e, 'v, 'm, 'pr, 'r, 'n, 'ep, 'pe, 't) host \<Rightarrow> (string \<times> 'ep) list \<Rightarrow> (string \<rightharpoonup> 'pe)
     \<Rightarrow> (MechanicsError, string \<rightharpoonup> 'pe) result"
where
  "prepare_endpoints ho [] acc = Inr acc"
| "prepare_endpoints ho ((name, endpoint) # eps) acc =
     (case ho_prepare ho endpoint of
        Inl e \<Rightarrow> Inl (js_error_to_execution ho (EngineError e))
      | Inr prepared \<Rightarrow> prepare_endpoints ho eps (acc(name \<mapsto> prepared)))"

text \<open>Evaluation of the module: parse, evaluate, run its jobs, and require that it settled.\<close>

definition run_module ::
  "('w, 'j, 'i::linorder, 'e, 'v, 'm, 'pr, 'r, 'n, 'ep, 'pe, 't) host \<Rightarrow> 'i js_clock
     \<Rightarrow> ('w, 'j, 'i, 'e) engine \<Rightarrow> nat \<Rightarrow> string \<Rightarrow> (('j, 'i, 'w) exec, 'e js_error, 'm) comp"
where
  "run_module ho ic en fuel source =
     cbind (engine_op (ho_parse ho source)) (\<lambda>m.
     cbind (engine_op_jobs ic en (\<lambda>w.
       case ho_load_link_evaluate ho m w of (p, rs, w') \<Rightarrow> (Inr p, rs, w'))) (\<lambda>p.
     cbind (run_jobs ic en fuel) (\<lambda>_ s.
       case ho_state ho p (snd s) of
         Fulfilled v \<Rightarrow>
           if has_unhandled_rejections (ho_rejections ho (snd s))
           then craise (PlainError ''Unhandled promise rejection'') s else cret m s
       | PendingPromise \<Rightarrow> craise (RuntimeLimit ''Module evaluation promise did not settle'') s
       | Rejected e \<Rightarrow> craise (EngineError e) s)))"

text \<open>The call of the default export.\<close>

definition call_main ::
  "('w, 'j, 'i::linorder, 'e, 'v, 'm, 'pr, 'r, 'n, 'ep, 'pe, 't) host \<Rightarrow> 'i js_clock
     \<Rightarrow> ('w, 'j, 'i, 'e) engine \<Rightarrow> 'n json \<Rightarrow> 'm \<Rightarrow> (('j, 'i, 'w) exec, 'e js_error, 'pr) comp"
where
  "call_main ho ic en arg m =
     cbind (engine_op (ho_from_json ho arg)) (\<lambda>a.
     cbind (engine_op (ho_get_default ho m)) (\<lambda>f s.
       if ho_is_function ho f (snd s) then
         cbind (engine_op_jobs ic en (ho_call ho f a)) (\<lambda>res.
           engine_op_jobs ic en (\<lambda>w.
             case ho_promise_of ho res w of (p, rs, w') \<Rightarrow> (Inr p, rs, w'))) s
       else craise (ReferenceError ''Default export is not a function'') s))"

text \<open>Polling until the main promise settles, the early reply, and polling of the tail.\<close>

definition run_tail ::
  "('w, 'j, 'i::linorder, 'e, 'v, 'm, 'pr, 'r, 'n, 'ep, 'pe, 't) host \<Rightarrow> 'i js_clock
     \<Rightarrow> ('w, 'j, 'i, 'e) engine \<Rightarrow> nat \<Rightarrow> 'pr \<Rightarrow> ('j, 'i, 'w) exec
     \<Rightarrow> (('e js_error, RunJobsExit) result \<times> 'n reply option \<times> ('j, 'i, 'w) exec) option"
where
  "run_tail ho ic en fuel p s =
     map_option (\<lambda>(r, st). (r, rn_stop st, (rn_queue st, rn_world st)))
       (run_jobs_until_then_to_quiescence ic en (\<lambda>w. \<not> is_pending ho p w)
          (\<lambda>w. case main_result ho p w of (r, w') \<Rightarrow> (Inr r, w')) fuel s)"

text \<open>The closure of the run: its result and the early reply, if one was made.\<close>

definition run_body ::
  "('w, 'j, 'i::linorder, 'e, 'v, 'm, 'pr, 'r, 'n, 'ep, 'pe, 't) host \<Rightarrow> 'i js_clock
     \<Rightarrow> ('w, 'j, 'i, 'e) engine \<Rightarrow> nat \<Rightarrow> string \<Rightarrow> 'n json \<Rightarrow> ('j, 'i, 'w) exec
     \<Rightarrow> (('e js_error, RunJobsExit) result \<times> 'n reply option \<times> ('j, 'i, 'w) exec) option"
where
  "run_body ho ic en fuel source arg s =
     (case cbind (run_module ho ic en fuel source) (call_main ho ic en arg) s of
        None \<Rightarrow> None
      | Some (Inl e, s1) \<Rightarrow> Some (Inl e, None, s1)
      | Some (Inr p, s1) \<Rightarrow>
          (case run_tail ho ic en fuel p s1 of
             None \<Rightarrow> None
           | Some (Inl e, reply, s2) \<Rightarrow> Some (Inl e, reply, s2)
           | Some (Inr exit, reply, s2) \<Rightarrow>
               if Option.is_none reply \<and> is_pending ho p (snd s2)
               then Some (Inl main_pending_error, reply, s2)
               else Some (Inr exit, reply, s2)))"

definition run_outcome ::
  "('w, 'j, 'i, 'e, 'v, 'm, 'pr, 'r, 'n, 'ep, 'pe, 't) host \<Rightarrow> ('e js_error, RunJobsExit) result
     \<Rightarrow> 'n reply option \<Rightarrow> RunSourceOutcome"
where
  "run_outcome ho r reply =
     (case (r, reply) of
        (Inr _, Some _) \<Rightarrow> MainReplied
      | (Inr _, None) \<Rightarrow>
          MainNotReplied (execution ''run_source_with_early_reply returned without producing a main result'')
      | (Inl e, Some _) \<Rightarrow> MainReplied
      | (Inl e, None) \<Rightarrow> MainNotReplied (js_error_to_execution ho e))"

text \<open>What a run gives: its outcome, the replies it sent, the tail it aborted, and the runtime.\<close>

record ('w, 'j, 'i, 'n, 't) run_result =
  rs_outcome :: RunSourceOutcome
  rs_replies :: "'n reply list"
  rs_log :: "tail_log option"
  rs_runtime :: "('w, 'j, 'i, 't) RuntimeInternal"

definition not_started ::
  "MechanicsError \<Rightarrow> ('w, 'j, 'i, 't) RuntimeInternal \<Rightarrow> ('w, 'j, 'i, 'n, 't) run_result" where
  "not_started e rt = \<lparr>rs_outcome = MainNotReplied e, rs_replies = [], rs_log = None, rs_runtime = rt\<rparr>"

text \<open>The clean-up after the closure, on every path.\<close>

definition clean_up ::
  "('w, 'j, 'i, 'e, 'v, 'm, 'pr, 'r, 'n, 'ep, 'pe, 't) host \<Rightarrow> 'r \<Rightarrow> ('j, 'i, 'w) exec
     \<Rightarrow> ('w, 'j, 'i, 't) RuntimeInternal \<Rightarrow> ('w, 'j, 'i, 't) RuntimeInternal"
where
  "clean_up ho previous s rt =
     (case s of (q, w) \<Rightarrow>
        rt\<lparr>ri_queue := clear_all (set_deadline None q),
           ri_world := snd (ho_enter_realm ho previous
             (ho_set_rejections ho (hooks_clear (ho_rejections ho w)) (ho_remove_state ho w)))\<rparr>)"

definition finish_run ::
  "('w, 'j, 'i, 'e, 'v, 'm, 'pr, 'r, 'n, 'ep, 'pe, 't) host \<Rightarrow> string \<Rightarrow> 'r
     \<Rightarrow> ('w, 'j, 'i, 't) RuntimeInternal
     \<Rightarrow> ('e js_error, RunJobsExit) result \<times> 'n reply option \<times> ('j, 'i, 'w) exec
     \<Rightarrow> ('w, 'j, 'i, 'n, 't) run_result"
where
  "finish_run ho job_id previous rt b =
     (case b of (r, reply, s) \<Rightarrow>
        \<lparr>rs_outcome = run_outcome ho r reply,
         rs_replies = (case reply of None \<Rightarrow> [] | Some x \<Rightarrow> [x]),
         rs_log = (case r of
             Inr (DeadlineExceeded snap) \<Rightarrow> Some (log_tail_poll_aborted job_id snap)
           | _ \<Rightarrow> None),
         rs_runtime = clean_up ho previous s rt\<rparr>)"

definition run_source_with_early_reply ::
  "('w, 'j, 'i::linorder, 'e, 'v, 'm, 'pr, 'r, 'n, 'ep, 'pe, 't) host \<Rightarrow> 'i js_clock
     \<Rightarrow> ('w, 'j, 'i, 'e) engine \<Rightarrow> nat \<Rightarrow> ('n, (string \<times> 'ep) list) MechanicsJob \<Rightarrow> string
     \<Rightarrow> ('w, 'j, 'i, 't) RuntimeInternal \<Rightarrow> ('w, 'j, 'i, 'n, 't) run_result option"
where
  "run_source_with_early_reply ho ic en fuel job job_id rt0 =
     (case into_parts job of (source, arg, config) \<Rightarrow>
      let w0 = ri_world rt0;
          rt = rt0\<lparr>ri_world := ho_set_rejections ho (hooks_clear (ho_rejections ho w0)) w0\<rparr>;
          limits = ri_execution_limits rt
      in case prepare_endpoints ho config Map.empty of
           Inl e \<Rightarrow> Some (not_started e rt)
         | Inr prepared \<Rightarrow>
      let state = \<lparr>ms_endpoints = map_of config, ms_http_client = ri_http_client rt,
                   ms_default_timeout_ms = ri_default_endpoint_timeout_ms rt,
                   ms_default_response_max_bytes = ri_default_endpoint_response_max_bytes rt,
                   ms_prepared_endpoints = prepared\<rparr>
      in case compute_deadline ic en (el_max_execution_time limits) (ri_world rt) of
           (Inl e, w1) \<Rightarrow> Some (not_started (js_error_to_execution ho e) (rt\<lparr>ri_world := w1\<rparr>))
         | (Inr deadline, w1) \<Rightarrow>
      (case ho_create_realm ho w1 of
         (Inl e, w2) \<Rightarrow>
           Some (not_started (js_error_to_execution ho (EngineError e)) (rt\<lparr>ri_world := w2\<rparr>))
       | (Inr realm, w2) \<Rightarrow>
      (case ho_enter_realm ho realm w2 of (previous, w3) \<Rightarrow>
      let w4 = ho_insert_state ho state
                 (ho_set_limits ho (el_max_loop_iterations limits) (el_max_recursion_depth limits)
                   (el_max_stack_size limits) (ho_bundle ho w3))
      in map_option (finish_run ho job_id previous rt)
           (run_body ho ic en fuel source arg (set_deadline (Some deadline) (ri_queue rt), w4)))))"

definition run_source ::
  "('w, 'j, 'i::linorder, 'e, 'v, 'm, 'pr, 'r, 'n, 'ep, 'pe, 't) host \<Rightarrow> 'i js_clock
     \<Rightarrow> ('w, 'j, 'i, 'e) engine \<Rightarrow> nat \<Rightarrow> ('n, (string \<times> 'ep) list) MechanicsJob
     \<Rightarrow> ('w, 'j, 'i, 't) RuntimeInternal \<Rightarrow> 'n reply option"
where
  "run_source ho ic en fuel job rt =
     map_option (\<lambda>res.
         case rs_outcome res of
           MainReplied \<Rightarrow>
             (case rs_replies res of
                [] \<Rightarrow> Inl (execution ''script reported main reply but no value was captured'')
              | rep # _ \<Rightarrow> rep)
         | MainNotReplied e \<Rightarrow> Inl e)
       (run_source_with_early_reply ho ic en fuel job ''direct'' rt)"

end
