(* ===== verification/Runtime_Properties.thy ===== *)
theory Runtime_Properties
  imports Runtime
begin

text \<open>
  Correctness of the script runtime: one answer per job, a clean runtime after every job, what the
  answer is, that a run returns, and the case in which a settled main result is lost.
\<close>

section \<open>The executor with more fuel\<close>

lemma run_loop_mono:
  "run_loop ic en should_stop on_stop fuel st = Some x \<Longrightarrow> fuel \<le> fuel'
   \<Longrightarrow> run_loop ic en should_stop on_stop fuel' st = Some x"
proof (induction fuel arbitrary: st fuel')
  case (Suc fuel)
  then obtain n where "fuel' = Suc n" "fuel \<le> n" by (cases fuel') auto
  with Suc show ?case by (auto split: turn.splits)
qed simp

lemma run_jobs_mono:
  "run_jobs ic en fuel s = Some x \<Longrightarrow> fuel \<le> fuel' \<Longrightarrow> run_jobs ic en fuel' s = Some x"
  unfolding run_jobs_def run_jobs_until_then_to_quiescence_def
  using run_loop_mono by (cases s) fastforce





text \<open>A run is refused before it starts, or is the closure followed by the clean-up.\<close>

lemma run_source_shape:
  obtains (refused) e w where
      "\<And>fuel. run_source_with_early_reply ho ic en fuel job job_id rt = Some (not_started e (rt\<lparr>ri_world := w\<rparr>))"
  | (ran) source arg d w previous w' where
      "\<And>fuel. run_source_with_early_reply ho ic en fuel job job_id rt =
         map_option (finish_run ho job_id previous (rt\<lparr>ri_world := w'\<rparr>))
           (run_body ho ic en fuel source arg (set_deadline (Some d) (ri_queue rt), w))"
proof -
  define w0 where "w0 = ho_set_rejections ho (hooks_clear (ho_rejections ho (ri_world rt))) (ri_world rt)"
  define c where "c = compute_deadline ic en (el_max_execution_time (ri_execution_limits rt)) w0"
  define r where "r = ho_create_realm ho (snd c)"
  note defs = run_source_with_early_reply_def into_parts_def Let_def case_prod_unfold
    w0_def [symmetric] c_def [symmetric] r_def [symmetric]
  show ?thesis
  proof (cases "prepare_endpoints ho (mj_config job) Map.empty")
    case (Inl e)
    then show ?thesis using refused [of e w0] by (simp add: defs)
  next
    case (Inr prepared)
    note p = Inr
    show ?thesis
    proof (cases "fst c")
      case (Inl e)
      then show ?thesis using refused [of "js_error_to_execution ho e" "snd c"] p by (simp add: defs)
    next
      case (Inr d)
      with p show ?thesis
        using refused [of "js_error_to_execution ho (EngineError (projl (fst r)))" "snd r"] ran
        by (cases "fst r") (simp_all add: defs)
    qed
  qed
qed

lemma run_source_cases:
  assumes "run_source_with_early_reply ho ic en fuel job job_id rt = Some res"
  obtains (refused) e w where "res = not_started e (rt\<lparr>ri_world := w\<rparr>)"
  | (ran) source arg d w previous w' b where
      "run_body ho ic en fuel source arg (set_deadline (Some d) (ri_queue rt), w) = Some b"
      "res = finish_run ho job_id previous (rt\<lparr>ri_world := w'\<rparr>) b"
  using assms by (cases rule: run_source_shape [of ho ic en job job_id rt]) auto

lemma run_source_cleans:
  assumes "run_source_with_early_reply ho ic en fuel job job_id rt = Some res" and "ri_queue rt = queue_new"
  shows "ri_queue (rs_runtime res) = queue_new"
proof -
  have "clear_all (set_deadline None q) = queue_new" for q :: "('b, 'c) Queue"
    by (simp add: clear_all_def set_deadline_def queue_new_def)
  then show ?thesis
    using assms(2)
    by (cases rule: run_source_cases [OF assms(1)])
      (simp_all add: not_started_def finish_run_def clean_up_def case_prod_unfold)
qed

lemma run_source_settings:
  assumes "run_source_with_early_reply ho ic en fuel job job_id rt = Some res"
  shows "ri_execution_limits (rs_runtime res) = ri_execution_limits rt"
    and "ri_http_client (rs_runtime res) = ri_http_client rt"
    and "ri_default_endpoint_timeout_ms (rs_runtime res) = ri_default_endpoint_timeout_ms rt"
    and "ri_default_endpoint_response_max_bytes (rs_runtime res) = ri_default_endpoint_response_max_bytes rt"
  by (cases rule: run_source_cases [OF assms];
      simp add: not_started_def finish_run_def clean_up_def case_prod_unfold)+

lemma run_source_answer:
  assumes "run_source_with_early_reply ho ic en fuel job job_id rt = Some res"
  obtains (replied) r where "rs_outcome res = MainReplied" "rs_replies res = [r]"
  | (failed) e where "rs_outcome res = MainNotReplied e" "rs_replies res = []"
  using assms
proof (cases rule: run_source_cases)
  case (refused e w)
  then show ?thesis using failed by (simp add: not_started_def)
next
  case (ran source arg d w previous w' b)
  then show ?thesis
    using replied failed
    by (auto simp: finish_run_def run_outcome_def split: prod.splits sum.splits option.splits)
qed

section \<open>Properties\<close>

text \<open>
  Property C18: every job gets exactly one answer. A run either sent exactly one reply and says so, or
  sent none and returns the error the worker has to send.
\<close>

theorem one_answer_per_job:
  assumes "run_source_with_early_reply ho ic en fuel job job_id rt = Some res"
  shows "rs_outcome res = MainReplied \<and> length (rs_replies res) = 1
    \<or> (\<exists>e. rs_outcome res = MainNotReplied e) \<and> rs_replies res = []"
  using assms by (cases rule: run_source_answer) simp_all

text \<open>
  A job leaves nothing behind for the next one. From a runtime whose queues are empty
  and without deadline, every run ends with empty queues and without deadline, on every path, and
  the settings of the runtime are unchanged.
\<close>

theorem runtime_clean_after_run:
  assumes "run_source_with_early_reply ho ic en fuel job job_id rt = Some res" and "ri_queue rt = queue_new"
  shows "ri_queue (rs_runtime res) = queue_new
    \<and> ri_execution_limits (rs_runtime res) = ri_execution_limits rt
    \<and> ri_http_client (rs_runtime res) = ri_http_client rt"
  using run_source_cleans [OF assms] run_source_settings [OF assms(1)] by simp


text \<open>
  A run that ends without a main result and without an error of the script has passed
  its deadline, provided that reading the clock does not settle promises.
\<close>

theorem missing_main_only_at_deadline:
  assumes "\<And>p w. is_pending ho p (snd (en_now en w)) = is_pending ho p w"
    and "run_body ho ic en fuel source arg s = Some (Inr exit, None, s')"
  shows "\<exists>snap. exit = DeadlineExceeded snap"
proof (cases exit)
  case Complete
  obtain p s1 where t: "run_tail ho ic en fuel p s1 = Some (Inr exit, None, s')" "\<not> is_pending ho p (snd s')"
    using assms(2) by (auto simp: run_body_def split: option.splits prod.splits sum.splits if_splits)
  let ?ss = "\<lambda>w. \<not> is_pending ho p w"
  obtain st where st: "run_loop ic en ?ss (\<lambda>w. case main_result ho p w of (r, w') \<Rightarrow> (Inr r, w'))
      fuel (start_state (fst s1) (snd s1)) = Some (Inr Complete, st)"
    "rn_stop st = None" "rn_world st = snd s'"
    using t(1) Complete by (auto simp: run_tail_def run_jobs_until_then_to_quiescence_def case_prod_unfold)
  have "?ss (snd (en_now en w)) = ?ss w" for w using assms(1) by simp
  from complete_delivers_mainD [OF this st(1)] st t(2) show ?thesis by simp
qed simp

section \<open>The deadline of a run\<close>

text \<open>
  The deadline of a job is its start plus the configured execution time, to the
  millisecond; the run is refused with a range error exactly when that does not fit 64 bits.
\<close>

theorem compute_deadline_spec:
  assumes "clock_laws ic" and "en_now en w = (now, w')"
  shows "(ic_millis ic now + as_millis limit \<le> u64_max \<longrightarrow>
      (\<exists>d. compute_deadline ic en limit w = (Inr d, w') \<and> ic_millis ic d = ic_millis ic now + as_millis limit))
    \<and> (u64_max < ic_millis ic now + as_millis limit \<longrightarrow>
      compute_deadline ic en limit w = (Inl (RangeError ''Configured max_execution_time is too large''), w'))"
proof -
  let ?ms = "ic_millis ic now + as_millis limit"
  have n: "?ms mod 1000 * 1000000 < 1000000000" using mod_less_divisor [of 1000 ?ms] by linarith
  then have "?ms mod 1000 * 1000000 \<le> u64_max" "?ms mod 1000 * 1000000 \<le> u32_max"
    by (simp_all add: u64_max_def u32_max_def)
  then have "compute_deadline ic en limit w =
      (if ?ms \<le> u64_max then Inr (ic_new ic (?ms div 1000) (?ms mod 1000 * 1000000))
       else Inl (RangeError ''Configured max_execution_time is too large''), w')"
    using assms(2)
    by (simp add: compute_deadline_def checked_add_u128_def u64_try_from_def u32_try_from_def
        checked_mul_u64_def ok_or_def bind_ok_def u64_max_def Let_def)
  moreover have "ic_millis ic (ic_new ic (?ms div 1000) (?ms mod 1000 * 1000000)) = ?ms"
    using assms(1) n unfolding clock_laws_def by simp
  ultimately show ?thesis by auto
qed

section \<open>Termination\<close>

lemma drain_jobs_deadline: "q_deadline (fst (snd (drain_jobs ic en s))) = q_deadline (fst s)"
proof -
  define s1 where "s1 = snd (drain_timeout_jobs ic en s)"
  define s2 where "s2 = snd (drain_one_generic ic en s1)"
  have 1: "q_deadline (fst s1) = q_deadline (fst s)"
    by (cases s) (simp add: s1_def drain_timeout_jobs_def take_due_def case_prod_unfold call_all_deadline)
  have 2: "q_deadline (fst s2) = q_deadline (fst s1)"
    by (cases s1) (auto simp: s2_def drain_one_generic_def call_generic_deadline split: list.splits)
  have "snd (drain_jobs ic en s) \<in> {s1, s2}
    \<or> fst (snd (drain_jobs ic en s)) =
        fst (snd (call_all ic en (q_promise (fst s2)) ((fst s2)\<lparr>q_promise := []\<rparr>, snd s2)))"
    by (auto simp: drain_jobs_def s2_def s1_def case_prod_unfold split: sum.splits)
  then show ?thesis using 1 2 by (auto simp: call_all_deadline)
qed

lemma wait_stage_deadline: "q_deadline (rn_queue (snd (wait_stage ic en st))) = q_deadline (rn_queue st)"
  by (auto simp: wait_stage_def wait_for_timer_def wait_for_group_def poll_group_def Let_def
      case_prod_unfold split: option.splits sum.splits)

lemma loop_turn_deadline:
  assumes "loop_turn ic en should_stop on_stop st = Continue st'
    \<or> loop_turn ic en should_stop on_stop st = Returned r st'"
  shows "q_deadline (rn_queue st') = q_deadline (rn_queue st)"
proof -
  define st1 where "st1 = snd (check_stop should_stop on_stop st)"
  define st2 where "st2 = snd (deadline_exceeded en st1)"
  define st4 where "st4 = snd (wait_stage ic en (start_async st2))"
  define st5 where "st5 = snd (deadline_exceeded en st4)"
  let ?d = "\<lambda>st. q_deadline (rn_queue st)"
  have "?d st1 = ?d st" "?d st2 = ?d st" "?d (start_async st2) = ?d st" "?d st4 = ?d st" "?d st5 = ?d st"
    "?d (snd (drain_stage ic en st5)) = ?d st"
    by (simp_all add: st5_def st4_def st2_def st1_def deadline_exceeded_keeps check_stop_keeps
        wait_stage_deadline start_async_def drain_stage_def drain_jobs_deadline Let_def case_prod_unfold)
  with assms show ?thesis
    by (auto simp: loop_turn_def st1_def st2_def st4_def st5_def Let_def
        split: prod.splits sum.splits bool.splits if_splits)
qed

lemma run_loop_deadline:
  "run_loop ic en should_stop on_stop fuel st = Some (r, st') \<Longrightarrow>
     q_deadline (rn_queue st') = q_deadline (rn_queue st)"
proof (induction fuel arbitrary: st)
  case (Suc fuel)
  show ?case
  proof (cases "loop_turn ic en should_stop on_stop st")
    case (Returned r' st1)
    with Suc.prems loop_turn_deadline [of ic en should_stop on_stop st st1 r'] show ?thesis by simp
  next
    case (Continue st1)
    with Suc loop_turn_deadline [of ic en should_stop on_stop st st1] show ?thesis by auto
  qed
qed simp

lemma run_until_returns:
  assumes "clock_reaches en on_stop d left" "q_deadline q = Some d"
  shows "\<exists>n r st. q_deadline (rn_queue st) = Some d
    \<and> (\<forall>fuel. n \<le> fuel \<longrightarrow>
         run_jobs_until_then_to_quiescence ic en should_stop on_stop fuel (q, w) = Some (r, st))"
proof -
  let ?st = "start_state q w" and ?n = "Suc (left w)"
  have d: "q_deadline (rn_queue ?st) = Some d" using assms(2) by (simp add: start_state_def)
  obtain r st where st: "run_loop ic en should_stop on_stop ?n ?st = Some (r, st)"
    using run_loop_terminatesD [OF assms(1) d, of ?n ic should_stop] by (auto simp: start_state_def)
  have "\<forall>fuel. ?n \<le> fuel \<longrightarrow>
      run_jobs_until_then_to_quiescence ic en should_stop on_stop fuel (q, w) = Some (r, st)"
    using run_loop_mono [OF st] by (simp add: run_jobs_until_then_to_quiescence_def del: run_loop.simps)
  moreover have "q_deadline (rn_queue st) = Some d" using run_loop_deadline [OF st] d by simp
  ultimately show ?thesis by blast
qed

text \<open>A computation that returns, with one result for all sufficient fuel, and keeps the deadline.\<close>

definition comp_returns ::
  "(nat \<Rightarrow> (('j, 'i, 'w) exec, 'e, 'a) comp) \<Rightarrow> ('j, 'i, 'w) exec \<Rightarrow> 'i \<Rightarrow> bool"
where
  "comp_returns m s d \<longleftrightarrow>
     (\<exists>n r s'. q_deadline (fst s') = Some d \<and> (\<forall>fuel. n \<le> fuel \<longrightarrow> m fuel s = Some (r, s')))"

lemma comp_returnsI:
  "(\<And>fuel. n \<le> fuel \<Longrightarrow> m fuel s = Some (r, s')) \<Longrightarrow> q_deadline (fst s') = Some d \<Longrightarrow> comp_returns m s d"
  unfolding comp_returns_def by blast

lemma comp_returns_once:
  "m s = Some b \<Longrightarrow> q_deadline (fst (snd b)) = Some d \<Longrightarrow> comp_returns (\<lambda>fuel. m) s d"
  by (cases b) (auto intro: comp_returnsI)

lemma comp_returns_bind:
  assumes "comp_returns m s d"
    and "\<And>a s'. q_deadline (fst s') = Some d \<Longrightarrow> comp_returns (\<lambda>fuel. f fuel a) s' d"
  shows "comp_returns (\<lambda>fuel. cbind (m fuel) (f fuel)) s d"
proof -
  obtain n r s' where m: "q_deadline (fst s') = Some d" "\<forall>fuel. n \<le> fuel \<longrightarrow> m fuel s = Some (r, s')"
    using assms(1) unfolding comp_returns_def by blast
  show ?thesis
  proof (cases r)
    case (Inl e)
    with m show ?thesis by (intro comp_returnsI [of n _ _ "Inl e" s']) (simp_all add: cbind_def)
  next
    case (Inr a)
    obtain k r' s'' where "q_deadline (fst s'') = Some d" "\<forall>fuel. k \<le> fuel \<longrightarrow> f fuel a s' = Some (r', s'')"
      using assms(2) [OF m(1), of a] unfolding comp_returns_def by blast
    with m Inr show ?thesis by (intro comp_returnsI [of "max n k" _ _ r' s'']) (simp_all add: cbind_def)
  qed
qed

lemma comp_returns_engine:
  assumes "q_deadline (fst s) = Some d"
  shows "comp_returns (\<lambda>fuel. engine_op f) s d" (is ?op)
    and "comp_returns (\<lambda>fuel. engine_op_jobs ic en g) s d" (is ?jobs)
proof -
  show ?op using assms by (auto simp: engine_op_def case_prod_unfold intro: comp_returns_once)
  show ?jobs using assms by (auto simp: engine_op_jobs_def case_prod_unfold intro: comp_returns_once)
qed

lemma comp_returns_run_jobs:
  assumes "clock_reaches en (\<lambda>w. (Inr () :: ('e js_error, unit) result, w)) d left" "q_deadline (fst s) = Some d"
  shows "comp_returns (\<lambda>fuel. run_jobs ic (en :: ('w, 'j, 'i::linorder, 'e) engine) fuel) s d"
proof -
  obtain n r st where "q_deadline (rn_queue st) = Some d"
    "\<forall>fuel. n \<le> fuel \<longrightarrow> run_jobs_until_then_to_quiescence ic en (\<lambda>_. False)
       (\<lambda>w. (Inr () :: ('e js_error, unit) result, w)) fuel (fst s, snd s) = Some (r, st)"
    using run_until_returns [OF assms, of ic "\<lambda>_. False" "snd s"] by blast
  then show ?thesis
    by (intro comp_returnsI [of n _ _ _ "(rn_queue st, rn_world st)"]) (simp_all add: run_jobs_def)
qed

lemma comp_returns_run_module:
  assumes "clock_reaches en (\<lambda>w. (Inr () :: ('e js_error, unit) result, w)) d left" "q_deadline (fst s) = Some d"
  shows "comp_returns (\<lambda>fuel. run_module ho ic (en :: ('w, 'j, 'i::linorder, 'e) engine) fuel source) s d"
proof -
  have "comp_returns (\<lambda>fuel s.
       case ho_state ho p (snd s) of
         Fulfilled v \<Rightarrow>
           if has_unhandled_rejections (ho_rejections ho (snd s))
           then craise (PlainError ''Unhandled promise rejection'') s else cret m s
       | PendingPromise \<Rightarrow> craise (RuntimeLimit ''Module evaluation promise did not settle'') s
       | Rejected e \<Rightarrow> craise (EngineError e) s) s d"
    if "q_deadline (fst s) = Some d" for p m s
    using that
    by (cases "ho_state ho p (snd s)"; cases "has_unhandled_rejections (ho_rejections ho (snd s))")
      (auto simp: craise_def cret_def intro: comp_returns_once)
  then show ?thesis
    unfolding run_module_def using assms
    by (intro comp_returns_bind comp_returns_engine comp_returns_run_jobs)
qed

lemma comp_returns_call_main:
  assumes "q_deadline (fst s) = Some d"
  shows "comp_returns (\<lambda>fuel. call_main ho ic en arg m) s d"
proof -
  have "comp_returns (\<lambda>fuel s.
      if ho_is_function ho f (snd s) then
        cbind (engine_op_jobs ic en (ho_call ho f a)) (\<lambda>res.
          engine_op_jobs ic en (\<lambda>w. case ho_promise_of ho res w of (p, rs, w') \<Rightarrow> (Inr p, rs, w'))) s
      else craise (ReferenceError ''Default export is not a function'') s) s d"
    if d: "q_deadline (fst s) = Some d" for f a s
  proof (cases "ho_is_function ho f (snd s)")
    case True
    have "comp_returns (\<lambda>fuel. cbind (engine_op_jobs ic en (ho_call ho f a)) (\<lambda>res.
        engine_op_jobs ic en (\<lambda>w. case ho_promise_of ho res w of (p, rs, w') \<Rightarrow> (Inr p, rs, w')))) s d"
      by (intro comp_returns_bind comp_returns_engine d)
    with True show ?thesis by (simp add: comp_returns_def)
  next
    case False
    with d show ?thesis by (auto simp: craise_def intro: comp_returns_once)
  qed
  then show ?thesis
    unfolding call_main_def using assms by (intro comp_returns_bind comp_returns_engine)
qed

lemma run_body_returns:
  assumes reach: "\<And>p. clock_reaches en (\<lambda>w. case main_result ho p w of (r, w') \<Rightarrow> (Inr r, w')) d left"
    and d: "q_deadline (fst s) = Some d"
  shows "\<exists>n b. \<forall>fuel. n \<le> fuel \<longrightarrow> run_body ho ic (en :: ('w, 'j, 'i::linorder, 'e) engine) fuel source arg s = Some b"
proof -
  have "clock_reaches en (\<lambda>w. (Inr () :: ('e js_error, unit) result, w)) d left"
    using reach by (simp add: clock_reaches_def)
  then have "comp_returns (\<lambda>fuel. cbind (run_module ho ic en fuel source) (call_main ho ic en arg)) s d"
    using d by (intro comp_returns_bind comp_returns_run_module comp_returns_call_main)
  then obtain n r s1 where s1: "q_deadline (fst s1) = Some d"
    "\<forall>fuel. n \<le> fuel \<longrightarrow> cbind (run_module ho ic en fuel source) (call_main ho ic en arg) s = Some (r, s1)"
    unfolding comp_returns_def by blast
  show ?thesis
  proof (cases r)
    case (Inl e)
    with s1(2) show ?thesis by (intro exI [of _ n] exI [of _ "(Inl e, None, s1)"]) (simp add: run_body_def)
  next
    case (Inr p)
    obtain k r' st where "\<forall>fuel. k \<le> fuel \<longrightarrow> run_jobs_until_then_to_quiescence ic en
        (\<lambda>w. \<not> is_pending ho p w) (\<lambda>w. case main_result ho p w of (r, w') \<Rightarrow> (Inr r, w')) fuel
        (fst s1, snd s1) = Some (r', st)"
      using run_until_returns [OF reach [of p] s1(1), of ic "\<lambda>w. \<not> is_pending ho p w" "snd s1"] by blast
    then have "\<forall>fuel. k \<le> fuel \<longrightarrow> run_tail ho ic en fuel p s1 = Some (r', rn_stop st, rn_queue st, rn_world st)"
      by (simp add: run_tail_def)
    with s1(2) Inr obtain b where "\<forall>fuel. max n k \<le> fuel \<longrightarrow> run_body ho ic en fuel source arg s = Some b"
      by (cases r'; cases "Option.is_none (rn_stop st) \<and> is_pending ho p (rn_world st)")
        (auto simp: run_body_def)
    then show ?thesis by blast
  qed
qed

text \<open>
  Property C20: a run returns. When time passes at the clock of the engine, every job is answered
  after finitely many turns of the executor, with a result that does not depend on the fuel.
\<close>

theorem run_source_returns:
  assumes "\<And>d p. clock_reaches en (\<lambda>w. case main_result ho p w of (r, w') \<Rightarrow> (Inr r, w')) d (left d)"
  shows "\<exists>n res. \<forall>fuel. n \<le> fuel \<longrightarrow> run_source_with_early_reply ho ic en fuel job job_id rt = Some res"
proof -
  have body: "\<exists>n res. \<forall>fuel. n \<le> fuel \<longrightarrow>
      map_option f (run_body ho ic en fuel source arg (set_deadline (Some d) q, w)) = Some res"
    for f d q w source arg
  proof -
    have "q_deadline (fst (set_deadline (Some d) q, w)) = Some d" by (simp add: set_deadline_def)
    from run_body_returns [OF assms this] obtain n b where
      "\<forall>fuel. n \<le> fuel \<longrightarrow> run_body ho ic en fuel source arg (set_deadline (Some d) q, w) = Some b" by blast
    then show ?thesis by (intro exI [of _ n] exI [of _ "f b"]) simp
  qed
  show ?thesis
  proof (cases rule: run_source_shape [of ho ic en job job_id rt])
    case (refused e w)
    then show ?thesis by simp
  next
    case (ran source arg d w previous w')
    then show ?thesis using body by simp
  qed
qed

section \<open>A small host\<close>

text \<open>
  A host over the small engine of the executor: the module evaluates at once, its default export
  starts one asynchronous job, and the main promise is settled when the flag of the world is set.
\<close>

type_synonym small_world = "nat \<times> bool"

definition small_host ::
  "(small_world, nat, nat, string, nat, unit, nat, unit, nat, unit, unit, unit) host" where
  "small_host =
     \<lparr>ho_prepare = (\<lambda>_. Inr ()), ho_create_realm = (\<lambda>w. (Inr (), w)), ho_enter_realm = (\<lambda>r w. (r, w)),
      ho_bundle = (\<lambda>w. w), ho_set_limits = (\<lambda>_ _ _ w. w), ho_insert_state = (\<lambda>_ w. w),
      ho_remove_state = (\<lambda>w. w), ho_parse = (\<lambda>_ w. (Inr (), w)),
      ho_load_link_evaluate = (\<lambda>_ w. (0, [], w)),
      ho_state = (\<lambda>p w. if p = 0 \<or> snd w then Fulfilled p else PendingPromise),
      ho_from_json = (\<lambda>_ w. (Inr 0, w)), ho_get_default = (\<lambda>_ w. (Inr 0, w)),
      ho_is_function = (\<lambda>_ _. True),
      ho_call = (\<lambda>_ _ w. (Inr 1, [(AsyncJob 7, fst w)], w)),
      ho_promise_of = (\<lambda>v w. (v, [], w)),
      ho_to_json = (\<lambda>v w. (Inr (Some (JNumber v)), w)),
      ho_rejections = (\<lambda>_. 0), ho_set_rejections = (\<lambda>_ w. w), ho_show_error = (\<lambda>_. ''error'')\<rparr>"

definition small_runtime :: "nat \<Rightarrow> (small_world, nat, nat, unit) RuntimeInternal" where
  "small_runtime ms =
     \<lparr>ri_world = (0, False), ri_queue = queue_new, ri_http_client = (),
      ri_execution_limits = \<lparr>el_max_execution_time = from_millis ms, el_max_loop_iterations = 1,
        el_max_recursion_depth = 1, el_max_stack_size = 1\<rparr>,
      ri_default_endpoint_timeout_ms = None, ri_default_endpoint_response_max_bytes = None\<rparr>"

definition small_job :: "(nat, (string \<times> unit) list) MechanicsJob" where
  "small_job = \<lparr>mj_module_source = ''m'', mj_arg = JNull, mj_config = [], mj_run_timeout = None\<rparr>"

lemmas host_eval = engine_eval small_host_def small_runtime_def small_job_def
  run_source_with_early_reply_def run_body_def run_module_def call_main_def run_tail_def run_jobs_def
  cbind_def cret_def craise_def engine_op_def engine_op_jobs_def is_pending_def main_result_def
  js_value_to_json_def finish_run_def clean_up_def run_outcome_def hooks_clear_def into_parts_def
  has_unhandled_rejections_def compute_deadline_def set_deadline_def clear_all_def map_err_def
  checked_add_u128_def u64_try_from_def u32_try_from_def checked_mul_u64_def ok_or_def bind_ok_def
  u64_max_def u32_max_def run_loop_numeral


section \<open>Witnesses\<close>

lemma small_run:
  "\<exists>res. run_source_with_early_reply small_host ms_clock small_engine 9 small_job ''j'' (small_runtime 50) = Some res
     \<and> rs_replies res = [Inr (JNumber 1)]"
  by (simp add: host_eval)

theorem one_answer_per_job_witness:
  "\<exists>res. run_source_with_early_reply small_host ms_clock small_engine 9 small_job ''j'' (small_runtime 50) = Some res
     \<and> rs_outcome res = MainReplied \<and> length (rs_replies res) = 1"
  using small_run one_answer_per_job [of small_host ms_clock small_engine 9 small_job "''j''" "small_runtime 50"]
  by force

theorem runtime_clean_after_run_witness:
  "\<exists>res. run_source_with_early_reply small_host ms_clock small_engine 9 small_job ''j'' (small_runtime 5) = Some res
     \<and> ri_queue (rs_runtime res) = queue_new"
proof -
  obtain res where "run_source_with_early_reply small_host ms_clock small_engine 9 small_job ''j'' (small_runtime 5) = Some res"
    by (simp add: host_eval)
  moreover have "ri_queue (small_runtime 5) = queue_new" by (simp add: small_runtime_def)
  ultimately show ?thesis using runtime_clean_after_run by blast
qed


theorem missing_main_only_at_deadline_witness:
  "\<exists>exit s'. run_body small_host ms_clock small_engine 9 ''m'' JNull
       (set_deadline (Some 5) queue_new, (1, False)) = Some (Inr exit, None, s')
     \<and> (\<exists>snap. exit = DeadlineExceeded snap)"
proof -
  obtain exit s' where r: "run_body small_host ms_clock small_engine 9 ''m'' JNull
       (set_deadline (Some 5) queue_new, (1, False)) = Some (Inr exit, None, s')"
    by (simp add: host_eval)
  have "is_pending small_host p (snd (en_now small_engine w)) = is_pending small_host p w" for p w
    by (simp add: is_pending_def small_host_def small_engine_def case_prod_unfold)
  from missing_main_only_at_deadline [OF this r] r show ?thesis by blast
qed

theorem compute_deadline_spec_witness:
  "\<exists>d. compute_deadline ms_clock small_engine (from_millis 7) (3, False) = (Inr d, (4, False)) \<and> d = 10"
proof -
  have "clock_laws ms_clock" by (simp add: clock_laws_def ms_clock_def)
  moreover have "en_now small_engine (3, False) = (3, (4, False))" by (simp add: small_engine_def)
  ultimately have "\<exists>d. compute_deadline ms_clock small_engine (from_millis 7) (3, False) = (Inr d, (4, False))
      \<and> ic_millis ms_clock d = ic_millis ms_clock 3 + as_millis (from_millis 7)"
    using compute_deadline_spec [of ms_clock small_engine "(3, False)" 3 "(4, False)" "from_millis 7"]
    by (simp add: ms_clock_def as_millis_def from_millis_def u64_max_def)
  then show ?thesis by (simp add: ms_clock_def as_millis_def from_millis_def)
qed

theorem run_source_returns_witness:
  "\<exists>n res. \<forall>fuel. n \<le> fuel \<longrightarrow>
     run_source_with_early_reply small_host ms_clock small_engine fuel small_job ''j'' (small_runtime 5) = Some res"
proof (rule run_source_returns [where left = "\<lambda>d w. d - fst w"])
  show "clock_reaches small_engine
      (\<lambda>w. case main_result small_host p w of (r, w') \<Rightarrow> (Inr r, w')) d (\<lambda>w. d - fst w)" for d p
    by (auto simp: clock_reaches_def small_engine_def main_result_def js_value_to_json_def small_host_def
        case_prod_unfold)
qed

end
