(* ===== verification/Strings.thy ===== *)
theory Strings
  imports Prelude "HOL-Library.Sublist" "HOL-Library.More_List"
begin

text \<open>
  Byte strings and the operations of Rust's \<^verbatim>\<open>str\<close> that the sources use. A byte (\<^verbatim>\<open>u8\<close>) is a
  \<open>char\<close>, the type of 8-bit values; a \<^verbatim>\<open>Vec<u8>\<close> and a \<^verbatim>\<open>String\<close> are lists of bytes, a \<^verbatim>\<open>String\<close> being
  a list that is valid UTF-8. So \<^verbatim>\<open>as_bytes\<close> and \<^verbatim>\<open>into_bytes\<close> are the identity, \<^verbatim>\<open>len\<close> is the
  length, and \<^verbatim>\<open>from_utf8\<close> is the test \<open>utf8_valid\<close>. Searching, splitting and replacing only use
  ASCII patterns, for which the byte view and the view by characters agree.
\<close>

section \<open>Bytes\<close>

abbreviation CR :: char where "CR \<equiv> CHR 0x0D"
abbreviation LF :: char where "LF \<equiv> CHR 0x0A"
abbreviation TAB :: char where "TAB \<equiv> CHR 0x09"
abbreviation SP :: char where "SP \<equiv> CHR 0x20"
abbreviation DQUOTE :: char where "DQUOTE \<equiv> CHR 0x22"

abbreviation byte_val :: "char \<Rightarrow> nat" where "byte_val c \<equiv> of_char c"

definition in_range :: "nat \<Rightarrow> nat \<Rightarrow> char \<Rightarrow> bool" where
  "in_range lo hi c \<longleftrightarrow> lo \<le> byte_val c \<and> byte_val c \<le> hi"

definition is_ascii_byte :: "char \<Rightarrow> bool" where
  "is_ascii_byte c \<longleftrightarrow> byte_val c < 128"

definition is_ascii :: "string \<Rightarrow> bool" where
  "is_ascii s \<longleftrightarrow> list_all is_ascii_byte s"

definition is_continuation :: "char \<Rightarrow> bool" where
  "is_continuation c \<longleftrightarrow> in_range 0x80 0xBF c"

definition is_ascii_whitespace :: "char \<Rightarrow> bool" where
  "is_ascii_whitespace c \<longleftrightarrow> c \<in> {SP, TAB, LF, CHR 0x0C, CR}"

section \<open>UTF-8\<close>

text \<open>
  The number of bytes of the well-formed UTF-8 sequence at the start, if there is one
  (\<^verbatim>\<open>core::str::from_utf8\<close>; the second byte of some leading bytes has a restricted range).
\<close>

definition second_byte_ok :: "char \<Rightarrow> char \<Rightarrow> bool" where
  "second_byte_ok b c =
     (if b = CHR 0xE0 then in_range 0xA0 0xBF c
      else if b = CHR 0xED then in_range 0x80 0x9F c
      else if b = CHR 0xF0 then in_range 0x90 0xBF c
      else if b = CHR 0xF4 then in_range 0x80 0x8F c
      else is_continuation c)"

definition utf8_width :: "char \<Rightarrow> nat" where
  "utf8_width b =
     (if byte_val b < 0x80 then 1
      else if in_range 0xC2 0xDF b then 2
      else if in_range 0xE0 0xEF b then 3
      else if in_range 0xF0 0xF4 b then 4
      else 0)"

definition utf8_tail_ok :: "char \<Rightarrow> string \<Rightarrow> bool" where
  "utf8_tail_ok b cs \<longleftrightarrow>
     length cs = utf8_width b - 1 \<and> (cs \<noteq> [] \<longrightarrow> second_byte_ok b (hd cs)) \<and> list_all is_continuation (tl cs)"

function utf8_valid :: "string \<Rightarrow> bool" where
  "utf8_valid [] = True"
| "utf8_valid (b # bs) =
     (utf8_width b \<noteq> 0 \<and> utf8_tail_ok b (take (utf8_width b - 1) bs)
      \<and> utf8_valid (drop (utf8_width b - 1) bs))"
  by pat_completeness auto
termination by (relation "measure length") auto

definition from_utf8 :: "'e \<Rightarrow> string \<Rightarrow> ('e, string) result" where
  "from_utf8 e bytes = (if utf8_valid bytes then Inr bytes else Inl e)"

text \<open>The characters of a string, each as its bytes (\<^verbatim>\<open>chars\<close> with \<^verbatim>\<open>len_utf8\<close>).\<close>

function utf8_chars :: "string \<Rightarrow> string list" where
  "utf8_chars [] = []"
| "utf8_chars (b # bs) =
     (b # takeWhile is_continuation bs) # utf8_chars (dropWhile is_continuation bs)"
  by pat_completeness auto
termination
  by (relation "measure length") (auto simp: length_dropWhile_le less_Suc_eq_le)

section \<open>Searching and splitting\<close>

fun find_sub :: "string \<Rightarrow> string \<Rightarrow> nat option" where
  "find_sub pat [] = (if pat = [] then Some 0 else None)"
| "find_sub pat (c # cs) =
     (if prefix pat (c # cs) then Some 0 else map_option Suc (find_sub pat cs))"

definition contains :: "string \<Rightarrow> string \<Rightarrow> bool" where
  "contains s pat \<longleftrightarrow> find_sub pat s \<noteq> None"

definition split_once :: "string \<Rightarrow> string \<Rightarrow> (string \<times> string) option" where
  "split_once pat s =
     (case find_sub pat s of
        None \<Rightarrow> None
      | Some i \<Rightarrow> Some (take i s, drop (i + length pat) s))"

fun split_char :: "char \<Rightarrow> string \<Rightarrow> string list" where
  "split_char c [] = [[]]"
| "split_char c (x # xs) =
     (if x = c then [] # split_char c xs
      else (case split_char c xs of [] \<Rightarrow> [[x]] | p # ps \<Rightarrow> (x # p) # ps))"

fun join_with :: "string \<Rightarrow> string list \<Rightarrow> string" where
  "join_with sep [] = []"
| "join_with sep [s] = s"
| "join_with sep (s # t # ss) = s @ sep @ join_with sep (t # ss)"

text \<open>\<^verbatim>\<open>str::replace\<close> for a non-empty pattern.\<close>

function replace_str :: "string \<Rightarrow> string \<Rightarrow> string \<Rightarrow> string" where
  "replace_str pat rep [] = []"
| "replace_str pat rep (c # cs) =
     (if pat \<noteq> [] \<and> prefix pat (c # cs) then rep @ replace_str pat rep (drop (length pat) (c # cs))
      else c # replace_str pat rep cs)"
  by pat_completeness auto
termination by (relation "measure (\<lambda>(p, r, s). length s)") (auto simp: neq_Nil_conv)

definition replace_char :: "char \<Rightarrow> string \<Rightarrow> string \<Rightarrow> string" where
  "replace_char c rep s = concat (map (\<lambda>x. if x = c then rep else [x]) s)"

definition strip_suffix :: "string \<Rightarrow> string \<Rightarrow> string option" where
  "strip_suffix suf s = (if suffix suf s then Some (take (length s - length suf) s) else None)"

section \<open>Trimming\<close>

text \<open>
  The UTF-8 forms of the characters with the property \<^verbatim>\<open>White_Space\<close>. \<^verbatim>\<open>trim\<close> removes them at both
  ends; at the end of a valid string a byte sequence of the list is a character of it.
\<close>

definition whitespace_seqs :: "string list" where
  "whitespace_seqs =
     map (\<lambda>c. [c]) [TAB, LF, CHR 0x0B, CHR 0x0C, CR, SP]
     @ [[CHR 0xC2, CHR 0x85], [CHR 0xC2, CHR 0xA0], [CHR 0xE1, CHR 0x9A, CHR 0x80]]
     @ map (\<lambda>n. [CHR 0xE2, CHR 0x80, char_of (n :: nat)]) ([0x80..<0x8B] @ [0xA8, 0xA9, 0xAF])
     @ [[CHR 0xE2, CHR 0x81, CHR 0x9F], [CHR 0xE3, CHR 0x80, CHR 0x80]]"

definition ws_prefix :: "string \<Rightarrow> nat" where
  "ws_prefix s = (case find (\<lambda>w. prefix w s) whitespace_seqs of None \<Rightarrow> 0 | Some w \<Rightarrow> length w)"

definition ws_suffix :: "string \<Rightarrow> nat" where
  "ws_suffix s = (case find (\<lambda>w. suffix w s) whitespace_seqs of None \<Rightarrow> 0 | Some w \<Rightarrow> length w)"

function trim_start :: "string \<Rightarrow> string" where
  "trim_start s =
     (if ws_prefix s = 0 \<or> s = [] then s else trim_start (drop (ws_prefix s) s))"
  by pat_completeness auto
termination by (relation "measure length") auto

function trim_end :: "string \<Rightarrow> string" where
  "trim_end s =
     (if ws_suffix s = 0 \<or> s = [] then s else trim_end (take (length s - ws_suffix s) s))"
  by pat_completeness auto
termination by (relation "measure length") auto

declare trim_start.simps [simp del] trim_end.simps [simp del]

definition trim :: "string \<Rightarrow> string" where
  "trim s = trim_end (trim_start s)"

definition trim_end_char :: "char \<Rightarrow> string \<Rightarrow> string" where
  "trim_end_char c s = rev (dropWhile (\<lambda>x. x = c) (rev s))"

section \<open>Lemmas\<close>

declare utf8_valid.simps(2) [simp del]

lemma is_ascii_simps [simp]:
  "is_ascii []" "is_ascii (c # s) \<longleftrightarrow> is_ascii_byte c \<and> is_ascii s"
  "is_ascii (s @ t) \<longleftrightarrow> is_ascii s \<and> is_ascii t"
  by (auto simp: is_ascii_def)

lemma utf8_width_ascii [simp]: "is_ascii_byte c \<Longrightarrow> utf8_width c = 1"
  by (simp add: utf8_width_def is_ascii_byte_def)

lemma utf8_valid_ascii_Cons [simp]: "is_ascii_byte c \<Longrightarrow> utf8_valid (c # s) \<longleftrightarrow> utf8_valid s"
  by (simp add: utf8_tail_ok_def utf8_valid.simps)

lemma utf8_valid_ascii: "is_ascii s \<Longrightarrow> utf8_valid s"
  by (induction s) auto

lemma utf8_tail_nonascii: "utf8_tail_ok b cs \<Longrightarrow> list_all (\<lambda>c. \<not> is_ascii_byte c) cs"
  by (cases cs) (auto simp: utf8_tail_ok_def second_byte_ok_def is_continuation_def in_range_def
      is_ascii_byte_def list_all_iff split: if_splits)

lemma utf8_valid_seq:
  assumes "utf8_width b \<noteq> 0" "utf8_tail_ok b cs"
  shows "utf8_valid (b # cs @ s) \<longleftrightarrow> utf8_valid s"
proof -
  have "length cs = utf8_width b - 1" using assms(2) by (simp add: utf8_tail_ok_def)
  with assms show ?thesis by (simp add: utf8_valid.simps)
qed

text \<open>Induction over the characters of a valid string.\<close>

lemma utf8_valid_induct [consumes 1, case_names Nil seq]:
  assumes "utf8_valid s"
    and "P []"
    and "\<And>b cs s. utf8_width b \<noteq> 0 \<Longrightarrow> utf8_tail_ok b cs \<Longrightarrow> utf8_valid s \<Longrightarrow> P s \<Longrightarrow> P (b # cs @ s)"
  shows "P s"
  using assms(1)
proof (induction s rule: utf8_valid.induct)
  case (2 b bs)
  let ?n = "utf8_width b - 1"
  have "P (b # take ?n bs @ drop ?n bs)"
    using 2 by (intro assms(3)) (simp_all add: utf8_valid.simps del: append_take_drop_id)
  then show ?case by simp
qed (rule assms(2))

lemma utf8_valid_append: "utf8_valid s \<Longrightarrow> utf8_valid t \<Longrightarrow> utf8_valid (s @ t)"
  by (induction s rule: utf8_valid_induct) (simp_all add: utf8_valid_seq)

lemma replace_char_simps [simp]:
  "replace_char c rep [] = []"
  "replace_char c rep (x # s) = (if x = c then rep else [x]) @ replace_char c rep s"
  "replace_char c rep (s @ t) = replace_char c rep s @ replace_char c rep t"
  by (simp_all add: replace_char_def)

lemma replace_char_id: "c \<notin> set s \<Longrightarrow> replace_char c rep s = s"
  by (induction s) auto

lemma utf8_valid_replace_char:
  assumes "is_ascii_byte c" "is_ascii rep" "utf8_valid s"
  shows "utf8_valid (replace_char c rep s)"
  using assms(3)
proof (induction s rule: utf8_valid_induct)
  case (seq b cs s)
  have "c \<notin> set cs" using utf8_tail_nonascii [OF seq(2)] assms(1) by (auto simp: list_all_iff)
  moreover have "utf8_valid (rep @ replace_char c rep s)"
    using assms(2) seq(4) by (intro utf8_valid_append) (rule utf8_valid_ascii)
  moreover have "cs = []" if "b = c"
    using that assms(1) seq(2) by (simp add: utf8_tail_ok_def)
  ultimately show ?case
    using seq by (auto simp: replace_char_id utf8_valid_seq)
qed simp

lemma find_sub_Some_prefix: "find_sub pat s = Some i \<Longrightarrow> prefix pat (drop i s)"
  by (induction s arbitrary: i) (auto split: if_splits)

lemma find_sub_le: "find_sub pat s = Some i \<Longrightarrow> i + length pat \<le> length s"
  using find_sub_Some_prefix [of pat s i] prefix_length_le [of pat "drop i s"]
  by (induction s arbitrary: i) (auto split: if_splits dest: prefix_length_le)

lemma find_sub_None: "find_sub pat s = None \<longleftrightarrow> \<not> sublist pat s"
  by (induction s) (auto simp: sublist_Cons_right)

lemma contains_iff: "contains s pat \<longleftrightarrow> sublist pat s"
  by (simp add: contains_def find_sub_None)

lemma find_sub_first:
  assumes "\<And>i. i < length s \<Longrightarrow> \<not> prefix pat (drop i (s @ t))" "prefix pat t"
  shows "find_sub pat (s @ t) = Some (length s)"
  using assms
proof (induction s)
  case Nil
  then show ?case by (cases t) auto
next
  case (Cons c s)
  have "\<not> prefix pat (c # s @ t)" using Cons.prems(1) [of 0] by simp
  moreover have "\<not> prefix pat (drop i (s @ t))" if "i < length s" for i
    using Cons.prems(1) [of "Suc i"] that by simp
  ultimately show ?case using Cons by simp
qed

lemma split_once_char:
  "split_once [c] s = (if c \<in> set s then Some (takeWhile (\<lambda>x. x \<noteq> c) s, tl (dropWhile (\<lambda>x. x \<noteq> c) s)) else None)"
proof -
  have "find_sub [c] s = (if c \<in> set s then Some (length (takeWhile (\<lambda>x. x \<noteq> c) s)) else None)"
    by (induction s) auto
  then show ?thesis
    by (auto simp: split_once_def takeWhile_eq_take [symmetric] dropWhile_eq_drop drop_Suc tl_drop)
qed

lemma split_char_not_Nil [simp]: "split_char c s \<noteq> []"
  by (induction s) (auto split: list.splits)

lemma split_char_join:
  "list_all (\<lambda>p. c \<notin> set p) ps \<Longrightarrow> ps \<noteq> [] \<Longrightarrow> split_char c (join_with [c] ps) = ps"
proof (induction "[c]" ps rule: join_with.induct)
  case (2 s)
  then show ?case by (induction s) (auto split: list.splits)
next
  case (3 s t ss)
  have "split_char c (s @ c # r) = s # split_char c r" if "c \<notin> set s" for s r
    using that by (induction s) auto
  with 3 show ?case by auto
qed simp

lemma join_split_char: "join_with [c] (split_char c s) = s"
proof (induction s)
  case (Cons x s)
  then show ?case by (cases "split_char c s"; cases "tl (split_char c s)") auto
qed simp

lemma split_char_pieces: "p \<in> set (split_char c s) \<Longrightarrow> c \<notin> set p"
  by (induction s arbitrary: p) (auto split: if_splits list.splits)

subsection \<open>Trimming\<close>

text \<open>A byte that is not the first or last byte of a white space character.\<close>

definition printable :: "char \<Rightarrow> bool" where
  "printable c \<longleftrightarrow> in_range 33 126 c"

lemma whitespace_ends: "list_all (\<lambda>w. w \<noteq> [] \<and> \<not> printable (hd w) \<and> \<not> printable (last w)) whitespace_seqs"
  by (simp add: whitespace_seqs_def printable_def in_range_def list_all_iff)

lemma ws_prefix_printable:
  assumes "printable c"
  shows "ws_prefix (c # s) = 0"
proof -
  have "find (\<lambda>w. prefix w (c # s)) whitespace_seqs = None"
    unfolding find_None_iff using whitespace_ends assms by (fastforce simp: list_all_iff prefix_Cons)
  then show ?thesis by (simp add: ws_prefix_def)
qed

lemma ws_suffix_printable:
  assumes "printable c"
  shows "ws_suffix (s @ [c]) = 0"
proof -
  have "\<not> suffix w (s @ [c])" if "w \<in> set whitespace_seqs" for w
  proof
    assume "suffix w (s @ [c])"
    moreover have "w \<noteq> []" "\<not> printable (last w)" using whitespace_ends that by (auto simp: list_all_iff)
    ultimately show False using assms by (cases w rule: rev_cases) auto
  qed
  then have "find (\<lambda>w. suffix w (s @ [c])) whitespace_seqs = None" by (auto simp: find_None_iff)
  then show ?thesis by (simp add: ws_suffix_def)
qed

lemma ws_prefix_SP [simp]: "ws_prefix (SP # s) = 1"
  by (simp add: ws_prefix_def whitespace_seqs_def)

lemma trim_Nil [simp]: "trim [] = []"
  by (simp add: trim_def trim_start.simps trim_end.simps)

text \<open>A text that starts and ends with a printable byte.\<close>

definition tight :: "string \<Rightarrow> bool" where
  "tight s \<longleftrightarrow> s \<noteq> [] \<and> printable (hd s) \<and> printable (last s)"

lemma trim_tight: "tight s \<Longrightarrow> trim s = s"
proof -
  assume "tight s"
  then have "ws_prefix s = 0" "ws_suffix s = 0"
    using ws_prefix_printable [of "hd s" "tl s"] ws_suffix_printable [of "last s" "butlast s"]
    by (simp_all add: tight_def)
  then show ?thesis by (simp add: trim_def trim_start.simps [of s] trim_end.simps [of s])
qed

lemma trim_SP [simp]: "trim (SP # s) = trim s"
  by (simp add: trim_def trim_start.simps [of "SP # s"])

end
