(* ===== verification/Mime_Codec.thy ===== *)
theory Mime_Codec
  imports Strings
begin

text \<open>
  Transfer encodings and encoded words of \<^verbatim>\<open>src/internal/runtime/builtins/mime.rs\<close>: line wrapping,
  quoted-printable, the Q encoding of header values and the decoding of RFC 2047 encoded words. The
  Base64 alphabet and its codec belong to the crate \<^verbatim>\<open>data_encoding\<close> and are the parameter \<open>codec\<close>.
  The only errors are type errors, which are represented by their messages.
\<close>

unbundle bit_operations_syntax

type_synonym 'a js_result = "(string, 'a) result"

abbreviation type_error :: "string \<Rightarrow> 'a js_result" where "type_error \<equiv> Inl"

record codec =
  cd_encode :: "string \<Rightarrow> string"
  cd_decode :: "string \<Rightarrow> string option"

section \<open>Lines\<close>

definition normalize_raw_message :: "string \<Rightarrow> string" where
  "normalize_raw_message raw = replace_char CR [LF] (replace_str [CR, LF] [LF] raw)"

definition normalize_text_lines :: "string \<Rightarrow> string" where
  "normalize_text_lines text = replace_char LF [CR, LF] (replace_char CR [LF] (replace_str [CR, LF] [LF] text))"

fun wrap_loop :: "nat \<Rightarrow> string list \<Rightarrow> string \<Rightarrow> nat \<Rightarrow> string" where
  "wrap_loop width [] output line_len = output"
| "wrap_loop width (ch # chs) output line_len =
     (let (output, line_len) = (if line_len \<ge> width then (output @ [CR, LF], 0) else (output, line_len))
      in wrap_loop width chs (output @ ch) (saturating_add line_len (length ch)))"

definition wrap_ascii_line :: "string \<Rightarrow> nat \<Rightarrow> string" where
  "wrap_ascii_line input width = wrap_loop width (utf8_chars input) [] 0"

definition base64_encode_wrapped :: "codec \<Rightarrow> string \<Rightarrow> string" where
  "base64_encode_wrapped b64 bytes = wrap_ascii_line (cd_encode b64 bytes) 76"

definition base64_decode_liberal :: "codec \<Rightarrow> string \<Rightarrow> string js_result" where
  "base64_decode_liberal b64 input =
     (let compact = filter (\<lambda>ch. \<not> is_ascii_whitespace ch) input
      in ok_or ''invalid MIME base64 body'' (cd_decode b64 compact))"

section \<open>Quoted-printable\<close>

definition hex_value :: "char \<Rightarrow> 8 word option" where
  "hex_value c =
     (if in_range 48 57 c then Some (of_char c - 48)
      else if in_range 97 102 c then Some (of_char c - 97 + 10)
      else if in_range 65 70 c then Some (of_char c - 65 + 10)
      else None)"

definition HEX :: string where
  "HEX = ''0123456789ABCDEF''"

definition hex_pair :: "char \<Rightarrow> string" where
  "hex_pair c =
     (let byte = of_char c :: 8 word; hi = unat (drop_bit 4 byte); lo = unat (byte AND 15)
      in [HEX ! hi, HEX ! lo])"

definition qp_push_token :: "string \<Rightarrow> nat \<Rightarrow> string \<Rightarrow> string \<times> nat" where
  "qp_push_token output line_len token =
     (let (output, line_len) =
            (if saturating_add line_len (length token) > 75 then (output @ ''='' @ [CR, LF], 0)
             else (output, line_len))
      in (output @ token, saturating_add line_len (length token)))"

definition qp_literal :: "char \<Rightarrow> bool" where
  "qp_literal c \<longleftrightarrow> c = TAB \<or> in_range 32 60 c \<or> in_range 62 126 c"

definition qp_token :: "char \<Rightarrow> string" where
  "qp_token c = (if qp_literal c then [c] else ''='' @ hex_pair c)"

function qp_encode_loop :: "string \<Rightarrow> string \<Rightarrow> nat \<Rightarrow> string" where
  "qp_encode_loop [] output line_len = output"
| "qp_encode_loop (c # cs) output line_len =
     (if c = CR \<and> prefix [LF] cs then qp_encode_loop (drop 1 cs) (output @ [CR, LF]) 0
      else
        (case qp_push_token output line_len (qp_token c) of
           (output, line_len) \<Rightarrow> qp_encode_loop cs output line_len))"
  by pat_completeness auto
termination by (relation "measure (\<lambda>(cs, _, _). length cs)") auto

definition qp_encode :: "string \<Rightarrow> string" where
  "qp_encode bytes = qp_encode_loop bytes [] 0"

definition qp_escape :: "string \<Rightarrow> char js_result" where
  "qp_escape cs =
     bind_ok (ok_or ''invalid quoted-printable escape''
       (case cs of [] \<Rightarrow> None | b # _ \<Rightarrow> hex_value b)) (\<lambda>hi.
     bind_ok (ok_or ''invalid quoted-printable escape''
       (case drop 1 cs of [] \<Rightarrow> None | b # _ \<Rightarrow> hex_value b)) (\<lambda>lo.
     Inr (char_of (unat (push_bit 4 hi OR lo)))))"

function qp_decode_loop :: "bool \<Rightarrow> string \<Rightarrow> string \<Rightarrow> string js_result" where
  "qp_decode_loop encoded_word [] output = Inr output"
| "qp_decode_loop encoded_word (c # cs) output =
     (if encoded_word \<and> c = CHR ''_'' then qp_decode_loop encoded_word cs (output @ [SP])
      else if c \<noteq> CHR ''='' then qp_decode_loop encoded_word cs (output @ [c])
      else if prefix [CR, LF] cs then qp_decode_loop encoded_word (drop 2 cs) output
      else if prefix [LF] cs then qp_decode_loop encoded_word (drop 1 cs) output
      else (case qp_escape cs of
              Inl e \<Rightarrow> Inl e
            | Inr b \<Rightarrow> qp_decode_loop encoded_word (drop 2 cs) (output @ [b])))"
  by pat_completeness auto
termination by (relation "measure (\<lambda>(_, cs, _). length cs)") auto

definition qp_decode :: "string \<Rightarrow> bool \<Rightarrow> string js_result" where
  "qp_decode input encoded_word = qp_decode_loop encoded_word input []"

section \<open>Encoded words\<close>

definition q_plain :: "char \<Rightarrow> bool" where
  "q_plain c \<longleftrightarrow> in_range 65 90 c \<or> in_range 97 122 c \<or> in_range 48 57 c \<or> c \<in> set ''!*+-/''"

definition q_token :: "char \<Rightarrow> string" where
  "q_token c = (if c = SP then ''_'' else if q_plain c then [c] else ''='' @ hex_pair c)"

definition q_encode_header :: "string \<Rightarrow> string" where
  "q_encode_header value = ''=?UTF-8?Q?'' @ concat (map q_token value) @ ''?=''"

definition maybe_encode_header_value :: "string \<Rightarrow> string" where
  "maybe_encode_header_value value = (if is_ascii value then value else q_encode_header value)"

definition decode_word :: "codec \<Rightarrow> string \<Rightarrow> string \<Rightarrow> string \<Rightarrow> string js_result" where
  "decode_word b64 charset encoding encoded =
     (if to_ascii_lowercase charset \<notin> {''utf-8'', ''utf8''} then type_error ''unsupported RFC 2047 charset''
      else
        bind_ok
          (if to_ascii_lowercase encoding = ''b'' then base64_decode_liberal b64 encoded
           else if to_ascii_lowercase encoding = ''q'' then qp_decode encoded True
           else type_error ''unsupported RFC 2047 encoding'')
          (from_utf8 ''invalid RFC 2047 UTF-8''))"

text \<open>The parts of the encoded word that follows \<^verbatim>\<open>=?\<close>: charset, encoding, text and the rest.\<close>

definition word_parts :: "string \<Rightarrow> (string \<times> string \<times> string \<times> string) option" where
  "word_parts after_start =
     Option.bind (split_once ''?'' after_start) (\<lambda>(charset, after_charset).
     Option.bind (split_once ''?'' after_charset) (\<lambda>(encoding, after_encoding).
     Option.bind (split_once ''?='' after_encoding) (\<lambda>(encoded, rest).
     Some (charset, encoding, encoded, rest))))"

lemma split_once_shorter: "split_once pat s = Some (a, b) \<Longrightarrow> length b \<le> length s"
  by (auto simp: split_once_def split: option.splits)

lemma word_parts_shorter:
  "word_parts s = Some (charset, encoding, encoded, rest) \<Longrightarrow> length rest \<le> length s"
  by (force simp: word_parts_def bind_eq_Some_conv dest: split_once_shorter)

function decode_words_loop :: "codec \<Rightarrow> string \<Rightarrow> string \<Rightarrow> string js_result" where
  "decode_words_loop b64 rest output =
     (case find_sub ''=?'' rest of
        None \<Rightarrow> Inr (output @ rest)
      | Some start \<Rightarrow>
          (case word_parts (drop (start + 2) rest) of
             None \<Rightarrow> Inr (output @ take start rest @ drop start rest)
           | Some (charset, encoding, encoded, rest') \<Rightarrow>
               (case decode_word b64 charset encoding encoded of
                  Inl e \<Rightarrow> Inl e
                | Inr decoded \<Rightarrow> decode_words_loop b64 rest' (output @ take start rest @ decoded))))"
  by pat_completeness auto
termination
proof (relation "measure (\<lambda>(_, rest, _). length rest)", goal_cases)
  case (2 b64 rest out start q charset y encoding z encoded rest' decoded)
  then show ?case using find_sub_le [of "''=?''" rest start] word_parts_shorter by fastforce
qed simp

declare decode_words_loop.simps [simp del]

definition decode_encoded_words :: "codec \<Rightarrow> string \<Rightarrow> string js_result" where
  "decode_encoded_words b64 value = decode_words_loop b64 value []"

section \<open>Lemmas\<close>

subsection \<open>Normal forms of line breaks\<close>

lemma normalize_raw_simps [simp]:
  "normalize_raw_message [] = []"
  "normalize_raw_message (CR # LF # s) = LF # normalize_raw_message s"
  "\<not> prefix [LF] s \<Longrightarrow> normalize_raw_message (CR # s) = LF # normalize_raw_message s"
  "c \<noteq> CR \<Longrightarrow> normalize_raw_message (c # s) = c # normalize_raw_message s"
  by (simp_all add: normalize_raw_message_def)

lemma normalize_raw_append: "CR \<notin> set t \<Longrightarrow> normalize_raw_message (t @ s) = t @ normalize_raw_message s"
  by (induction t) auto

lemma normalize_raw_no_CR: "CR \<notin> set (normalize_raw_message s)"
  by (auto simp: normalize_raw_message_def replace_char_def split: if_splits)

lemma normalize_raw_id: "CR \<notin> set s \<Longrightarrow> normalize_raw_message s = s"
  using normalize_raw_append [of s "[]"] by simp

lemma normalize_raw_idem [simp]: "normalize_raw_message (normalize_raw_message s) = normalize_raw_message s"
  by (simp add: normalize_raw_id normalize_raw_no_CR)

lemma normalize_text_eq: "normalize_text_lines s = replace_char LF [CR, LF] (normalize_raw_message s)"
  by (simp add: normalize_text_lines_def normalize_raw_message_def)

lemma replace_crlf_lines: "CR \<notin> set s \<Longrightarrow> replace_str [CR, LF] [LF] (replace_char LF [CR, LF] s) = s"
  by (induction s) auto

lemma replace_crlf_id: "CR \<notin> set s \<Longrightarrow> replace_str [CR, LF] [LF] s = s"
  by (induction s) auto

lemma normalize_raw_text [simp]: "normalize_raw_message (normalize_text_lines s) = normalize_raw_message s"
proof -
  have "normalize_raw_message (replace_char LF [CR, LF] t) = t" if "CR \<notin> set t" for t
    using that by (simp add: normalize_raw_message_def replace_crlf_lines replace_char_id)
  then show ?thesis by (simp add: normalize_text_eq normalize_raw_no_CR)
qed

lemma replace_crlf_text: "replace_str [CR, LF] [LF] (normalize_text_lines s) = normalize_raw_message s"
  by (simp add: normalize_text_eq replace_crlf_lines normalize_raw_no_CR)

lemma replace_crlf_append: "CR \<notin> set t \<Longrightarrow> replace_str [CR, LF] [LF] (t @ r) = t @ replace_str [CR, LF] [LF] r"
  by (induction t) auto

lemma utf8_valid_replace_crlf: "utf8_valid s \<Longrightarrow> utf8_valid (replace_str [CR, LF] [LF] s)"
proof (induction s rule: utf8_valid_induct)
  case (seq b cs s)
  have "CR \<notin> set cs" using utf8_tail_nonascii [OF seq(2)] by (auto simp: list_all_iff is_ascii_byte_def)
  show ?case
  proof (cases "b = CR")
    case True
    then have "cs = []" using seq(2) by (simp add: utf8_tail_ok_def is_ascii_byte_def)
    with True seq(4) show ?thesis
      by (cases s) (auto simp: is_ascii_byte_def)
  next
    case False
    with \<open>CR \<notin> set cs\<close> seq show ?thesis by (simp add: replace_crlf_append utf8_valid_seq)
  qed
qed simp

lemma utf8_valid_normalize_raw: "utf8_valid s \<Longrightarrow> utf8_valid (normalize_raw_message s)"
  unfolding normalize_raw_message_def
  by (intro utf8_valid_replace_char utf8_valid_replace_crlf) (simp_all add: is_ascii_byte_def)

end
