(* ===== verification/Mime_Message.thy ===== *)
theory Mime_Message
  imports Mime_Codec "HOL-Library.Monad_Syntax"
begin

text \<open>
  Composition and parsing of MIME messages, \<^verbatim>\<open>src/internal/runtime/builtins/mime.rs\<close>: header lists,
  content types, folding, transfer encodings, boundaries and the recursive rendering and parsing of
  multipart messages. The conversion between JavaScript objects and these messages is the engine's.
\<close>

section \<open>Data\<close>

record Header =
  h_name :: string
  h_value :: string

datatype MimeBody = Text string | Bytes string

datatype MimeMessage =
  MimeMessage (mm_headers: "Header list") (mm_body: "MimeBody option")
    (mm_parts: "MimeMessage list") (mm_encoding: "string option")

datatype TransferEncoding = SevenBit | EightBit | Binary | QuotedPrintable | Base64

definition MIME_VERSION :: string where "MIME_VERSION = ''MIME-Version''"
definition CONTENT_TYPE :: string where "CONTENT_TYPE = ''Content-Type''"
definition CONTENT_TRANSFER_ENCODING :: string where "CONTENT_TRANSFER_ENCODING = ''Content-Transfer-Encoding''"
definition DEFAULT_TEXT_CONTENT_TYPE :: string where "DEFAULT_TEXT_CONTENT_TYPE = ''text/plain; charset=utf-8''"
definition DEFAULT_MULTIPART_CONTENT_TYPE :: string where "DEFAULT_MULTIPART_CONTENT_TYPE = ''multipart/mixed''"

definition transfer_encoding_parse :: "string \<Rightarrow> TransferEncoding option" where
  "transfer_encoding_parse token =
     (let t = to_ascii_lowercase token
      in if t = ''7bit'' then Some SevenBit
         else if t = ''8bit'' then Some EightBit
         else if t = ''binary'' then Some Binary
         else if t = ''quoted-printable'' then Some QuotedPrintable
         else if t = ''base64'' then Some Base64
         else None)"

fun transfer_encoding_token :: "TransferEncoding \<Rightarrow> string" where
  "transfer_encoding_token SevenBit = ''7bit''"
| "transfer_encoding_token EightBit = ''8bit''"
| "transfer_encoding_token Binary = ''binary''"
| "transfer_encoding_token QuotedPrintable = ''quoted-printable''"
| "transfer_encoding_token Base64 = ''base64''"

section \<open>Header lists\<close>

definition header_matches :: "string \<Rightarrow> string \<Rightarrow> bool" where
  "header_matches name wanted = eq_ignore_ascii_case name wanted"

definition header_value :: "Header list \<Rightarrow> string \<Rightarrow> string option" where
  "header_value headers name =
     map_option h_value (find (\<lambda>header. header_matches (h_name header) name) (rev headers))"

fun set_header :: "Header list \<Rightarrow> string \<Rightarrow> string \<Rightarrow> Header list" where
  "set_header [] name value = [\<lparr>h_name = name, h_value = value\<rparr>]"
| "set_header (header # headers) name value =
     (if header_matches (h_name header) name then header\<lparr>h_value := value\<rparr> # headers
      else header # set_header headers name value)"

definition has_header :: "Header list \<Rightarrow> string \<Rightarrow> bool" where
  "has_header headers name \<longleftrightarrow> header_value headers name \<noteq> None"

definition validate_header_name :: "string \<Rightarrow> unit js_result" where
  "validate_header_name name =
     (if name = [] \<or> \<not> list_all (\<lambda>b. (in_range 33 57 b \<or> in_range 59 126 b) \<and> b \<noteq> CHR '':'') name
      then type_error ''MIME header names must be non-empty RFC 5322 field names'' else Inr ())"

definition validate_header_value :: "string \<Rightarrow> unit js_result" where
  "validate_header_value value =
     (if list_ex (\<lambda>b. b \<in> {CR, LF}) value
      then type_error ''MIME header values must not contain line breaks'' else Inr ())"

section \<open>Content types\<close>

definition content_type_base :: "string \<Rightarrow> string" where
  "content_type_base content_type =
     trim (case split_once '';'' content_type of None \<Rightarrow> content_type | Some (base, _) \<Rightarrow> base)"

definition is_text_content_type :: "string \<Rightarrow> bool" where
  "is_text_content_type content_type \<longleftrightarrow> prefix ''text/'' (to_ascii_lowercase (content_type_base content_type))"

definition unquote :: "string \<Rightarrow> string" where
  "unquote value =
     (if prefix [DQUOTE] value \<and> suffix [DQUOTE] value \<and> 2 \<le> length value
      then take (length value - 2) (drop 1 value) else value)"

fun boundary_param :: "string list \<Rightarrow> string option" where
  "boundary_param [] = None"
| "boundary_param (param # params) =
     (case split_once ''='' (trim param) of
        None \<Rightarrow> boundary_param params
      | Some (name, value) \<Rightarrow>
          if eq_ignore_ascii_case (trim name) ''boundary'' then Some (unquote (trim value))
          else boundary_param params)"

definition parse_boundary :: "string \<Rightarrow> string option" where
  "parse_boundary content_type = boundary_param (drop 1 (split_char (CHR '';'') content_type))"

definition content_type_with_boundary :: "string \<Rightarrow> string \<Rightarrow> string" where
  "content_type_with_boundary content_type boundary =
     (if parse_boundary content_type \<noteq> None then content_type
      else content_type @ ''; boundary='' @ [DQUOTE] @ boundary @ [DQUOTE])"

section \<open>Rendering headers\<close>

fun fold_words :: "string list \<Rightarrow> string \<Rightarrow> string \<Rightarrow> string \<times> string" where
  "fold_words [] folded current = (folded, current)"
| "fold_words (word # words) folded current =
     (let separator = (if current = [] then [] else [SP])
      in if current \<noteq> []
            \<and> saturating_add (saturating_add (length current) (length separator)) (length word) > 78
         then fold_words words (if folded = [] then current else folded @ [CR, LF, SP] @ current) word
         else fold_words words folded (current @ separator @ word))"

definition fold_header_line :: "string \<Rightarrow> string \<Rightarrow> string" where
  "fold_header_line name value =
     (let line = name @ '': '' @ value
      in if length line \<le> 78 then line
         else (case fold_words (split_char SP line) [] [] of
                 (folded, current) \<Rightarrow>
                   if folded = [] then line else folded @ [CR, LF, SP] @ current))"

fun render_headers :: "Header list \<Rightarrow> string js_result" where
  "render_headers [] = Inr []"
| "render_headers (header # headers) =
     bind_ok (validate_header_name (h_name header)) (\<lambda>_.
     bind_ok (validate_header_value (h_value header)) (\<lambda>_.
     bind_ok (render_headers headers) (\<lambda>output.
     Inr (fold_header_line (h_name header) (maybe_encode_header_value (h_value header)) @ [CR, LF] @ output))))"

section \<open>Bodies\<close>

definition choose_encoding :: "MimeMessage \<Rightarrow> Header list \<Rightarrow> TransferEncoding js_result" where
  "choose_encoding message headers =
     (case mm_encoding message of
        Some explicit \<Rightarrow>
          ok_or ''MIME encoding must be 7bit, 8bit, binary, quoted-printable, or base64''
            (transfer_encoding_parse explicit)
      | None \<Rightarrow>
     (case header_value headers CONTENT_TRANSFER_ENCODING of
        Some header \<Rightarrow>
          ok_or ''invalid Content-Transfer-Encoding header'' (transfer_encoding_parse header)
      | None \<Rightarrow>
     (let content_type = (case header_value headers CONTENT_TYPE of
                            None \<Rightarrow> DEFAULT_TEXT_CONTENT_TYPE | Some t \<Rightarrow> t);
          is_text = is_text_content_type content_type
      in case mm_body message of
           Some (Text text) \<Rightarrow>
             if is_text \<and> is_ascii text then Inr SevenBit
             else if is_text then Inr QuotedPrintable
             else Inr Base64
         | Some (Bytes _) \<Rightarrow> Inr Base64
         | None \<Rightarrow> Inr SevenBit)))"

definition body_bytes_and_text :: "MimeMessage \<Rightarrow> string \<times> bool" where
  "body_bytes_and_text message =
     (case mm_body message of
        Some (Text text) \<Rightarrow> (normalize_text_lines text, True)
      | Some (Bytes bytes) \<Rightarrow> (bytes, False)
      | None \<Rightarrow> ([], True))"

definition render_body :: "codec \<Rightarrow> MimeMessage \<Rightarrow> TransferEncoding \<Rightarrow> string js_result" where
  "render_body b64 message encoding =
     (case body_bytes_and_text message of (bytes, text_body) \<Rightarrow>
        case encoding of
          SevenBit \<Rightarrow>
            if \<not> is_ascii bytes then type_error ''7bit MIME bodies must be ASCII''
            else from_utf8 ''7bit MIME body is not UTF-8'' bytes
        | QuotedPrintable \<Rightarrow> Inr (qp_encode bytes)
        | Base64 \<Rightarrow> Inr (base64_encode_wrapped b64 bytes)
        | _ \<Rightarrow>
            if text_body then from_utf8 ''MIME body is not UTF-8'' bytes
            else type_error ''explicit 8bit/binary Uint8Array bodies cannot be represented in a JS string'')"

section \<open>Boundaries\<close>

definition fnv_step :: "char \<Rightarrow> 64 word \<Rightarrow> 64 word" where
  "fnv_step byte state = (state XOR of_char byte) * 0x100000001b3"

fun boundary_seed :: "MimeMessage \<Rightarrow> 64 word \<Rightarrow> 64 word" where
  "boundary_seed (MimeMessage headers body parts encoding) state =
     (let state = fold (\<lambda>header. fold fnv_step (h_name header @ h_value header)) headers state;
          state = (case body of
                     None \<Rightarrow> state
                   | Some (Text text) \<Rightarrow> fold fnv_step text state
                   | Some (Bytes bytes) \<Rightarrow> fold fnv_step bytes state)
      in fold boundary_seed parts state)"

fun message_contains_boundary :: "MimeMessage \<Rightarrow> string \<Rightarrow> bool" where
  "message_contains_boundary (MimeMessage headers body parts encoding) boundary =
     ((case body of
         None \<Rightarrow> False
       | Some (Text text) \<Rightarrow> contains text boundary
       | Some (Bytes bytes) \<Rightarrow> contains bytes boundary)
      \<or> list_ex (\<lambda>part. message_contains_boundary part boundary) parts)"

definition hex_digit :: "nat \<Rightarrow> char" where
  "hex_digit n = ''0123456789abcdef'' ! n"

fun hex_lower :: "nat \<Rightarrow> string" where
  "hex_lower n = (if n < 16 then [hex_digit n] else hex_lower (n div 16) @ [hex_digit (n mod 16)])"

declare hex_lower.simps [simp del]

definition hex_padded :: "nat \<Rightarrow> nat \<Rightarrow> string" where
  "hex_padded width n = (let s = hex_lower n in replicate (width - length s) (CHR ''0'') @ s)"

definition boundary_text :: "64 word \<Rightarrow> nat \<Rightarrow> string" where
  "boundary_text seed attempt = ''mechanics-'' @ hex_padded 16 (unat seed) @ ''-'' @ hex_padded 4 attempt"

text \<open>The loop has no bound in the source: \<open>None\<close> says that it does not end.\<close>

partial_function (option) boundary_loop :: "MimeMessage \<Rightarrow> 64 word \<Rightarrow> nat \<Rightarrow> string option" where
  "boundary_loop message seed attempt =
     (let boundary = boundary_text seed attempt
      in if \<not> message_contains_boundary message boundary then Some boundary
         else boundary_loop message seed (saturating_add attempt 1))"

definition generate_boundary :: "MimeMessage \<Rightarrow> string option" where
  "generate_boundary message = boundary_loop message (boundary_seed message 0xcbf29ce484222325) 0"

section \<open>Rendering messages\<close>

definition with_mime_version :: "bool \<Rightarrow> Header list \<Rightarrow> Header list" where
  "with_mime_version top_level headers =
     (if top_level \<and> \<not> has_header headers MIME_VERSION
      then \<lparr>h_name = MIME_VERSION, h_value = ''1.0''\<rparr> # headers else headers)"

definition multipart_boundary :: "MimeMessage \<Rightarrow> Header list \<Rightarrow> string option" where
  "multipart_boundary message headers =
     (case Option.bind (header_value headers CONTENT_TYPE) parse_boundary of
        Some boundary \<Rightarrow> Some boundary
      | None \<Rightarrow> generate_boundary message)"

definition multipart_headers :: "Header list \<Rightarrow> string \<Rightarrow> Header list" where
  "multipart_headers headers boundary =
     (let content_type = (case header_value headers CONTENT_TYPE of
                            None \<Rightarrow> DEFAULT_MULTIPART_CONTENT_TYPE | Some t \<Rightarrow> content_type_base t)
      in set_header headers CONTENT_TYPE (content_type_with_boundary content_type boundary))"

definition render_leaf :: "codec \<Rightarrow> MimeMessage \<Rightarrow> Header list \<Rightarrow> string js_result" where
  "render_leaf b64 message headers =
     (let headers = (if has_header headers CONTENT_TYPE then headers
                     else set_header headers CONTENT_TYPE DEFAULT_TEXT_CONTENT_TYPE)
      in bind_ok (choose_encoding message headers) (\<lambda>encoding.
         let headers = set_header headers CONTENT_TRANSFER_ENCODING (transfer_encoding_token encoding)
         in bind_ok (render_headers headers) (\<lambda>output.
            bind_ok (render_body b64 message encoding) (\<lambda>body.
            Inr (output @ [CR, LF] @ body)))))"

text \<open>Rendering is undefined (\<open>None\<close>) only where the search for a boundary does not end.\<close>

fun render_message :: "codec \<Rightarrow> MimeMessage \<Rightarrow> bool \<Rightarrow> string js_result option"
  and render_parts :: "codec \<Rightarrow> string \<Rightarrow> MimeMessage list \<Rightarrow> string js_result option" where
  "render_message b64 (MimeMessage headers body parts encoding) top_level =
     (let message = MimeMessage headers body parts encoding;
          headers = with_mime_version top_level headers
      in if parts \<noteq> [] then
           Option.bind (multipart_boundary message headers) (\<lambda>boundary.
           (case render_headers (multipart_headers headers boundary) of
              Inl e \<Rightarrow> Some (Inl e)
            | Inr output \<Rightarrow>
                Option.bind (render_parts b64 boundary parts) (\<lambda>r.
                Some (bind_ok r (\<lambda>sections.
                  Inr (output @ [CR, LF] @ sections @ ''--'' @ boundary @ ''--'' @ [CR, LF]))))))
         else Some (render_leaf b64 message headers))"
| "render_parts b64 boundary [] = Some (Inr [])"
| "render_parts b64 boundary (part # parts) =
     Option.bind (render_message b64 part False) (\<lambda>r.
     (case r of
        Inl e \<Rightarrow> Some (Inl e)
      | Inr section \<Rightarrow>
          Option.bind (render_parts b64 boundary parts) (\<lambda>r.
          Some (bind_ok r (\<lambda>sections.
            Inr (''--'' @ boundary @ [CR, LF] @ section @ [CR, LF] @ sections))))))"

section \<open>Parsing\<close>

datatype ParsedMessage =
  ParsedMessage (pm_headers: "Header list") (pm_body: "string option")
    (pm_parts: "ParsedMessage list") (pm_text_body: bool)

definition split_header_body :: "string \<Rightarrow> (string \<times> string) js_result" where
  "split_header_body raw =
     ok_or ''malformed MIME message: missing header/body separator'' (split_once [LF, LF] raw)"

definition finish_header :: "codec \<Rightarrow> string option \<Rightarrow> string \<Rightarrow> Header list \<Rightarrow> Header list js_result" where
  "finish_header b64 current_name current_value headers =
     (case current_name of
        None \<Rightarrow> Inr headers
      | Some name \<Rightarrow>
          bind_ok (decode_encoded_words b64 (trim current_value)) (\<lambda>value.
          Inr (headers @ [\<lparr>h_name = name, h_value = value\<rparr>])))"

fun parse_header_lines ::
  "codec \<Rightarrow> string list \<Rightarrow> string option \<Rightarrow> string \<Rightarrow> Header list \<Rightarrow> Header list js_result" where
  "parse_header_lines b64 [] current_name current_value headers =
     finish_header b64 current_name current_value headers"
| "parse_header_lines b64 (line # lines) current_name current_value headers =
     (if prefix [SP] line \<or> prefix [TAB] line then
        (if current_name = None then type_error ''malformed folded MIME header''
         else parse_header_lines b64 lines current_name (current_value @ [SP] @ trim line) headers)
      else
        bind_ok (finish_header b64 current_name current_value headers) (\<lambda>headers.
        let current_value = (if current_name = None then current_value else [])
        in case split_once '':'' line of
             None \<Rightarrow> type_error ''malformed MIME header''
           | Some (name, value) \<Rightarrow>
               bind_ok (validate_header_name name) (\<lambda>_.
               parse_header_lines b64 lines (Some name) (current_value @ trim value) headers)))"

definition parse_headers :: "codec \<Rightarrow> string \<Rightarrow> Header list js_result" where
  "parse_headers b64 raw = parse_header_lines b64 (split_char LF raw) None [] []"

definition decode_body :: "codec \<Rightarrow> string \<Rightarrow> Header list \<Rightarrow> (string \<times> bool) js_result" where
  "decode_body b64 raw headers =
     (let encoding = (case Option.bind (header_value headers CONTENT_TRANSFER_ENCODING) transfer_encoding_parse of
                        None \<Rightarrow> SevenBit | Some e \<Rightarrow> e)
      in bind_ok (case encoding of
                    QuotedPrintable \<Rightarrow> qp_decode raw False
                  | Base64 \<Rightarrow> base64_decode_liberal b64 raw
                  | _ \<Rightarrow> Inr raw) (\<lambda>bytes.
         let content_type = (case header_value headers CONTENT_TYPE of
                               None \<Rightarrow> DEFAULT_TEXT_CONTENT_TYPE | Some t \<Rightarrow> t)
         in Inr (bytes, is_text_content_type content_type)))"

definition trim_part_section :: "string \<Rightarrow> string" where
  "trim_part_section section =
     (let s = (case strip_suffix [LF] section of None \<Rightarrow> section | Some s \<Rightarrow> s)
      in case strip_suffix [CR] s of None \<Rightarrow> s | Some t \<Rightarrow> t)"

text \<open>The loop over the lines of a multipart body: the sections, or \<open>None\<close> without closing boundary.\<close>

fun section_lines :: "string \<Rightarrow> string list \<Rightarrow> string list \<Rightarrow> string \<Rightarrow> bool \<Rightarrow> string list option" where
  "section_lines boundary [] sections current inside = None"
| "section_lines boundary (line # lines) sections current inside =
     (let trimmed = trim_end_char CR line
      in if trimmed = ''--'' @ boundary then
           section_lines boundary lines
             (if inside then sections @ [trim_part_section current] else sections)
             (if inside then [] else current) True
         else if trimmed = ''--'' @ boundary @ ''--'' then
           Some (if inside then sections @ [trim_part_section current] else sections)
         else section_lines boundary lines sections
                (if inside then current @ line @ [LF] else current) inside)"

definition multipart_sections :: "string \<Rightarrow> string \<Rightarrow> string list js_result" where
  "multipart_sections body boundary =
     ok_or ''malformed multipart MIME body: missing closing boundary''
       (section_lines boundary (split_char LF body) [] [] False)"

text \<open>Mapping a fallible function over a list, stopping at the first error.\<close>

fun map_results :: "('a \<Rightarrow> 'b js_result) \<Rightarrow> 'a list \<Rightarrow> 'b list js_result" where
  "map_results f [] = Inr []"
| "map_results f (x # xs) = bind_ok (f x) (\<lambda>y. bind_ok (map_results f xs) (\<lambda>ys. Inr (y # ys)))"

lemma map_results_cong [fundef_cong]:
  "xs = ys \<Longrightarrow> (\<And>x. x \<in> set ys \<Longrightarrow> f x = g x) \<Longrightarrow> map_results f xs = map_results g ys"
proof (induction xs arbitrary: ys)
  case (Cons x xs)
  then show ?case by (cases ys) auto
qed simp

lemma length_trim_part_section: "length (trim_part_section s) \<le> length s"
  by (auto simp: trim_part_section_def strip_suffix_def Let_def)

lemma section_lines_length:
  assumes "section_lines boundary lines sections current inside = Some out" "s \<in> set out"
  shows "s \<in> set sections \<or> length s \<le> length current + sum_list (map (\<lambda>l. Suc (length l)) lines)"
  using assms
proof (induction lines arbitrary: sections current inside)
  case (Cons line lines)
  show ?case
    using Cons.prems length_trim_part_section [of current]
    by (auto simp: Let_def split: if_splits dest!: Cons.IH)
qed simp

lemma split_char_length: "sum_list (map (\<lambda>l. Suc (length l)) (split_char c s)) = Suc (length s)"
  by (induction s) (auto split: list.splits)

lemma multipart_sections_length:
  "multipart_sections body boundary = Inr out \<Longrightarrow> s \<in> set out \<Longrightarrow> length s \<le> length body + 1"
  using section_lines_length [of boundary "split_char LF body" "[]" "[]" False out s]
  by (simp add: multipart_sections_def split_char_length result_simps)

lemma split_header_body_length:
  "split_header_body raw = Inr (h, b) \<Longrightarrow> length b + 2 \<le> length raw"
  using find_sub_le [of "[LF, LF]" raw]
  by (auto simp: split_header_body_def split_once_def result_simps split: option.splits)

definition is_multipart :: "Header list \<Rightarrow> string option" where
  "is_multipart headers =
     (let content_type = (case header_value headers CONTENT_TYPE of
                            None \<Rightarrow> DEFAULT_TEXT_CONTENT_TYPE | Some t \<Rightarrow> t)
      in if prefix ''multipart/'' (to_ascii_lowercase (content_type_base content_type))
         then Some content_type else None)"

function parse_message_raw :: "codec \<Rightarrow> string \<Rightarrow> ParsedMessage js_result" where
  "parse_message_raw b64 raw =
     bind_ok (split_header_body raw) (\<lambda>(raw_headers, raw_body).
     bind_ok (parse_headers b64 raw_headers) (\<lambda>headers.
     (case is_multipart headers of
        Some content_type \<Rightarrow>
          bind_ok (ok_or ''multipart MIME message is missing boundary'' (parse_boundary content_type)) (\<lambda>boundary.
          bind_ok (multipart_sections raw_body boundary) (\<lambda>sections.
          bind_ok (map_results (parse_message_raw b64) sections) (\<lambda>parts.
          Inr (ParsedMessage headers None parts False))))
      | None \<Rightarrow>
          bind_ok (decode_body b64 raw_body headers) (\<lambda>(body, text_body).
          Inr (ParsedMessage headers (Some body) [] text_body)))))"
  by pat_completeness auto
termination
  by (relation "measure (\<lambda>(_, raw). length raw)")
    (auto dest!: multipart_sections_length split_header_body_length)

declare parse_message_raw.simps [simp del]

text \<open>The text of a parsed leaf as the script sees it.\<close>

definition parsed_text :: "ParsedMessage \<Rightarrow> string js_result" where
  "parsed_text message =
     bind_ok (from_utf8 ''MIME text body is not UTF-8'' (case pm_body message of None \<Rightarrow> [] | Some b \<Rightarrow> b)) (\<lambda>text.
     Inr (normalize_raw_message text))"

definition parse_text :: "codec \<Rightarrow> string \<Rightarrow> ParsedMessage js_result" where
  "parse_text b64 raw = parse_message_raw b64 (normalize_raw_message raw)"

end
