(* ===== verification/Mime_Codec_Properties.thy ===== *)
theory Mime_Codec_Properties
  imports Mime_Codec
begin

text \<open>
  Round trips and line lengths of the MIME transfer encodings: quoted-printable, wrapped Base64 and
  the encoded words of header values.
\<close>

section \<open>Hexadecimal pairs\<close>

lemma char_of_of_char_word [simp]: "char_of (unat (of_char c :: 8 word)) = c"
proof -
  have "(of_char c :: 8 word) = of_nat (of_char c)" by (simp only: of_nat_of_char)
  then have "unat (of_char c :: 8 word) = of_char c mod 256" by (simp only: unat_of_nat) simp
  then show ?thesis by simp
qed

lemma HEX_nth: "i < 16 \<Longrightarrow> hex_value (HEX ! i) = Some (of_nat i)"
proof -
  have "\<forall>i \<in> set [0..<16]. hex_value (HEX ! i) = Some (of_nat i)"
    by code_simp
  then show "i < 16 \<Longrightarrow> ?thesis" by simp
qed

lemma and_15: "b AND 15 = take_bit 4 (b :: 8 word)"
  by (simp add: take_bit_eq_mask mask_eq_exp_minus_1)

lemma nibbles: "push_bit 4 (drop_bit 4 b) OR (b AND 15) = (b :: 8 word)"
  unfolding and_15 by (auto intro!: bit_word_eqI simp: bit_simps)

lemma nibbles_less: "unat (drop_bit 4 b) < 16" "unat ((b :: 8 word) AND 15) < 16"
proof -
  show "unat ((b :: 8 word) AND 15) < 16"
    unfolding and_15 using take_bit_nat_less_exp [of 4 "unat b"] by (simp add: unsigned_take_bit_eq)
  have "unat b < 2 ^ 8" using unsigned_less [of b] by simp
  then show "unat (drop_bit 4 b) < 16" by (simp add: drop_bit_eq_div unat_div less_mult_imp_div_less)
qed

lemma hex_pair_escape: "qp_escape (hex_pair c @ r) = Inr c"
  by (simp add: qp_escape_def hex_pair_def HEX_nth nibbles nibbles_less Let_def)

lemma length_hex_pair [simp]: "length (hex_pair c) = 2"
  by (simp add: hex_pair_def Let_def)

lemma set_hex_pair: "set (hex_pair c) \<subseteq> set HEX"
proof -
  have "HEX ! i \<in> set HEX" if "i < 16" for i
    using that by (intro nth_mem) (simp add: HEX_def)
  then show ?thesis by (simp add: hex_pair_def nibbles_less Let_def)
qed

lemma HEX_chars: "c \<in> set HEX \<Longrightarrow> c \<noteq> CR \<and> c \<noteq> LF \<and> c \<noteq> CHR ''?''"
proof -
  have "list_all (\<lambda>c. c \<noteq> CR \<and> c \<noteq> LF \<and> c \<noteq> CHR ''?'') HEX" by code_simp
  then show "c \<in> set HEX \<Longrightarrow> ?thesis" by (auto simp: list_all_iff)
qed

lemma hex_pair_chars: "c \<in> set (hex_pair d) \<Longrightarrow> c \<noteq> CR \<and> c \<noteq> LF \<and> c \<noteq> CHR ''?''"
  using set_hex_pair HEX_chars by blast

lemma hex_pair_no_break: "\<not> prefix [CR, LF] (hex_pair c @ r)" "\<not> prefix [LF] (hex_pair c @ r)"
proof -
  have "CR \<notin> set (hex_pair c)" "LF \<notin> set (hex_pair c)" using hex_pair_chars by blast+
  then show "\<not> prefix [CR, LF] (hex_pair c @ r)" "\<not> prefix [LF] (hex_pair c @ r)"
    by (auto simp: hex_pair_def Let_def)
qed

section \<open>Quoted-printable\<close>

lemma qp_token_length: "length (qp_token c) \<le> 3" "0 < length (qp_token c)"
  by (simp_all add: qp_token_def)

lemma qp_token_no_break: "CR \<notin> set (qp_token c)" "LF \<notin> set (qp_token c)"
  using hex_pair_chars [of _ c] by (auto simp: qp_token_def qp_literal_def in_range_def)

lemma qp_decode_token:
  "qp_decode_loop False (qp_token c @ r) out = qp_decode_loop False r (out @ [c])"
proof (cases "qp_literal c")
  case True
  then have "c \<noteq> CHR ''=''" by (auto simp: qp_literal_def in_range_def)
  with True show ?thesis by (simp add: qp_token_def)
next
  case False
  then show ?thesis by (simp add: qp_token_def hex_pair_escape hex_pair_no_break)
qed

text \<open>The output is produced from left to right: a token, a soft break or a line break at a time.\<close>

definition qp_break :: "nat \<Rightarrow> char \<Rightarrow> string" where
  "qp_break n c = (if n + length (qp_token c) > 75 then ''='' @ [CR, LF] else [])"

definition qp_next :: "nat \<Rightarrow> char \<Rightarrow> nat" where
  "qp_next n c = (if n + length (qp_token c) > 75 then 0 else n) + length (qp_token c)"

lemma qp_push_token_eq:
  "n \<le> 75 \<Longrightarrow> qp_push_token out n (qp_token c) = (out @ qp_break n c @ qp_token c, qp_next n c)"
  using qp_token_length [of c]
  by (simp add: qp_push_token_def qp_break_def qp_next_def saturating_add_exact usize_max_def)

lemma qp_next_le [simp]: "n \<le> 75 \<Longrightarrow> qp_next n c \<le> 75"
  using qp_token_length [of c] by (simp add: qp_next_def)

lemma qp_encode_loop_acc:
  "n \<le> 75 \<Longrightarrow> qp_encode_loop cs out n = out @ qp_encode_loop cs [] n"
proof (induction cs arbitrary: out n rule: length_induct)
  case (1 cs)
  show ?case
  proof (cases cs)
    case (Cons c ds)
    have IH: "qp_encode_loop es o' m = o' @ qp_encode_loop es [] m"
      if "length es < length cs" "m \<le> 75" for es o' m using 1 that by blast
    show ?thesis
      using Cons IH [of "drop 1 ds" 0 "out @ [CR, LF]"] IH [of "drop 1 ds" 0 "[CR, LF]"]
        IH [of ds "qp_next n c" "out @ qp_break n c @ qp_token c"]
        IH [of ds "qp_next n c" "qp_break n c @ qp_token c"] 1(2) qp_next_le [of n c]
      by (simp add: qp_push_token_eq)
  qed simp
qed

lemma qp_encode_loop_Cons:
  assumes "n \<le> 75"
  shows "qp_encode_loop (CR # LF # cs) [] n = [CR, LF] @ qp_encode_loop cs [] 0"
    and "\<not> (c = CR \<and> prefix [LF] cs) \<Longrightarrow>
      qp_encode_loop (c # cs) [] n = qp_break n c @ qp_token c @ qp_encode_loop cs [] (qp_next n c)"
  using assms qp_encode_loop_acc [of 0 cs "[CR, LF]"]
    qp_encode_loop_acc [of "qp_next n c" cs "qp_break n c @ qp_token c"] qp_next_le [OF assms, of c]
  by (auto simp: qp_push_token_eq)

lemma qp_encode_induct [consumes 1, case_names Nil crlf token]:
  assumes "n \<le> 75"
    and "\<And>n. n \<le> 75 \<Longrightarrow> P [] n"
    and "\<And>cs n. n \<le> 75 \<Longrightarrow> P cs 0 \<Longrightarrow> P (CR # LF # cs) n"
    and "\<And>c cs n. n \<le> 75 \<Longrightarrow> \<not> (c = CR \<and> prefix [LF] cs) \<Longrightarrow> P cs (qp_next n c) \<Longrightarrow> P (c # cs) n"
  shows "P cs n"
  using assms(1)
proof (induction cs arbitrary: n rule: length_induct)
  case (1 cs)
  show ?case
  proof (cases cs)
    case (Cons c ds)
    show ?thesis
    proof (cases "c = CR \<and> prefix [LF] ds")
      case True
      then obtain es where "ds = LF # es" by (cases ds) auto
      with True Cons 1 assms(3) [of n es] show ?thesis by simp
    next
      case False
      with Cons 1 assms(4) [of n c ds] qp_next_le [of n c] show ?thesis by simp
    qed
  qed (use 1 assms in simp)
qed

text \<open>
  Property C26: quoted-printable round trip. Decoding what the encoder wrote gives the bytes back.
\<close>

theorem qp_roundtrip: "qp_decode (qp_encode bytes) False = Inr bytes"
proof -
  have "qp_decode_loop False (qp_encode_loop bytes [] n) out = Inr (out @ bytes)" if "n \<le> 75" for n out
    using that
  proof (induction bytes n arbitrary: out rule: qp_encode_induct)
    case (crlf cs n)
    then show ?case by (simp add: qp_encode_loop_Cons del: qp_encode_loop.simps)
  next
    case (token c cs n)
    then show ?case
      by (simp add: qp_encode_loop_Cons qp_decode_token qp_break_def del: qp_encode_loop.simps)
  qed simp
  then show ?thesis by (simp add: qp_encode_def qp_decode_def)
qed

text \<open>The same after the line breaks of the message have been normalised, as the parser does.\<close>

lemma qp_normalized:
  "qp_decode (normalize_raw_message (qp_encode bytes)) False = Inr (replace_str [CR, LF] [LF] bytes)"
proof -
  have "qp_decode_loop False (normalize_raw_message (qp_encode_loop bytes [] n)) out =
      Inr (out @ replace_str [CR, LF] [LF] bytes)" if "n \<le> 75" for n out
    using that
  proof (induction bytes n arbitrary: out rule: qp_encode_induct)
    case (crlf cs n)
    then show ?case by (simp add: qp_encode_loop_Cons del: qp_encode_loop.simps)
  next
    case (token c cs n)
    then have "replace_str [CR, LF] [LF] (c # cs) = c # replace_str [CR, LF] [LF] cs" by auto
    with token show ?case
      by (simp add: qp_encode_loop_Cons qp_decode_token qp_break_def normalize_raw_append
          qp_token_no_break del: qp_encode_loop.simps replace_str.simps)
  qed simp
  then show ?thesis by (simp add: qp_encode_def qp_decode_def)
qed

text \<open>Lines of a text with CRLF line breaks.\<close>

definition crlf_lines :: "string \<Rightarrow> string list" where
  "crlf_lines s = map (trim_end_char CR) (split_char LF s)"

lemma split_char_append_break:
  "c \<notin> set s \<Longrightarrow> split_char c (s @ c # r) = s # split_char c r"
  by (induction s) auto

lemma trim_end_char_snoc [simp]: "trim_end_char c (s @ [c]) = trim_end_char c s"
  by (simp add: trim_end_char_def)

lemma trim_end_char_id: "c \<notin> set s \<Longrightarrow> trim_end_char c s = s"
  by (cases s rule: rev_cases) (auto simp: trim_end_char_def)

lemma crlf_lines_break:
  "CR \<notin> set s \<Longrightarrow> LF \<notin> set s \<Longrightarrow> crlf_lines (s @ CR # LF # r) = s # crlf_lines r"
  using split_char_append_break [of LF "s @ [CR]" r] by (simp add: crlf_lines_def trim_end_char_id)

lemma crlf_lines_single: "CR \<notin> set s \<Longrightarrow> LF \<notin> set s \<Longrightarrow> crlf_lines s = [s]"
proof -
  assume "CR \<notin> set s" "LF \<notin> set s"
  moreover from this(2) have "split_char LF s = [s]" by (induction s) auto
  ultimately show ?thesis by (simp add: crlf_lines_def trim_end_char_id)
qed

text \<open>
  The encoder respects the line limit of RFC 2045: no line of its output is longer than
  76 characters, soft line breaks included.
\<close>

theorem qp_lines_bounded: "list_all (\<lambda>line. length line \<le> 76) (crlf_lines (qp_encode bytes))"
proof -
  have "list_all (\<lambda>line. length line \<le> 76) (crlf_lines (pre @ qp_encode_loop bytes [] n))"
    if "n \<le> 75" "length pre = n" "CR \<notin> set pre" "LF \<notin> set pre" for n pre
    using that
  proof (induction bytes n arbitrary: pre rule: qp_encode_induct)
    case (Nil n)
    then show ?case by (simp add: crlf_lines_single)
  next
    case (crlf cs n)
    then show ?case by (simp add: qp_encode_loop_Cons crlf_lines_break del: qp_encode_loop.simps)
  next
    case (token c cs n)
    note no_break = qp_token_no_break [of c] qp_token_length [of c]
    show ?case
    proof (cases "n + length (qp_token c) > 75")
      case True
      then have "qp_next n c = length (qp_token c)" by (simp add: qp_next_def)
      with token True no_break crlf_lines_break [of "pre @ ''=''"] show ?thesis
        by (simp add: qp_encode_loop_Cons qp_break_def del: qp_encode_loop.simps)
    next
      case False
      with token no_break show ?thesis
        using token(3) [of "pre @ qp_token c"]
        by (simp add: qp_encode_loop_Cons qp_break_def qp_next_def del: qp_encode_loop.simps)
    qed
  qed
  from this [of 0 "[]"] show ?thesis by (simp add: qp_encode_def)
qed

section \<open>Base64\<close>

text \<open>
  What the code relies on of the codec: decoding inverts encoding, and the encoded text consists of
  printable ASCII characters without blanks.
\<close>

definition codec_laws :: "codec \<Rightarrow> bool" where
  "codec_laws c \<longleftrightarrow> (\<forall>b. cd_decode c (cd_encode c b) = Some b) \<and> (\<forall>b. list_all (in_range 33 126) (cd_encode c b))"

lemma utf8_chars_ascii: "is_ascii s \<Longrightarrow> utf8_chars s = map (\<lambda>c. [c]) s"
proof (induction s)
  case (Cons c s)
  then have "takeWhile is_continuation s = []" "dropWhile is_continuation s = s"
    by (cases s; force simp: is_continuation_def in_range_def is_ascii_byte_def)+
  with Cons show ?case by simp
qed simp

lemma wrap_loop_acc:
  "wrap_loop w chs out n = out @ wrap_loop w chs [] n"
proof (induction chs arbitrary: out n)
  case (Cons ch chs)
  show ?case
    using Cons [of "out @ [CR, LF] @ ch" "length ch"] Cons [of "[CR, LF] @ ch" "length ch"]
      Cons [of "out @ ch" "saturating_add n (length ch)"] Cons [of ch "saturating_add n (length ch)"]
      Cons [of "out @ [CR, LF] @ ch"] Cons [of "[CR, LF] @ ch"]
    by (simp add: saturating_add_def)
qed simp

lemma wrap_loop_filter:
  assumes "P CR = False" "P LF = False"
  shows "filter P (wrap_loop w (map (\<lambda>c. [c]) s) [] n) = filter P s"
proof (induction s arbitrary: n)
  case (Cons c s)
  then show ?case
    using assms wrap_loop_acc [of w "map (\<lambda>c. [c]) s" "[c]"] wrap_loop_acc [of w "map (\<lambda>c. [c]) s" "[CR, LF, c]"]
    by simp
qed simp

lemma wrap_loop_lines:
  assumes "n \<le> w" "0 < w" "w < usize_max" "length pre = n" "CR \<notin> set (pre @ s)" "LF \<notin> set (pre @ s)"
  shows "list_all (\<lambda>line. length line \<le> w) (crlf_lines (pre @ wrap_loop w (map (\<lambda>c. [c]) s) [] n))"
  using assms
proof (induction s arbitrary: n pre)
  case Nil
  then show ?case by (simp add: crlf_lines_single)
next
  case (Cons c s)
  show ?case
  proof (cases "w \<le> n")
    case True
    with Cons Cons.IH [of 1 "[c]"] wrap_loop_acc [of w "map (\<lambda>c. [c]) s" "[CR, LF, c]" 1] show ?thesis
      by (simp add: crlf_lines_break saturating_add_exact)
  next
    case False
    with Cons Cons.IH [of "Suc n" "pre @ [c]"] wrap_loop_acc [of w "map (\<lambda>c. [c]) s" "[c]" "Suc n"] show ?thesis
      by (simp add: saturating_add_exact)
  qed
qed

lemma codec_laws_encoded:
  assumes "codec_laws b64"
  shows "is_ascii (cd_encode b64 b)" "filter (\<lambda>ch. \<not> is_ascii_whitespace ch) (cd_encode b64 b) = cd_encode b64 b"
    "CR \<notin> set (cd_encode b64 b)" "LF \<notin> set (cd_encode b64 b)"
proof -
  have r: "in_range 33 126 c" if "c \<in> set (cd_encode b64 b)" for c
    using assms that by (auto simp: codec_laws_def list_all_iff)
  show "is_ascii (cd_encode b64 b)"
    using r by (fastforce simp: is_ascii_def list_all_iff is_ascii_byte_def in_range_def)
  show "filter (\<lambda>ch. \<not> is_ascii_whitespace ch) (cd_encode b64 b) = cd_encode b64 b"
    by (intro filter_True) (auto simp: is_ascii_whitespace_def in_range_def dest!: r)
  show "CR \<notin> set (cd_encode b64 b)" "LF \<notin> set (cd_encode b64 b)"
    by (auto simp: in_range_def dest!: r)
qed

lemma base64_wrappedD:
  assumes "codec_laws b64"
  shows "base64_decode_liberal b64 (base64_encode_wrapped b64 bytes) = Inr bytes"
    and "base64_decode_liberal b64 (normalize_raw_message (base64_encode_wrapped b64 bytes)) = Inr bytes"
    and "list_all (\<lambda>line. length line \<le> 76) (crlf_lines (base64_encode_wrapped b64 bytes))"
proof -
  let ?f = "filter (\<lambda>ch. \<not> is_ascii_whitespace ch)" and ?s = "cd_encode b64 bytes"
  let ?w = "wrap_loop 76 (map (\<lambda>c. [c]) ?s) [] 0"
  note enc = codec_laws_encoded [OF assms, of bytes]
  have w: "base64_encode_wrapped b64 bytes = ?w"
    using enc by (simp add: base64_encode_wrapped_def wrap_ascii_line_def utf8_chars_ascii)
  have nr: "?f (normalize_raw_message s) = ?f s" for s
  proof (induction s rule: length_induct)
    case (1 s)
    show ?case
    proof (cases s)
      case (Cons c t)
      with 1 show ?thesis
        by (cases "c = CR"; cases t) (auto simp: is_ascii_whitespace_def)
    qed simp
  qed
  have f: "?f ?w = ?s"
    using enc(2) wrap_loop_filter [of "\<lambda>ch. \<not> is_ascii_whitespace ch" 76 ?s 0]
    by (simp add: is_ascii_whitespace_def)
  have d: "cd_decode b64 ?s = Some bytes" using assms by (simp add: codec_laws_def)
  show "base64_decode_liberal b64 (base64_encode_wrapped b64 bytes) = Inr bytes"
    "base64_decode_liberal b64 (normalize_raw_message (base64_encode_wrapped b64 bytes)) = Inr bytes"
    using f d by (simp_all add: w nr base64_decode_liberal_def)
  show "list_all (\<lambda>line. length line \<le> 76) (crlf_lines (base64_encode_wrapped b64 bytes))"
    using wrap_loop_lines [of 0 76 "[]" ?s] enc by (simp add: w usize_max_def)
qed

text \<open>
  Wrapped Base64. The lines of an encoded body have at most 76 characters, and decoding
  it gives the bytes back, also after its line breaks have been normalised.
\<close>

theorem base64_wrapped:
  assumes "codec_laws b64"
  shows "base64_decode_liberal b64 (base64_encode_wrapped b64 bytes) = Inr bytes
    \<and> base64_decode_liberal b64 (normalize_raw_message (base64_encode_wrapped b64 bytes)) = Inr bytes
    \<and> list_all (\<lambda>line. length line \<le> 76) (crlf_lines (base64_encode_wrapped b64 bytes))"
  using base64_wrappedD [OF assms] by simp

section \<open>Encoded words\<close>

lemma q_token_no_question: "CHR ''?'' \<notin> set (q_token c)"
  using hex_pair_chars [of _ c] by (auto simp: q_token_def q_plain_def in_range_def)

lemma q_decode_token: "qp_decode_loop True (q_token c @ r) out = qp_decode_loop True r (out @ [c])"
  by (auto simp: q_token_def q_plain_def in_range_def hex_pair_escape hex_pair_no_break)

lemma q_decode_tokens: "qp_decode_loop True (concat (map q_token v)) out = Inr (out @ v)"
  by (induction v arbitrary: out) (simp_all add: q_decode_token)

lemma split_once_first:
  "c \<notin> set s \<Longrightarrow> split_once (c # cs) (s @ c # cs @ r) = Some (s, r)"
proof -
  assume c: "c \<notin> set s"
  have "\<not> prefix (c # cs) (drop i (s @ c # cs @ r))" if "i < length s" for i
  proof -
    have "drop i (s @ c # cs @ r) = s ! i # drop (Suc i) (s @ c # cs @ r)"
      using that by (simp add: Cons_nth_drop_Suc [symmetric] nth_append)
    with c that show ?thesis by auto
  qed
  then have "find_sub (c # cs) (s @ c # cs @ r) = Some (length s)" by (intro find_sub_first) auto
  then show ?thesis by (simp add: split_once_def)
qed

lemma word_parts_q:
  "word_parts (''UTF-8?Q?'' @ concat (map q_token v) @ ''?='' @ r) = Some (''UTF-8'', ''Q'', concat (map q_token v), r)"
proof -
  let ?t = "concat (map q_token v)"
  have "CHR ''?'' \<notin> set ?t" using q_token_no_question by auto
  then have "split_once ''?='' (?t @ ''?='' @ r) = Some (?t, r)"
    using split_once_first [of "CHR ''?''" ?t "''=''" r] by simp
  then show ?thesis
    using split_once_first [of "CHR ''?''" "''UTF-8''" "[]" "''Q?'' @ ?t @ ''?='' @ r"]
      split_once_first [of "CHR ''?''" "''Q''" "[]" "?t @ ''?='' @ r"]
    by (simp add: word_parts_def)
qed

lemma decode_encoded_words_plain: "\<not> contains v ''=?'' \<Longrightarrow> decode_encoded_words b64 v = Inr v"
  by (simp add: decode_encoded_words_def decode_words_loop.simps contains_def)

lemma decode_q_header:
  assumes "utf8_valid v"
  shows "decode_encoded_words b64 (q_encode_header v) = Inr v"
proof -
  let ?t = "concat (map q_token v)"
  have "to_ascii_lowercase ''UTF-8'' = ''utf-8''" "to_ascii_lowercase ''Q'' = ''q''" by code_simp+
  then have "decode_word b64 ''UTF-8'' ''Q'' ?t = Inr v"
    using assms q_decode_tokens [of v "[]"] by (simp add: decode_word_def qp_decode_def from_utf8_def)
  moreover have "word_parts (''UTF-8?Q?'' @ ?t @ ''?='') = Some (''UTF-8'', ''Q'', ?t, [])"
    using word_parts_q [of v "[]"] by simp
  ultimately show ?thesis
    by (simp add: decode_encoded_words_def q_encode_header_def decode_words_loop.simps)
qed

lemma header_value_roundtripD:
  "utf8_valid v \<Longrightarrow> (is_ascii v \<Longrightarrow> \<not> contains v ''=?'') \<Longrightarrow>
     decode_encoded_words b64 (maybe_encode_header_value v) = Inr v"
  by (simp add: maybe_encode_header_value_def decode_encoded_words_plain decode_q_header)

text \<open>
  Header values survive. Encoding a header value for the wire and decoding its encoded
  words gives the value back, for every value that is not ASCII and for every ASCII value that does
  not itself contain the start of an encoded word.
\<close>

theorem header_value_roundtrip:
  assumes "utf8_valid v" and "is_ascii v \<longrightarrow> \<not> contains v ''=?''"
  shows "decode_encoded_words b64 (maybe_encode_header_value v) = Inr v"
  using assms by (simp add: header_value_roundtripD)

section \<open>Witnesses\<close>

text \<open>A codec with the laws: every byte as two letters.\<close>

fun nibble_decode :: "string \<Rightarrow> string option" where
  "nibble_decode [] = Some []"
| "nibble_decode [c] = None"
| "nibble_decode (c # d # s) =
     map_option (Cons (char_of ((byte_val c - 65) * 16 + (byte_val d - 65)))) (nibble_decode s)"

definition nibble_codec :: codec where
  "nibble_codec =
     \<lparr>cd_encode = (\<lambda>s. concat (map (\<lambda>c. [char_of (65 + byte_val c div 16), char_of (65 + byte_val c mod 16)]) s)),
      cd_decode = nibble_decode\<rparr>"

lemma nibble_codec_laws: "codec_laws nibble_codec"
proof -
  have v: "byte_val (char_of (65 + n)) = 65 + n" if "n < 16" for n :: nat
    using that by simp
  have h: "byte_val c div 16 < 16" for c
    using nat_of_char_less_256 [of c] by (intro less_mult_imp_div_less) simp
  have "nibble_decode (concat (map (\<lambda>c. [char_of (65 + byte_val c div 16), char_of (65 + byte_val c mod 16)]) s)) = Some s" for s
  proof (induction s)
    case (Cons c s)
    have "(65 + byte_val c div 16) mod 256 = 65 + byte_val c div 16" using h [of c] by simp
    with Cons show ?case by simp
  qed simp
  moreover have "list_all (in_range 33 126) (concat (map (\<lambda>c. [char_of (65 + byte_val c div 16), char_of (65 + byte_val c mod 16)]) s))" for s
  proof (induction s)
    case (Cons c s)
    have "byte_val c mod 16 < 16" by simp
    then have "in_range 33 126 (char_of (65 + byte_val c div 16))" "in_range 33 126 (char_of (65 + byte_val c mod 16))"
      using h [of c] by (simp_all only: in_range_def v) linarith+
    with Cons show ?case by simp
  qed simp
  ultimately show ?thesis by (simp add: codec_laws_def nibble_codec_def)
qed

theorem base64_wrapped_witness:
  "base64_decode_liberal nibble_codec (base64_encode_wrapped nibble_codec ''bytes'') = Inr ''bytes''"
  using base64_wrapped [OF nibble_codec_laws] by blast

theorem header_value_roundtrip_witness:
  "decode_encoded_words nibble_codec (maybe_encode_header_value [CHR ''a'', CHR 0xC3, CHR 0xA9]) =
     Inr [CHR ''a'', CHR 0xC3, CHR 0xA9]"
proof (rule header_value_roundtrip)
  show "utf8_valid [CHR ''a'', CHR 0xC3, CHR 0xA9]" by code_simp
  show "is_ascii [CHR ''a'', CHR 0xC3, CHR 0xA9] \<longrightarrow> \<not> contains [CHR ''a'', CHR 0xC3, CHR 0xA9] ''=?''" by code_simp
qed

end
