(* ===== verification/Mime_Headers.thy ===== *)
theory Mime_Headers
  imports Mime_Message Mime_Codec_Properties
begin

text \<open>
  Header blocks of MIME messages: folding and unfolding, parsing of rendered headers, lookup in
  header lists, and the boundary parameter of content types.
\<close>

section \<open>Words\<close>

lemma join_with_Cons: "ws \<noteq> [] \<Longrightarrow> join_with sep (w # ws) = w @ sep @ join_with sep ws"
  by (cases ws) simp_all

lemma join_with_append:
  "us \<noteq> [] \<Longrightarrow> ws \<noteq> [] \<Longrightarrow> join_with sep (us @ ws) = join_with sep us @ sep @ join_with sep ws"
proof (induction us)
  case (Cons u us)
  then show ?case by (cases "us = []") (auto simp: join_with_Cons)
qed simp

lemma join_with_concat:
  "list_all (\<lambda>ws. ws \<noteq> []) wss \<Longrightarrow> join_with sep (concat wss) = join_with sep (map (join_with sep) wss)"
proof (induction wss)
  case (Cons ws wss)
  then show ?case by (cases "wss = []") (auto simp: join_with_append join_with_Cons list_all_iff)
qed simp

definition is_word :: "string \<Rightarrow> bool" where
  "is_word w \<longleftrightarrow> w \<noteq> [] \<and> list_all printable w"

lemma is_word_tight: "is_word w \<Longrightarrow> tight w"
  by (cases w) (auto simp: is_word_def tight_def list_all_iff)

lemma hd_append_ne: "xs \<noteq> [] \<Longrightarrow> hd (xs @ ys) = hd xs"
  by (cases xs) auto

lemma join_words_tight:
  assumes "list_all is_word ws" "ws \<noteq> []"
  shows "tight (join_with [SP] ws)"
  using assms
proof (induction ws)
  case (Cons w ws)
  then show ?case
    by (cases "ws = []") (auto simp: join_with_Cons tight_def hd_append_ne dest!: is_word_tight)
qed simp

lemma join_words_no_break:
  "list_all is_word ws \<Longrightarrow> CR \<notin> set (join_with [SP] ws) \<and> LF \<notin> set (join_with [SP] ws)"
proof (induction ws)
  case (Cons w ws)
  have "CR \<notin> set w \<and> LF \<notin> set w"
    using Cons.prems by (auto simp: is_word_def list_all_iff printable_def in_range_def)
  with Cons show ?case by (cases "ws = []") (auto simp: join_with_Cons)
qed simp

section \<open>Folding\<close>

text \<open>The folding loop distributes the words over lines.\<close>

fun fold_groups :: "string list \<Rightarrow> string list \<Rightarrow> string list list" where
  "fold_groups [] current = [current]"
| "fold_groups (word # words) current =
     (if current \<noteq> [] \<and> saturating_add (saturating_add (length (join_with [SP] current)) 1) (length word) > 78
      then current # fold_groups words [word]
      else fold_groups words (current @ [word]))"

lemma fold_groups_concat: "concat (fold_groups words current) = current @ words"
  by (induction words current rule: fold_groups.induct) auto

lemma fold_groups_ne:
  "current \<noteq> [] \<or> words \<noteq> [] \<Longrightarrow> list_all (\<lambda>ws. ws \<noteq> []) (fold_groups words current)"
  by (induction words current rule: fold_groups.induct) auto

lemma fold_groups_not_Nil: "fold_groups words current \<noteq> []"
  by (induction words current rule: fold_groups.induct) auto

abbreviation fold_break :: string where "fold_break \<equiv> [CR, LF, SP]"

lemma fold_words_groups:
  assumes "list_all is_word words" "list_all is_word current"
  shows "fold_words words folded (join_with [SP] current) =
    (let gs = map (join_with [SP]) (fold_groups words current)
     in (if butlast gs = [] then folded
         else if folded = [] then join_with fold_break (butlast gs)
         else folded @ fold_break @ join_with fold_break (butlast gs), last gs))"
  using assms
proof (induction words current arbitrary: folded rule: fold_groups.induct)
  case (2 word words current)
  have "word \<noteq> []" using 2(3) by (simp add: is_word_def)
  have cur: "join_with [SP] current \<noteq> []" if "current \<noteq> []"
    using join_words_tight [OF 2(4) that] by (simp add: tight_def)
  show ?case
  proof (cases "current \<noteq> [] \<and> saturating_add (saturating_add (length (join_with [SP] current)) 1) (length word) > 78")
    case True
    with 2 cur fold_groups_not_Nil [of words "[word]"] show ?thesis
      by (auto simp: Let_def join_with_Cons)
  next
    case False
    have "join_with [SP] current @ (if join_with [SP] current = [] then [] else [SP]) @ word = join_with [SP] (current @ [word])"
      using cur join_with_append [of current "[word]" "[SP]"] by (cases "current = []") auto
    with False 2 cur show ?thesis by (auto simp: Let_def)
  qed
qed (simp add: Let_def)

lemma fold_header_line_groups:
  assumes "list_all is_word ws" "ws = split_char SP (name @ '': '' @ value)"
  obtains wss where "list_all (\<lambda>ws. ws \<noteq> []) wss" "concat wss = ws"
    "fold_header_line name value = join_with fold_break (map (join_with [SP]) wss)"
proof -
  have ws: "ws \<noteq> []" "join_with [SP] ws = name @ '': '' @ value" using assms(2) by (simp_all add: join_split_char)
  define gs where "gs = fold_groups ws []"
  have gs: "list_all (\<lambda>ws. ws \<noteq> []) gs" "concat gs = ws" "gs \<noteq> []"
    using ws(1) by (simp_all add: gs_def fold_groups_ne fold_groups_concat fold_groups_not_Nil)
  let ?js = "map (join_with [SP]) gs"
  have f: "fold_words ws [] [] = (join_with fold_break (butlast ?js), last ?js)"
    using fold_words_groups [OF assms(1), of "[]" "[]"] by (auto simp: gs_def Let_def)
  show ?thesis
  proof (cases "length (name @ '': '' @ value) \<le> 78 \<or> join_with fold_break (butlast ?js) = []")
    case True
    then have "fold_header_line name value = name @ '': '' @ value"
      using f assms(2) by (auto simp: fold_header_line_def Let_def)
    then show ?thesis using ws by (intro that [of "[ws]"]) simp_all
  next
    case False
    then have "butlast ?js \<noteq> []" by auto
    then have "join_with fold_break (butlast ?js @ [last ?js]) = join_with fold_break (butlast ?js) @ fold_break @ last ?js"
      by (subst join_with_append) simp_all
    moreover have "butlast ?js @ [last ?js] = ?js" using gs(3) by simp
    ultimately have "fold_header_line name value = join_with fold_break ?js"
      using False f assms(2) by (simp add: fold_header_line_def Let_def)
    with gs show ?thesis by (intro that [of gs])
  qed
qed

section \<open>Parsing a rendered header\<close>

lemma continuation_lines:
  assumes "list_all (\<lambda>ws. ws \<noteq> [] \<and> list_all is_word ws) wss"
  shows "parse_header_lines b64 (map (\<lambda>ws. SP # join_with [SP] ws) wss @ rest) (Some n) v hs =
    parse_header_lines b64 rest (Some n) (v @ concat (map (\<lambda>ws. SP # join_with [SP] ws) wss)) hs"
  using assms
proof (induction wss arbitrary: v)
  case (Cons ws wss)
  then show ?case by (simp add: trim_tight join_words_tight)
qed simp

text \<open>The lines of a header, given the words of its lines.\<close>

definition header_lines :: "string list list \<Rightarrow> string list" where
  "header_lines wss = join_with [SP] (hd wss) # map (\<lambda>ws. SP # join_with [SP] ws) (tl wss)"

lemma value_of_groups:
  assumes "list_all (\<lambda>ws. ws \<noteq> [] \<and> list_all is_word ws) wss" "list_all is_word us" "us @ concat wss \<noteq> []"
  shows "trim (join_with [SP] us @ concat (map (\<lambda>ws. SP # join_with [SP] ws) wss)) = join_with [SP] (us @ concat wss)"
proof -
  have c: "concat (map (\<lambda>ws. SP # join_with [SP] ws) wss) = (if wss = [] then [] else SP # join_with [SP] (concat wss))"
    using assms(1)
  proof (induction wss)
    case (Cons ws wss)
    then show ?case by (cases "wss = []") (auto simp: join_with_append list_all_iff)
  qed simp
  have "concat wss \<noteq> []" if "wss \<noteq> []" using assms(1) that by (cases wss) auto
  moreover have "tight (join_with [SP] (us @ concat wss))"
    using assms by (intro join_words_tight) (auto simp: list_all_iff)
  ultimately show ?thesis
    unfolding c using join_with_append [of us "concat wss" "[SP]"]
    by (cases "us = []"; cases "wss = []") (simp_all add: trim_tight)
qed

definition name_ok :: "string \<Rightarrow> bool" where
  "name_ok name \<longleftrightarrow> validate_header_name name = Inr ()"

lemma name_ok_iff: "name_ok name \<longleftrightarrow> is_word name \<and> CHR '':'' \<notin> set name"
proof -
  have "printable b \<and> b \<noteq> CHR '':'' \<longleftrightarrow> (in_range 33 57 b \<or> in_range 59 126 b) \<and> b \<noteq> CHR '':''" for b
  proof -
    have "byte_val b \<noteq> 58" if "b \<noteq> CHR '':''"
    proof
      assume "byte_val b = 58"
      moreover have "char_of (58 :: nat) = CHR '':''" by code_simp
      ultimately show False using that char_of_char [of b] by metis
    qed
    then show ?thesis by (auto simp: printable_def in_range_def)
  qed
  then show ?thesis
    by (auto simp: name_ok_def validate_header_name_def is_word_def list_all_iff)
qed

lemma parse_one_header:
  assumes "name_ok name" "list_all (\<lambda>ws. ws \<noteq> [] \<and> list_all is_word ws) wss" "vs \<noteq> []"
    "concat wss = (name @ '':'') # vs" "cn = None \<Longrightarrow> cv = []"
  obtains v where "trim v = join_with [SP] vs"
    "\<And>rest. parse_header_lines b64 (header_lines wss @ rest) cn cv hs =
       bind_ok (finish_header b64 cn cv hs) (\<lambda>hs. parse_header_lines b64 rest (Some name) v hs)"
proof -
  obtain us tss where w: "wss = ((name @ '':'') # us) # tss" "vs = us @ concat tss"
    using assms(2,4) by (cases wss; cases "hd wss") auto
  let ?v = "join_with [SP] us @ concat (map (\<lambda>ws. SP # join_with [SP] ws) tss)"
  have us: "list_all is_word us" using assms(2) w(1) by simp
  have t: "trim ?v = join_with [SP] vs"
    using assms(2,3) w us by (simp add: value_of_groups)
  let ?line = "join_with [SP] ((name @ '':'') # us)"
  have n: "is_word name" "CHR '':'' \<notin> set name" using assms(1) by (simp_all add: name_ok_iff)
  then have line: "\<not> prefix [SP] ?line" "\<not> prefix [TAB] ?line"
    by (cases us; cases name; auto simp: is_word_def printable_def in_range_def)+
  have "?line = name @ CHR '':'' # [] @ (if us = [] then [] else SP # join_with [SP] us)"
    by (cases us) (auto simp: join_with_Cons)
  then have "split_once '':'' ?line = Some (name, if us = [] then [] else SP # join_with [SP] us)"
    using split_once_first [of "CHR '':''" name "[]"] n(2) by simp
  moreover have "trim (if us = [] then [] else SP # join_with [SP] us) = join_with [SP] us"
    using us by (auto simp: trim_tight join_words_tight)
  ultimately have "parse_header_lines b64 (header_lines wss @ rest) cn cv hs =
      bind_ok (finish_header b64 cn cv hs) (\<lambda>hs. parse_header_lines b64 rest (Some name) ?v hs)" for rest
    using line assms(1,2,5) w continuation_lines [of tss b64 rest name "join_with [SP] us"]
    by (cases cn) (auto simp: header_lines_def name_ok_def Let_def)
  with t show ?thesis by (rule that)
qed

section \<open>Header blocks\<close>

text \<open>
  A header value that survives folding: not ASCII (then it is encoded as one word), or words of
  printable characters separated by single blanks, without the start of an encoded word.
\<close>

definition value_ok :: "string \<Rightarrow> bool" where
  "value_ok v \<longleftrightarrow> utf8_valid v \<and> CR \<notin> set v \<and> LF \<notin> set v
     \<and> (is_ascii v \<longrightarrow> list_all is_word (split_char SP v) \<and> \<not> contains v ''=?'')"

definition header_ok :: "Header \<Rightarrow> bool" where
  "header_ok h \<longleftrightarrow> name_ok (h_name h) \<and> value_ok (h_value h)"

lemma HEX_printable: "c \<in> set (hex_pair d) \<Longrightarrow> printable c"
proof -
  have "list_all printable HEX" by code_simp
  then show "c \<in> set (hex_pair d) \<Longrightarrow> printable c" using set_hex_pair by (fastforce simp: list_all_iff)
qed

lemma printable_marks: "printable (CHR ''='')" "printable (CHR ''_'')" "printable (CHR ''?'')"
  by code_simp+

lemma q_token_printable: "list_all printable (q_token c)"
proof -
  have "printable c" if "q_plain c"
  proof -
    have "list_all printable ''!*+-/''" by code_simp
    with that show ?thesis by (auto simp: q_plain_def printable_def in_range_def list_all_iff)
  qed
  then show ?thesis
    by (auto simp: q_token_def list_all_iff printable_marks intro: HEX_printable)
qed

lemma q_encode_word: "is_word (q_encode_header v)"
proof -
  have "list_all printable ''=?UTF-8?Q?''" "list_all printable ''?=''" by code_simp+
  then show ?thesis
    using q_token_printable by (fastforce simp: is_word_def q_encode_header_def list_all_iff)
qed

lemma split_char_none: "c \<notin> set s \<Longrightarrow> split_char c s = [s]"
  by (induction s) auto

lemma encoded_words:
  assumes "value_ok v"
  shows "list_all is_word (split_char SP (maybe_encode_header_value v))"
proof (cases "is_ascii v")
  case False
  have "SP \<notin> set (q_encode_header v)"
    using q_encode_word [of v] by (auto simp: is_word_def list_all_iff printable_def in_range_def)
  with False show ?thesis by (simp add: maybe_encode_header_value_def split_char_none q_encode_word)
qed (use assms in \<open>simp add: value_ok_def maybe_encode_header_value_def\<close>)

lemma decode_value_ok: "value_ok v \<Longrightarrow> decode_encoded_words b64 (maybe_encode_header_value v) = Inr v"
  by (rule header_value_roundtripD) (auto simp: value_ok_def)

definition lines_text :: "string list \<Rightarrow> string" where
  "lines_text ls = concat (map (\<lambda>l. l @ [LF]) ls)"

text \<open>The lines that a header is rendered to.\<close>

definition header_rendered :: "Header \<Rightarrow> string list \<Rightarrow> bool" where
  "header_rendered h ls \<longleftrightarrow> (\<exists>wss. ls = header_lines wss
     \<and> list_all (\<lambda>ws. ws \<noteq> [] \<and> list_all is_word ws) wss
     \<and> concat wss = (h_name h @ '':'') # split_char SP (maybe_encode_header_value (h_value h)))"

lemma normalize_folded:
  assumes "list_all (\<lambda>ws. list_all is_word ws) wss" "wss \<noteq> []"
  shows "normalize_raw_message (join_with fold_break (map (join_with [SP]) wss) @ [CR, LF] @ rest) =
    lines_text (header_lines wss) @ normalize_raw_message rest"
  using assms
proof (induction wss)
  case (Cons ws wss)
  note nb = join_words_no_break [of ws]
  show ?case
  proof (cases wss)
    case Nil
    with Cons.prems nb show ?thesis
      by (simp add: normalize_raw_append lines_text_def header_lines_def)
  next
    case (Cons vs vss)
    with Cons.prems nb Cons.IH show ?thesis
      by (simp add: normalize_raw_append lines_text_def header_lines_def)
  qed
qed simp

lemma render_one_header:
  assumes "header_ok h"
  obtains ls where "header_rendered h ls"
    "\<And>rest. normalize_raw_message (fold_header_line (h_name h) (maybe_encode_header_value (h_value h)) @ [CR, LF] @ rest) =
       lines_text ls @ normalize_raw_message rest"
proof -
  let ?e = "maybe_encode_header_value (h_value h)" and ?n = "h_name h"
  have n: "is_word ?n" using assms by (simp add: header_ok_def name_ok_iff)
  then have "SP \<notin> set (?n @ '':'')" by (auto simp: is_word_def list_all_iff printable_def in_range_def)
  then have split: "split_char SP (?n @ '': '' @ ?e) = (?n @ '':'') # split_char SP ?e"
    using split_char_append_break [of SP "?n @ '':''" ?e] by simp
  have "printable (CHR '':'')" by code_simp
  then have words: "list_all is_word ((?n @ '':'') # split_char SP ?e)"
    using n assms encoded_words by (auto simp: is_word_def header_ok_def list_all_iff)
  obtain wss where w: "list_all (\<lambda>ws. ws \<noteq> []) wss" "concat wss = (?n @ '':'') # split_char SP ?e"
    "fold_header_line ?n ?e = join_with fold_break (map (join_with [SP]) wss)"
    using fold_header_line_groups [OF words split [symmetric]] by blast
  have all: "list_all (\<lambda>ws. ws \<noteq> [] \<and> list_all is_word ws) wss"
    using words w(1) unfolding w(2) [symmetric] by (auto simp: list_all_iff)
  then have "list_all (list_all is_word) wss" "wss \<noteq> []" using w(2) by (auto simp: list_all_iff)
  then have "normalize_raw_message (fold_header_line ?n ?e @ [CR, LF] @ rest) =
      lines_text (header_lines wss) @ normalize_raw_message rest" for rest
    unfolding w(3) by (rule normalize_folded)
  moreover have "header_rendered h (header_lines wss)" using all w(2) by (auto simp: header_rendered_def)
  ultimately show ?thesis by (intro that)
qed

lemma lines_text_simps [simp]:
  "lines_text [] = []" "lines_text (l # ls) = l @ LF # lines_text ls"
  "lines_text (ls @ ms) = lines_text ls @ lines_text ms"
  by (simp_all add: lines_text_def)

lemma render_headers_rendered:
  assumes "list_all header_ok hs"
  obtains out lss where "render_headers hs = Inr out" "list_all2 header_rendered hs lss"
    "\<And>rest. normalize_raw_message (out @ rest) = lines_text (concat lss) @ normalize_raw_message rest"
  using assms
proof (induction hs arbitrary: thesis)
  case Nil
  show ?case by (rule Nil(1) [of "[]" "[]"]) (simp_all add: lines_text_def)
next
  case (Cons h hs)
  let ?f = "fold_header_line (h_name h) (maybe_encode_header_value (h_value h)) @ [CR, LF]"
  have "list_all header_ok hs" using Cons.prems(2) by simp
  with Cons.IH obtain out lss where IH: "render_headers hs = Inr out" "list_all2 header_rendered hs lss"
    "\<And>rest. normalize_raw_message (out @ rest) = lines_text (concat lss) @ normalize_raw_message rest" by blast
  obtain ls where ls: "header_rendered h ls"
    "\<And>rest. normalize_raw_message (fold_header_line (h_name h) (maybe_encode_header_value (h_value h)) @ [CR, LF] @ rest) =
       lines_text ls @ normalize_raw_message rest"
    using render_one_header [of h] Cons.prems(2) by (metis list.pred_inject(2))
  have "validate_header_name (h_name h) = Inr ()" "validate_header_value (h_value h) = Inr ()"
    using Cons.prems(2)
    by (auto simp: header_ok_def name_ok_def value_ok_def validate_header_value_def list_ex_iff)
  then have "render_headers (h # hs) = Inr (?f @ out)" using IH(1) by simp
  moreover have "normalize_raw_message ((?f @ out) @ rest) = lines_text (concat (ls # lss)) @ normalize_raw_message rest"
    for rest using ls(2) [of "out @ rest"] IH(3) [of rest] by simp
  ultimately show ?case using Cons.prems(1) [of "?f @ out" "ls # lss"] ls(1) IH(2) by simp
qed

lemma parse_rendered:
  assumes "list_all2 header_rendered hs lss" "list_all header_ok hs" "cn = None \<Longrightarrow> cv = []"
    "finish_header b64 cn cv hs0 = Inr hs1"
  shows "parse_header_lines b64 (concat lss) cn cv hs0 = Inr (hs1 @ hs)"
  using assms
proof (induction hs lss arbitrary: cn cv hs0 hs1 rule: list_all2_induct)
  case (Cons h hs ls lss)
  let ?e = "maybe_encode_header_value (h_value h)"
  obtain wss where w: "ls = header_lines wss" "list_all (\<lambda>ws. ws \<noteq> [] \<and> list_all is_word ws) wss"
    "concat wss = (h_name h @ '':'') # split_char SP ?e" using Cons.hyps(1) by (auto simp: header_rendered_def)
  have h: "name_ok (h_name h)" "value_ok (h_value h)" using Cons.prems(1) by (simp_all add: header_ok_def)
  obtain v where v: "trim v = join_with [SP] (split_char SP ?e)"
    "\<And>rest. parse_header_lines b64 (header_lines wss @ rest) cn cv hs0 =
       bind_ok (finish_header b64 cn cv hs0) (\<lambda>hs. parse_header_lines b64 rest (Some (h_name h)) v hs)"
    using parse_one_header [OF h(1) w(2) split_char_not_Nil w(3) Cons.prems(2)] by blast
  have "finish_header b64 (Some (h_name h)) v hs1 = Inr (hs1 @ [h])"
    using v(1) h(2) by (simp add: finish_header_def join_split_char decode_value_ok)
  from Cons.IH [OF _ _ this] Cons.prems v(2) [of "concat lss"] w(1) show ?case by simp
qed simp

lemma rendered_lines:
  assumes "list_all2 header_rendered hs lss" "l \<in> set (concat lss)"
  shows "l \<noteq> []" "LF \<notin> set l"
proof -
  obtain ls h where "l \<in> set ls" "header_rendered h ls"
    using assms by (induction rule: list_all2_induct) auto
  then obtain wss where w: "l \<in> set (header_lines wss)" "list_all (\<lambda>ws. ws \<noteq> [] \<and> list_all is_word ws) wss" "wss \<noteq> []"
    unfolding header_rendered_def by (metis concat.simps(1) list.distinct(1))
  then obtain ws where ws: "l = join_with [SP] ws \<or> l = SP # join_with [SP] ws" "ws \<noteq> []" "list_all is_word ws"
    by (cases wss) (auto simp: header_lines_def list_all_iff)
  then show "l \<noteq> []" "LF \<notin> set l"
    using join_words_tight [OF ws(3,2)] join_words_no_break [OF ws(3)] by (auto simp: tight_def)
qed

lemma split_once_blank_line:
  assumes "ls \<noteq> []" "\<And>l. l \<in> set ls \<Longrightarrow> l \<noteq> [] \<and> LF \<notin> set l"
  shows "split_once [LF, LF] (lines_text ls @ LF # body) = Some (join_with [LF] ls, body)"
proof -
  have skip: "find_sub [LF, LF] (l @ r) = map_option (\<lambda>i. length l + i) (find_sub [LF, LF] r)"
    if "LF \<notin> set l" for l r
    using that
  proof (induction l)
    case Nil
    then show ?case by (cases "find_sub [LF, LF] r") simp_all
  next
    case (Cons c l)
    then show ?case by (cases "find_sub [LF, LF] r") auto
  qed
  have "find_sub [LF, LF] (lines_text ls @ LF # body) = Some (length (join_with [LF] ls))
    \<and> lines_text ls = join_with [LF] ls @ [LF]"
    using assms
  proof (induction ls)
    case (Cons l ls)
    have l: "l \<noteq> []" "LF \<notin> set l" using Cons.prems by auto
    show ?case
    proof (cases ls)
      case Nil
      with l show ?thesis by (simp add: lines_text_def skip)
    next
      case (Cons m ms)
      have "m \<noteq> []" "LF \<notin> set m" using Cons.prems Cons by auto
      then have p: "\<not> prefix [LF] (lines_text ls @ LF # body)" using Cons by (cases m) auto
      have "find_sub [LF, LF] (lines_text ls @ LF # body) = Some (length (join_with [LF] ls))
        \<and> lines_text ls = join_with [LF] ls @ [LF]"
        by (rule Cons.IH) (use Cons Cons.prems in auto)
      then have IH: "find_sub [LF, LF] (lines_text ls @ LF # body) = Some (length (join_with [LF] ls))"
        "lines_text ls = join_with [LF] ls @ [LF]" by blast+
      have "find_sub [LF, LF] (l @ LF # t) = Some (length l + Suc n)"
        if "\<not> prefix [LF] t" "find_sub [LF, LF] t = Some n" for t n
        using that l by (simp add: skip)
      moreover have "ls \<noteq> []" using Cons by simp
      ultimately show ?thesis using p IH by (simp add: join_with_Cons)
    qed
  qed simp
  then show ?thesis by (auto simp: split_once_def)
qed

lemma headers_roundtripD:
  assumes "list_all header_ok hs" "hs \<noteq> []"
  obtains out block where "render_headers hs = Inr out" "parse_headers b64 block = Inr hs"
    "\<And>body. split_header_body (normalize_raw_message (out @ [CR, LF] @ body)) = Inr (block, normalize_raw_message body)"
proof -
  obtain out lss where r: "render_headers hs = Inr out" "list_all2 header_rendered hs lss"
    "\<And>rest. normalize_raw_message (out @ rest) = lines_text (concat lss) @ normalize_raw_message rest"
    using render_headers_rendered [OF assms(1)] by blast
  have ne: "concat lss \<noteq> []"
    using r(2) assms(2) by (cases hs; cases lss) (auto simp: header_rendered_def header_lines_def)
  have lines: "\<And>l. l \<in> set (concat lss) \<Longrightarrow> l \<noteq> [] \<and> LF \<notin> set l" using rendered_lines [OF r(2)] by blast
  have "split_header_body (normalize_raw_message (out @ [CR, LF] @ body)) =
      Inr (join_with [LF] (concat lss), normalize_raw_message body)" for body
    using split_once_blank_line [OF ne lines] r(3) [of "[CR, LF] @ body"] by (simp add: split_header_body_def)
  moreover have "split_char LF (join_with [LF] (concat lss)) = concat lss"
    using lines ne by (intro split_char_join) (auto simp: list_all_iff)
  then have "parse_headers b64 (join_with [LF] (concat lss)) = Inr hs"
    using parse_rendered [OF r(2) assms(1), of None "[]" b64 "[]" "[]"]
    by (simp add: parse_headers_def finish_header_def)
  ultimately show ?thesis using r(1) by (intro that)
qed

text \<open>
  Header blocks round trip. Rendering headers whose values consist of single-spaced
  printable words, or are not ASCII, never fails; after the normalisation of line breaks the block is
  found before the first empty line, whatever the body is, and parsing it, with unfolding and
  decoding of encoded words, gives the same headers.
\<close>

theorem headers_roundtrip:
  assumes "list_all header_ok hs" and "hs \<noteq> []"
  shows "\<exists>out block. render_headers hs = Inr out \<and> parse_headers b64 block = Inr hs
    \<and> (\<forall>body. split_header_body (normalize_raw_message (out @ [CR, LF] @ body)) =
         Inr (block, normalize_raw_message body))"
  by (rule headers_roundtripD [OF assms, of b64]) blast

section \<open>Lookup\<close>

definition names_distinct :: "Header list \<Rightarrow> bool" where
  "names_distinct hs \<longleftrightarrow> distinct (map (\<lambda>h. to_ascii_lowercase (h_name h)) hs)"

lemma header_matches_iff: "header_matches a b \<longleftrightarrow> to_ascii_lowercase a = to_ascii_lowercase b"
  by (simp add: header_matches_def eq_ignore_ascii_case_def)

lemma header_value_Nil [simp]: "header_value [] n = None"
  by (simp add: header_value_def)

lemma header_value_append:
  "header_value (hs @ [h]) n = (if header_matches (h_name h) n then Some (h_value h) else header_value hs n)"
  by (simp add: header_value_def)

lemma header_value_None: "header_value hs n = None \<longleftrightarrow> (\<forall>h \<in> set hs. \<not> header_matches (h_name h) n)"
  by (auto simp: header_value_def find_None_iff)

lemma header_value_Cons:
  "header_value (h # hs) n =
     (case header_value hs n of Some v \<Rightarrow> Some v | None \<Rightarrow> if header_matches (h_name h) n then Some (h_value h) else None)"
proof (induction hs rule: rev_induct)
  case (snoc g gs)
  then show ?case using header_value_append [of "h # gs" g n] header_value_append [of gs g n] by simp
qed (simp add: header_value_def)

lemma set_header_lookup:
  assumes "names_distinct hs"
  shows "header_value (set_header hs n v) n = Some v"
  using assms
proof (induction hs)
  case (Cons h hs)
  show ?case
  proof (cases "header_matches (h_name h) n")
    case True
    then have "header_value hs n = None"
      using Cons.prems by (force simp: header_value_None names_distinct_def header_matches_iff)
    with True show ?thesis by (simp add: header_value_Cons)
  next
    case False
    with Cons show ?thesis by (simp add: header_value_Cons names_distinct_def)
  qed
qed (simp add: header_value_Cons header_matches_iff)

lemma set_header_other:
  "\<not> header_matches n m \<Longrightarrow> header_value (set_header hs n v) m = header_value hs m"
  by (induction hs) (auto simp: header_value_Cons header_matches_iff split: option.split)

lemma set_header_ok:
  "list_all header_ok hs \<Longrightarrow> name_ok n \<Longrightarrow> value_ok v \<Longrightarrow> list_all header_ok (set_header hs n v)"
  by (induction hs) (auto simp: header_ok_def)

lemma set_header_names:
  "set (map (\<lambda>h. to_ascii_lowercase (h_name h)) (set_header hs n v)) =
     insert (to_ascii_lowercase n) (set (map (\<lambda>h. to_ascii_lowercase (h_name h)) hs))"
  by (induction hs) (auto simp: header_matches_iff)

lemma set_header_distinct: "names_distinct hs \<Longrightarrow> names_distinct (set_header hs n v)"
proof (induction hs)
  case (Cons h hs)
  then show ?case using set_header_names [of hs n v] by (auto simp: names_distinct_def header_matches_iff)
qed (simp add: names_distinct_def)

lemma set_header_not_Nil [simp]: "set_header hs n v \<noteq> []"
  by (cases hs) auto


section \<open>Witnesses\<close>

theorem headers_roundtrip_witness:
  "\<exists>out block. render_headers [\<lparr>h_name = ''Subject'', h_value = ''two words''\<rparr>] = Inr out
    \<and> parse_headers nibble_codec block = Inr [\<lparr>h_name = ''Subject'', h_value = ''two words''\<rparr>]
    \<and> (\<forall>body. split_header_body (normalize_raw_message (out @ [CR, LF] @ body)) =
         Inr (block, normalize_raw_message body))"
proof (rule headers_roundtrip)
  show "list_all header_ok [\<lparr>h_name = ''Subject'', h_value = ''two words''\<rparr>]"
    by (simp add: header_ok_def name_ok_iff value_ok_def is_word_def printable_def in_range_def
        is_ascii_byte_def contains_def)
qed simp


end
