(* ===== verification/Mime_Properties.thy ===== *)
theory Mime_Properties
  imports Mime_Headers
begin

text \<open>
  Correctness of MIME messages: the search for a boundary ends with a fresh one, a composed message
  parses to the same content, leaf or multipart, and the case in which nested multipart messages get
  the same boundary.
\<close>

section \<open>Boundaries\<close>

definition hexval :: "string \<Rightarrow> nat" where
  "hexval s = foldl (\<lambda>n c. n * 16 + unat (the (hex_value c))) 0 s"

lemma hexval_snoc [simp]: "hexval (s @ [c]) = hexval s * 16 + unat (the (hex_value c))"
  by (simp add: hexval_def)

lemma hex_digit_value: "n < 16 \<Longrightarrow> unat (the (hex_value (hex_digit n))) = n"
proof -
  have "\<forall>n \<in> set [0..<16]. unat (the (hex_value (hex_digit n))) = n" by code_simp
  then show "n < 16 \<Longrightarrow> ?thesis" by simp
qed

lemma hexval_lower: "hexval (hex_lower n) = n"
proof (induction n rule: hex_lower.induct)
  case (1 n)
  then show ?case
    by (cases "n < 16") (simp_all add: hex_lower.simps [of n] hex_digit_value hexval_def [of "[hex_digit n]"])
qed

lemma hexval_padded: "hexval (hex_padded w n) = n"
proof -
  have "hex_value (CHR ''0'') = Some 0" by code_simp
  then have "hexval (replicate k (CHR ''0'') @ s) = hexval s" for k s
    by (induction k) (simp_all add: hexval_def)
  then show ?thesis by (simp add: hex_padded_def Let_def hexval_lower)
qed

lemma boundary_text_inject: "boundary_text seed i = boundary_text seed j \<Longrightarrow> i = j"
  using hexval_padded by (metis (no_types) boundary_text_def same_append_eq)

definition substrings :: "string \<Rightarrow> string set" where
  "substrings s = (\<lambda>(i, n). take n (drop i s)) ` ({..length s} \<times> {..length s})"

lemma contains_substrings:
  assumes "contains s b"
  shows "b \<in> substrings s"
proof -
  obtain p q where "s = p @ b @ q" using assms by (auto simp: contains_iff sublist_def)
  then have "b = take (length b) (drop (length p) s)" "length p \<le> length s" "length b \<le> length s" by simp_all
  then show ?thesis by (auto simp: substrings_def intro!: image_eqI [of _ _ "(length p, length b)"])
qed

lemma substrings_card: "finite (substrings s)" "card (substrings s) \<le> (length s + 1) * (length s + 1)"
  unfolding substrings_def
  using card_image_le [of "{..length s} \<times> {..length s}" "\<lambda>(i, n). take n (drop i s)"] by simp_all

fun body_text :: "MimeBody option \<Rightarrow> string option" where
  "body_text None = None"
| "body_text (Some (Text t)) = Some t"
| "body_text (Some (Bytes b)) = Some b"

text \<open>A bound on the number of substrings of the bodies of a message.\<close>

fun message_weight :: "MimeMessage \<Rightarrow> nat" where
  "message_weight (MimeMessage headers body parts encoding) =
     (case body_text body of None \<Rightarrow> 0 | Some t \<Rightarrow> (length t + 1) * (length t + 1))
     + sum_list (map message_weight parts)"

lemma contained_card:
  "finite {b. message_contains_boundary m b} \<and> card {b. message_contains_boundary m b} \<le> message_weight m"
proof (induction m)
  case (MimeMessage headers body parts encoding)
  let ?own = "case body_text body of None \<Rightarrow> {} | Some t \<Rightarrow> {b. contains t b}"
  let ?in = "\<lambda>p. {b. message_contains_boundary p b}"
  have own: "finite ?own \<and> card ?own \<le> (case body_text body of None \<Rightarrow> 0 | Some t \<Rightarrow> (length t + 1) * (length t + 1))"
  proof (cases "body_text body")
    case (Some t)
    have "{b. contains t b} \<subseteq> substrings t" using contains_substrings by blast
    with Some substrings_card [of t] show ?thesis
      by (auto intro: finite_subset le_trans [OF card_mono])
  qed simp
  have "finite (\<Union> (?in ` set ps)) \<and> card (\<Union> (?in ` set ps)) \<le> sum_list (map message_weight ps)"
    if "set ps \<subseteq> set parts" for ps
    using that
  proof (induction ps)
    case (Cons p ps)
    then show ?case
      using MimeMessage.IH [of p] card_Un_le [of "?in p" "\<Union> (?in ` set ps)"] by auto
  qed simp
  note parts = this [OF subset_refl]
  have "{b. message_contains_boundary (MimeMessage headers body parts encoding) b} = ?own \<union> \<Union> (?in ` set parts)"
    by (cases body rule: body_text.cases) (auto simp: list_ex_iff)
  with own parts card_Un_le [of ?own "\<Union> (?in ` set parts)"] show ?case by auto
qed

lemma boundary_loop_reaches:
  assumes "\<not> message_contains_boundary m (boundary_text seed k)" "a \<le> k" "k \<le> usize_max"
  shows "\<exists>b. boundary_loop m seed a = Some b \<and> \<not> message_contains_boundary m b"
  using assms
proof (induction "k - a" arbitrary: a)
  case 0
  then show ?case by (subst boundary_loop.simps) (simp add: Let_def)
next
  case (Suc n)
  then have "saturating_add a 1 = a + 1" by (simp add: saturating_add_exact)
  with Suc show ?case by (subst boundary_loop.simps) (simp add: Let_def)
qed

text \<open>
  Property C27: the search for a boundary ends, for every message whose bodies have fewer substrings
  than there are attempts, and the boundary it finds does not occur in any body of the message.
\<close>

theorem generate_boundary_fresh:
  assumes "message_weight m \<le> usize_max"
  shows "\<exists>b. generate_boundary m = Some b \<and> \<not> message_contains_boundary m b"
proof -
  let ?seed = "boundary_seed m 0xcbf29ce484222325"
  have "inj_on (boundary_text ?seed) {..usize_max}" using boundary_text_inject by (blast intro: inj_onI)
  then have "card (boundary_text ?seed ` {..usize_max}) = usize_max + 1" by (simp add: card_image)
  moreover have "card (boundary_text ?seed ` {..usize_max}) \<le> message_weight m"
    if "boundary_text ?seed ` {..usize_max} \<subseteq> {b. message_contains_boundary m b}"
    using card_mono [OF _ that] contained_card [of m] by linarith
  ultimately have "\<not> boundary_text ?seed ` {..usize_max} \<subseteq> {b. message_contains_boundary m b}"
    using assms by linarith
  then obtain k where "k \<le> usize_max" "\<not> message_contains_boundary m (boundary_text ?seed k)" by auto
  then show ?thesis unfolding generate_boundary_def by (intro boundary_loop_reaches) simp_all
qed

text \<open>The search depends only on the seed and on which boundaries occur.\<close>

lemma boundary_loop_Some_cong:
  assumes "\<And>b. message_contains_boundary m b = message_contains_boundary m' b" "boundary_loop m seed a = Some r"
  shows "boundary_loop m' seed a = Some r"
proof -
  have "boundary_loop n s a = Some r \<Longrightarrow> n = m \<longrightarrow> boundary_loop m' s a = Some r" for n s a r
  proof (erule boundary_loop.raw_induct [rotated])
    fix f n s a r
    assume "\<And>n s a r. f n s a = Some r \<Longrightarrow> n = m \<longrightarrow> boundary_loop m' s a = Some r"
      "(let boundary = boundary_text s a
        in if \<not> message_contains_boundary n boundary then Some boundary else f n s (saturating_add a 1)) = Some r"
    then show "n = m \<longrightarrow> boundary_loop m' s a = Some r"
      using assms(1) by (subst boundary_loop.simps) (auto simp: Let_def split: if_splits)
  qed
  then show ?thesis using assms(2) by blast
qed

lemma boundary_loop_cong:
  assumes "\<And>b. message_contains_boundary m b = message_contains_boundary m' b"
  shows "boundary_loop m seed a = boundary_loop m' seed a"
  using boundary_loop_Some_cong [of m m' seed a] boundary_loop_Some_cong [of m' m seed a] assms
  by (cases "boundary_loop m seed a"; cases "boundary_loop m' seed a") auto

text \<open>
  Property C28: nested multipart messages can get the same boundary. A message without headers of its
  own around a single part gets exactly the boundary that is generated for that part, because the
  seed is computed from the contents only and generated boundaries of the parts are not looked at.
\<close>

theorem nested_boundaries_coincide:
  "generate_boundary (MimeMessage [] None [inner] encoding) = generate_boundary inner"
  unfolding generate_boundary_def by (simp add: boundary_loop_cong [of "MimeMessage [] None [inner] encoding" inner])

section \<open>Leaf messages\<close>

lemmas value_ok_eval = value_ok_def is_word_def printable_def in_range_def is_ascii_byte_def contains_def

lemma constant_headers:
  "name_ok MIME_VERSION" "name_ok CONTENT_TYPE" "name_ok CONTENT_TRANSFER_ENCODING"
  "value_ok ''1.0''" "value_ok DEFAULT_TEXT_CONTENT_TYPE"
  by (simp_all add: MIME_VERSION_def CONTENT_TYPE_def CONTENT_TRANSFER_ENCODING_def DEFAULT_TEXT_CONTENT_TYPE_def
      name_ok_iff value_ok_eval)

lemma constant_names: "\<not> header_matches CONTENT_TRANSFER_ENCODING CONTENT_TYPE"
  by code_simp

lemma token_value_ok: "value_ok (transfer_encoding_token e)"
  by (cases e) (simp_all add: value_ok_eval)

lemma token_parse: "transfer_encoding_parse (transfer_encoding_token e) = Some e"
proof -
  have "list_all (\<lambda>e. transfer_encoding_parse (transfer_encoding_token e) = Some e)
    [SevenBit, EightBit, Binary, QuotedPrintable, Base64]" by code_simp
  then show ?thesis by (cases e) simp_all
qed

definition headers_ok :: "Header list \<Rightarrow> bool" where
  "headers_ok hs \<longleftrightarrow> list_all header_ok hs \<and> names_distinct hs"

lemma set_header_headers_ok:
  "headers_ok hs \<Longrightarrow> name_ok n \<Longrightarrow> value_ok v \<Longrightarrow> headers_ok (set_header hs n v)"
  by (simp add: headers_ok_def set_header_ok set_header_distinct)

lemma with_mime_version_ok: "headers_ok hs \<Longrightarrow> headers_ok (with_mime_version outer hs)"
  using constant_headers
  by (auto simp: headers_ok_def with_mime_version_def header_ok_def names_distinct_def has_header_def
      header_value_None header_matches_iff)

text \<open>The headers a leaf message is rendered with, before the transfer encoding is set.\<close>

definition leaf_headers :: "bool \<Rightarrow> Header list \<Rightarrow> Header list" where
  "leaf_headers outer hs =
     (let headers = with_mime_version outer hs
      in if has_header headers CONTENT_TYPE then headers
         else set_header headers CONTENT_TYPE DEFAULT_TEXT_CONTENT_TYPE)"

lemma leaf_headers_ok: "headers_ok hs \<Longrightarrow> headers_ok (leaf_headers outer hs)"
  using with_mime_version_ok [of hs outer] constant_headers
  by (simp add: leaf_headers_def Let_def set_header_headers_ok)

text \<open>What decoding gives for a body: its text up to line breaks, or its bytes.\<close>

definition body_preserved :: "MimeBody option \<Rightarrow> TransferEncoding \<Rightarrow> string \<Rightarrow> bool" where
  "body_preserved body e b \<longleftrightarrow>
     (case body of
        None \<Rightarrow> b = []
      | Some (Text t) \<Rightarrow> utf8_valid b \<and> normalize_raw_message b = normalize_raw_message t
      | Some (Bytes bs) \<Rightarrow> e = Base64 \<or> CR \<notin> set bs \<longrightarrow> b = bs)"

lemma utf8_valid_normalize_text: "utf8_valid t \<Longrightarrow> utf8_valid (normalize_text_lines t)"
  unfolding normalize_text_eq by (intro utf8_valid_replace_char utf8_valid_normalize_raw) (simp_all add: is_ascii_byte_def)

lemma decode_rendered:
  assumes "codec_laws b64" "render_body b64 (MimeMessage hs body [] enc) e = Inr b"
    "\<And>t. body = Some (Text t) \<Longrightarrow> utf8_valid t"
  obtains b' where "body_preserved body e b'"
    "(case e of QuotedPrintable \<Rightarrow> qp_decode (normalize_raw_message b) False
      | Base64 \<Rightarrow> base64_decode_liberal b64 (normalize_raw_message b)
      | _ \<Rightarrow> Inr (normalize_raw_message b)) = Inr b'"
proof -
  define bytes where "bytes = fst (body_bytes_and_text (MimeMessage hs body [] enc))"
  consider "e = QuotedPrintable" "b = qp_encode bytes" | "e = Base64" "b = base64_encode_wrapped b64 bytes"
    | "e \<notin> {QuotedPrintable, Base64}" "b = bytes"
    using assms(2) by (cases e) (auto simp: render_body_def bytes_def from_utf8_def split: prod.splits if_splits)
  then show ?thesis
  proof cases
    case 1
    have "body_preserved body e (replace_str [CR, LF] [LF] bytes)"
      using assms(3) by (auto simp: bytes_def body_bytes_and_text_def body_preserved_def replace_crlf_text replace_crlf_id 1
          utf8_valid_normalize_raw split: option.splits MimeBody.splits)
    with 1 show ?thesis by (intro that) (simp_all add: qp_normalized)
  next
    case 2
    have "body_preserved body e bytes"
      using assms(3) by (auto simp: bytes_def body_bytes_and_text_def body_preserved_def utf8_valid_normalize_text
          split: option.splits MimeBody.splits)
    with 2 assms(1) show ?thesis by (intro that) (simp_all add: base64_wrappedD)
  next
    case 3
    have "body_preserved body e (normalize_raw_message bytes)"
      using assms(3) 3(1) by (auto simp: bytes_def body_bytes_and_text_def body_preserved_def normalize_raw_id
          utf8_valid_normalize_raw split: option.splits MimeBody.splits)
    with 3 show ?thesis by (cases e) (auto intro: that)
  qed
qed

lemma compose_parse_leafD:
  assumes "codec_laws b64" and "headers_ok hs" and "\<And>t. body = Some (Text t) \<Longrightarrow> utf8_valid t"
    and "is_multipart (leaf_headers outer hs) = None"
    and "render_message b64 (MimeMessage hs body [] enc) outer = Some (Inr raw)"
  shows "\<exists>e b ct. choose_encoding (MimeMessage hs body [] enc) (leaf_headers outer hs) = Inr e
    \<and> header_value (leaf_headers outer hs) CONTENT_TYPE = Some ct
    \<and> parse_text b64 raw =
        Inr (ParsedMessage (set_header (leaf_headers outer hs) CONTENT_TRANSFER_ENCODING (transfer_encoding_token e))
               (Some b) [] (is_text_content_type ct))
    \<and> body_preserved body e b"
proof -
  let ?m = "MimeMessage hs body [] enc" and ?h = "leaf_headers outer hs"
  obtain e out b where r: "choose_encoding ?m ?h = Inr e" "render_body b64 ?m e = Inr b"
    "render_headers (set_header ?h CONTENT_TRANSFER_ENCODING (transfer_encoding_token e)) = Inr out"
    "raw = out @ [CR, LF] @ b"
    using assms(5) by (auto simp: render_leaf_def leaf_headers_def Let_def result_simps)
  let ?h' = "set_header ?h CONTENT_TRANSFER_ENCODING (transfer_encoding_token e)"
  have ok: "headers_ok ?h'"
    using leaf_headers_ok [OF assms(2)] constant_headers token_value_ok by (intro set_header_headers_ok) auto
  obtain out' block where p: "render_headers ?h' = Inr out'" "parse_headers b64 block = Inr ?h'"
    "\<And>body. split_header_body (normalize_raw_message (out' @ [CR, LF] @ body)) = Inr (block, normalize_raw_message body)"
    using headers_roundtripD [of ?h' b64] ok by (auto simp: headers_ok_def)
  obtain b' where b': "body_preserved body e b'"
    "(case e of QuotedPrintable \<Rightarrow> qp_decode (normalize_raw_message b) False
      | Base64 \<Rightarrow> base64_decode_liberal b64 (normalize_raw_message b)
      | _ \<Rightarrow> Inr (normalize_raw_message b)) = Inr b'"
    using decode_rendered [OF assms(1) r(2)] assms(3) by blast
  have ct: "header_value ?h' CONTENT_TYPE = header_value ?h CONTENT_TYPE"
    using constant_names by (simp add: set_header_other)
  obtain c where c: "header_value ?h CONTENT_TYPE = Some c"
    using set_header_lookup [of "with_mime_version outer hs" CONTENT_TYPE DEFAULT_TEXT_CONTENT_TYPE]
      with_mime_version_ok [OF assms(2), of outer]
    by (cases "header_value (with_mime_version outer hs) CONTENT_TYPE")
      (auto simp: leaf_headers_def Let_def has_header_def headers_ok_def)
  have "header_value ?h' CONTENT_TRANSFER_ENCODING = Some (transfer_encoding_token e)"
    using leaf_headers_ok [OF assms(2)] by (intro set_header_lookup) (simp add: headers_ok_def)
  then have "decode_body b64 (normalize_raw_message b) ?h' = Inr (b', is_text_content_type c)"
    using b'(2) ct c token_parse by (simp add: decode_body_def Let_def)
  moreover have "is_multipart ?h' = None" using assms(4) ct by (simp add: is_multipart_def)
  ultimately have "parse_text b64 raw = Inr (ParsedMessage ?h' (Some b') [] (is_text_content_type c))"
    using p r(3,4) by (simp add: parse_text_def parse_message_raw.simps)
  with r(1) c b'(1) show ?thesis by blast
qed

text \<open>
  A composed leaf message parses to its content. The parsed headers are the given ones
  with the defaults added, the body is the given text up to the form of its line breaks, or the given
  bytes, and it is marked as text according to the content type.
\<close>

theorem compose_parse_leaf:
  assumes "codec_laws b64" and "headers_ok hs" and "\<And>t. body = Some (Text t) \<Longrightarrow> utf8_valid t"
    and "is_multipart (leaf_headers outer hs) = None"
    and "render_message b64 (MimeMessage hs body [] enc) outer = Some (Inr raw)"
  shows "\<exists>e b ct. choose_encoding (MimeMessage hs body [] enc) (leaf_headers outer hs) = Inr e
    \<and> header_value (leaf_headers outer hs) CONTENT_TYPE = Some ct
    \<and> parse_text b64 raw =
        Inr (ParsedMessage (set_header (leaf_headers outer hs) CONTENT_TRANSFER_ENCODING (transfer_encoding_token e))
               (Some b) [] (is_text_content_type ct))
    \<and> body_preserved body e b"
  by (rule compose_parse_leafD [OF assms])

section \<open>Multipart messages\<close>

lemma set_trim_start: "set (trim_start s) \<subseteq> set s"
proof (induction s rule: trim_start.induct)
  case (1 s)
  then show ?case using set_drop_subset [of "ws_prefix s" s] by (subst trim_start.simps) auto
qed

lemma set_trim_end: "set (trim_end s) \<subseteq> set s"
proof (induction s rule: trim_end.induct)
  case (1 s)
  then show ?case using set_take_subset [of "length s - ws_suffix s" s] by (subst trim_end.simps) auto
qed

lemma content_type_base_no_semicolon: "CHR '';'' \<notin> set (content_type_base ct)"
proof -
  have "set (trim s) \<subseteq> set s" for s using set_trim_end set_trim_start by (fastforce simp: trim_def)
  moreover have "CHR '';'' \<notin> set (case split_once '';'' ct of None \<Rightarrow> ct | Some (base, _) \<Rightarrow> base)"
    by (auto simp: split_once_char split: if_splits dest: set_takeWhileD)
  ultimately show ?thesis unfolding content_type_base_def by blast
qed

lemma parse_boundary_roundtrip:
  assumes "CHR '';'' \<notin> set ct" "CHR '';'' \<notin> set b"
  shows "parse_boundary (content_type_with_boundary ct b) = Some b"
proof -
  let ?v = "[DQUOTE] @ b @ [DQUOTE]" and ?p = "''boundary='' @ [DQUOTE] @ b @ [DQUOTE]"
  have none: "parse_boundary ct = None" using assms(1) by (simp add: parse_boundary_def split_char_none)
  have "printable DQUOTE" "printable (CHR ''b'')" "tight ''boundary''"
    by (simp_all add: printable_def in_range_def tight_def)
  then have t: "tight ?p" "tight ?v" "tight ''boundary''" by (auto simp: tight_def)
  have "split_char (CHR '';'') (ct @ CHR '';'' # SP # ?p) = [ct, SP # ?p]"
    using assms split_char_append_break [of "CHR '';''" ct "SP # ?p"] split_char_none [of "CHR '';''" "SP # ?p"] by simp
  moreover have "split_once ''='' ?p = Some (''boundary'', ?v)"
    using split_once_first [of "CHR ''=''" "''boundary''" "[]" ?v] by simp
  moreover have "unquote ?v = b" by (simp add: unquote_def suffix_def)
  ultimately show ?thesis
    using none t by (simp add: parse_boundary_def content_type_with_boundary_def trim_tight)
qed

lemma normalize_raw_split: "\<not> prefix [LF] r \<Longrightarrow> normalize_raw_message (s @ r) = normalize_raw_message s @ normalize_raw_message r"
proof (induction s rule: length_induct)
  case (1 s)
  show ?case
  proof (cases s)
    case (Cons c t)
    show ?thesis
    proof (cases "c = CR \<and> prefix [LF] t")
      case True
      then obtain u where "t = LF # u" by (cases t) auto
      with 1 Cons True show ?thesis by simp
    next
      case False
      have IH: "normalize_raw_message (t @ r) = normalize_raw_message t @ normalize_raw_message r"
        using 1 Cons by simp
      have "\<not> prefix [LF] (t @ r)" if "c = CR" using False that 1(2) by (cases t) auto
      with IH False Cons show ?thesis by (cases "c = CR") auto
    qed
  qed simp
qed

lemma in_set_join_with: "l \<in> set ls \<Longrightarrow> set l \<subseteq> set (join_with sep ls)"
  by (induction sep ls rule: join_with.induct) auto

lemma split_char_append: "split_char c (s @ c # r) = split_char c s @ split_char c r"
  by (induction s) (auto split: list.splits)

lemma lines_text_split: "lines_text (split_char LF s) = s @ [LF]"
proof (induction s)
  case (Cons c s)
  then show ?case by (cases "split_char LF s") auto
qed simp

text \<open>No line of the text is a delimiter line of the boundary.\<close>

definition fresh_lines :: "string \<Rightarrow> string \<Rightarrow> bool" where
  "fresh_lines b s \<longleftrightarrow>
     list_all (\<lambda>l. l \<noteq> ''--'' @ b \<and> l \<noteq> ''--'' @ b @ ''--'') (split_char LF (normalize_raw_message s))"

lemma section_lines_content:
  assumes "list_all (\<lambda>l. CR \<notin> set l \<and> l \<noteq> ''--'' @ b \<and> l \<noteq> ''--'' @ b @ ''--'') ls"
  shows "section_lines b (ls @ rest) secs cur True = section_lines b rest secs (cur @ lines_text ls) True"
  using assms by (induction ls arbitrary: cur) (simp_all add: trim_end_char_id)

lemma section_lines_fresh:
  assumes "fresh_lines b s"
  shows "section_lines b (split_char LF (normalize_raw_message s) @ rest) secs cur True =
    section_lines b rest secs (cur @ normalize_raw_message s @ [LF]) True"
proof -
  have "set l \<subseteq> set (normalize_raw_message s)" if "l \<in> set (split_char LF (normalize_raw_message s))" for l
    using that join_split_char [of LF "normalize_raw_message s"] in_set_join_with by metis
  then have "list_all (\<lambda>l. CR \<notin> set l \<and> l \<noteq> ''--'' @ b \<and> l \<noteq> ''--'' @ b @ ''--'') (split_char LF (normalize_raw_message s))"
    using assms normalize_raw_no_CR [of s] by (fastforce simp: fresh_lines_def list_all_iff)
  then show ?thesis by (simp add: section_lines_content lines_text_split)
qed

lemma trim_normalized_section: "CR \<notin> set s \<Longrightarrow> trim_part_section (s @ [LF]) = s"
  by (auto simp: trim_part_section_def strip_suffix_def suffix_def)

lemma section_lines_parts:
  assumes "CR \<notin> set b" "list_all (fresh_lines b) ss"
  shows "section_lines b (concat (map (\<lambda>s. (''--'' @ b) # split_char LF (normalize_raw_message s)) ss) @ [''--'' @ b @ ''--'', []])
      secs (normalize_raw_message s0 @ [LF]) True = Some (secs @ normalize_raw_message s0 # map normalize_raw_message ss)"
  using assms
proof (induction ss arbitrary: secs s0)
  case Nil
  then show ?case by (simp add: trim_end_char_id trim_normalized_section normalize_raw_no_CR)
next
  case (Cons s ss)
  then show ?case
    by (simp add: trim_end_char_id trim_normalized_section normalize_raw_no_CR section_lines_fresh)
qed

text \<open>The text of the rendered parts of a message.\<close>

definition parts_text :: "string \<Rightarrow> string list \<Rightarrow> string" where
  "parts_text b ss = concat (map (\<lambda>s. ''--'' @ b @ [CR, LF] @ s @ [CR, LF]) ss)"

lemma render_parts_text:
  "list_all2 (\<lambda>p s. render_message b64 p False = Some (Inr s)) ps ss \<Longrightarrow>
     render_parts b64 b ps = Some (Inr (parts_text b ss))"
  by (induction rule: list_all2_induct) (simp_all add: parts_text_def)

lemma render_parts_Inr:
  assumes "render_parts b64 b ps = Some (Inr t)"
  obtains ss where "list_all2 (\<lambda>p s. render_message b64 p False = Some (Inr s)) ps ss"
  using assms
proof (induction ps arbitrary: t thesis)
  case Nil
  show ?case by (rule Nil(1) [of "[]"]) simp
next
  case (Cons p ps)
  obtain s t' where st: "render_message b64 p False = Some (Inr s)" "render_parts b64 b ps = Some (Inr t')"
    using Cons.prems(2)
    by (cases "render_message b64 p False"; cases "the (render_message b64 p False)")
      (auto simp: bind_eq_Some_conv result_simps)
  then obtain ss where "list_all2 (\<lambda>p s. render_message b64 p False = Some (Inr s)) ps ss"
    using Cons.IH by blast
  with st(1) show ?case by (intro Cons.prems(1) [of "s # ss"]) simp
qed

lemma sections_roundtrip:
  assumes "CR \<notin> set b" "LF \<notin> set b" "list_all (fresh_lines b) ss" "ss \<noteq> []"
  shows "multipart_sections (normalize_raw_message (parts_text b ss @ ''--'' @ b @ ''--'' @ [CR, LF])) b =
    Inr (map normalize_raw_message ss)"
proof -
  let ?m = "''--'' @ b" and ?lines = "\<lambda>ss. concat (map (\<lambda>s. (''--'' @ b) # split_char LF (normalize_raw_message s)) ss)"
  have "normalize_raw_message (parts_text b ss @ ''--'' @ b @ ''--'' @ [CR, LF]) =
      concat (map (\<lambda>s. ?m @ LF # normalize_raw_message s @ [LF]) ss) @ ?m @ ''--'' @ [LF]"
  proof (induction ss)
    case (Cons s ss)
    have "normalize_raw_message (s @ CR # LF # r) = normalize_raw_message s @ LF # normalize_raw_message r" for r
      using normalize_raw_split [of "CR # LF # r" s] by simp
    with Cons assms(1) normalize_raw_append [of b] show ?case by (simp add: parts_text_def)
  qed (use assms(1) normalize_raw_append [of b] in \<open>simp add: parts_text_def\<close>)
  moreover have "split_char LF (concat (map (\<lambda>s. ?m @ LF # normalize_raw_message s @ [LF]) ss) @ ?m @ ''--'' @ [LF]) =
      ?lines ss @ [?m @ ''--'', []]"
  proof (induction ss)
    case Nil
    show ?case using assms(2) split_char_append [of LF "?m @ ''--''" "[]"] by (simp add: split_char_none)
  next
    case (Cons s ss)
    then show ?case
      using assms(2) split_char_append [of LF ?m] split_char_append [of LF "normalize_raw_message s"]
      by (simp add: split_char_none)
  qed
  moreover obtain s ss' where s: "ss = s # ss'" using assms(4) by (cases ss) auto
  have "section_lines b (?lines ss @ [?m @ ''--'', []]) [] [] False =
      section_lines b (?lines ss' @ [?m @ ''--'', []]) [] (normalize_raw_message s @ [LF]) True"
    using s assms(1,3) by (simp add: trim_end_char_id section_lines_fresh)
  ultimately show ?thesis
    using section_lines_parts [OF assms(1), of ss' "[]" s] assms(3) s by (simp add: multipart_sections_def)
qed

text \<open>
  Property C25: a composed multipart message parses to its parts. When no line of a rendered part is a
  delimiter of the boundary, the parsed message has the given headers with the boundary set, and as
  parts exactly what the rendered parts parse to, in order.
\<close>

theorem compose_parse_multipart:
  assumes "headers_ok hs" and "parts \<noteq> []"
    and b: "multipart_boundary (MimeMessage hs body parts enc) (with_mime_version outer hs) = Some b"
    and "CHR '';'' \<notin> set b" and "CR \<notin> set b" and "LF \<notin> set b"
    and multi: "is_multipart (multipart_headers (with_mime_version outer hs) b) = Some ct" and "value_ok ct"
    and "list_all (\<lambda>p. \<forall>s. render_message b64 p False = Some (Inr s) \<longrightarrow> fresh_lines b s \<and> parse_text b64 s = Inr (q p)) parts"
    and "render_message b64 (MimeMessage hs body parts enc) outer = Some (Inr raw)"
  shows "parse_text b64 raw =
    Inr (ParsedMessage (multipart_headers (with_mime_version outer hs) b) None (map q parts) False)"
proof -
  let ?g = "with_mime_version outer hs" and ?h = "multipart_headers (with_mime_version outer hs) b"
  define base where "base = (case header_value ?g CONTENT_TYPE of
      None \<Rightarrow> DEFAULT_MULTIPART_CONTENT_TYPE | Some t \<Rightarrow> content_type_base t)"
  have h: "?h = set_header ?g CONTENT_TYPE (content_type_with_boundary base b)"
    by (simp add: multipart_headers_def base_def Let_def)
  have h0: "headers_ok ?g" using assms(1) by (rule with_mime_version_ok)
  then have "header_value ?h CONTENT_TYPE = Some (content_type_with_boundary base b)"
    by (simp add: h set_header_lookup headers_ok_def)
  then have ct: "ct = content_type_with_boundary base b" using multi by (simp add: is_multipart_def Let_def split: if_splits)
  have "CHR '';'' \<notin> set base"
    using content_type_base_no_semicolon by (auto simp: base_def DEFAULT_MULTIPART_CONTENT_TYPE_def split: option.splits)
  then have pb: "parse_boundary ct = Some b" using assms(4) by (simp add: ct parse_boundary_roundtrip)
  have ok: "headers_ok ?h" unfolding h using h0 assms(8) constant_headers by (simp add: set_header_headers_ok ct)
  obtain out t where r: "render_headers ?h = Inr out" "render_parts b64 b parts = Some (Inr t)"
    "raw = out @ [CR, LF] @ t @ ''--'' @ b @ ''--'' @ [CR, LF]"
    using assms(2,10) b by (auto simp: Let_def bind_eq_Some_conv result_simps split: sum.splits)
  obtain ss where ss: "list_all2 (\<lambda>p s. render_message b64 p False = Some (Inr s)) parts ss"
    using render_parts_Inr [OF r(2)] by blast
  then have t: "t = parts_text b ss" using render_parts_text [OF ss, of b] r(2) by simp
  have "list_all (fresh_lines b) ss \<and> map_results (parse_message_raw b64) (map normalize_raw_message ss) = Inr (map q parts)"
    using ss assms(9) by (induction rule: list_all2_induct) (simp_all add: parse_text_def)
  moreover have "ss \<noteq> []" using ss assms(2) by auto
  ultimately have secs: "multipart_sections (normalize_raw_message (t @ ''--'' @ b @ ''--'' @ [CR, LF])) b = Inr (map normalize_raw_message ss)"
    "map_results (parse_message_raw b64) (map normalize_raw_message ss) = Inr (map q parts)"
    using sections_roundtrip [OF assms(5,6)] t by blast+
  obtain out' block where "render_headers ?h = Inr out'" "parse_headers b64 block = Inr ?h"
    "\<And>body. split_header_body (normalize_raw_message (out' @ [CR, LF] @ body)) = Inr (block, normalize_raw_message body)"
    using headers_roundtripD [of ?h b64] ok by (auto simp: headers_ok_def h)
  with r secs pb multi show ?thesis
    by (simp add: parse_text_def parse_message_raw.simps)
qed

section \<open>Witnesses\<close>

definition small_leaf :: MimeMessage where
  "small_leaf = MimeMessage [] (Some (Text ''hi'')) [] (Some ''7bit'')"

definition small_multipart :: MimeMessage where
  "small_multipart =
     MimeMessage [\<lparr>h_name = CONTENT_TYPE, h_value = content_type_with_boundary ''multipart/mixed'' ''b''\<rparr>] None [small_leaf] None"

theorem generate_boundary_fresh_witness:
  "\<exists>b. generate_boundary small_multipart = Some b \<and> \<not> message_contains_boundary small_multipart b"
  by (rule generate_boundary_fresh) (simp add: small_multipart_def small_leaf_def usize_max_def)

text \<open>The rendered form of the small leaf as a part.\<close>

lemma small_leaf_rendered:
  "render_message nibble_codec small_leaf False =
     Some (Inr (''Content-Type: text/plain; charset=utf-8'' @ [CR, LF] @ ''Content-Transfer-Encoding: 7bit''
       @ [CR, LF, CR, LF] @ ''hi''))"
proof -
  have "header_value [\<lparr>h_name = CONTENT_TYPE, h_value = DEFAULT_TEXT_CONTENT_TYPE\<rparr>] CONTENT_TRANSFER_ENCODING = None"
    "\<not> header_matches CONTENT_TYPE CONTENT_TRANSFER_ENCODING"
    using constant_names by (simp_all add: header_value_Cons header_matches_iff)
  moreover have "render_headers [\<lparr>h_name = CONTENT_TYPE, h_value = DEFAULT_TEXT_CONTENT_TYPE\<rparr>,
      \<lparr>h_name = CONTENT_TRANSFER_ENCODING, h_value = ''7bit''\<rparr>] =
    Inr (''Content-Type: text/plain; charset=utf-8'' @ [CR, LF] @ ''Content-Transfer-Encoding: 7bit'' @ [CR, LF])"
    by (simp add: validate_header_name_def validate_header_value_def maybe_encode_header_value_def
        fold_header_line_def in_range_def is_ascii_byte_def CONTENT_TYPE_def CONTENT_TRANSFER_ENCODING_def
        DEFAULT_TEXT_CONTENT_TYPE_def)
  moreover have "transfer_encoding_parse ''7bit'' = Some SevenBit" using token_parse [of SevenBit] by simp
  ultimately show ?thesis
    by (simp add: small_leaf_def with_mime_version_def render_leaf_def has_header_def choose_encoding_def
        render_body_def body_bytes_and_text_def normalize_text_lines_def from_utf8_def is_ascii_byte_def)
qed

lemma small_leaf_headers: "headers_ok []" "is_multipart (leaf_headers False []) = None"
proof -
  have "is_multipart [\<lparr>h_name = CONTENT_TYPE, h_value = DEFAULT_TEXT_CONTENT_TYPE\<rparr>] = None" by code_simp
  then show "is_multipart (leaf_headers False []) = None"
    by (simp add: leaf_headers_def with_mime_version_def has_header_def)
qed (simp add: headers_ok_def names_distinct_def)

theorem compose_parse_leaf_witness:
  "\<exists>raw p. render_message nibble_codec small_leaf False = Some (Inr raw) \<and> parse_text nibble_codec raw = Inr p
     \<and> (\<exists>b. pm_body p = Some b \<and> normalize_raw_message b = ''hi'')"
proof -
  obtain raw where raw: "render_message nibble_codec small_leaf False = Some (Inr raw)"
    using small_leaf_rendered by blast
  have "utf8_valid ''hi''" "normalize_raw_message ''hi'' = ''hi''"
    by (simp_all add: is_ascii_byte_def)
  then show ?thesis
    using compose_parse_leaf [OF nibble_codec_laws small_leaf_headers(1), of "Some (Text ''hi'')" False "Some ''7bit''" raw]
      raw small_leaf_headers by (auto simp: small_leaf_def body_preserved_def)
qed

lemma small_content_type:
  "content_type_with_boundary ''multipart/mixed'' ''b'' = ''multipart/mixed; boundary='' @ [DQUOTE, CHR ''b'', DQUOTE]"
  "value_ok (content_type_with_boundary ''multipart/mixed'' ''b'')"
  "parse_boundary (content_type_with_boundary ''multipart/mixed'' ''b'') = Some ''b''"
  "content_type_base (content_type_with_boundary ''multipart/mixed'' ''b'') = ''multipart/mixed''"
  "to_ascii_lowercase ''multipart/mixed'' = ''multipart/mixed''"
proof -
  have "split_char (CHR '';'') ''multipart/mixed'' = [''multipart/mixed'']" by (simp add: split_char_none)
  then show ct: "content_type_with_boundary ''multipart/mixed'' ''b'' = ''multipart/mixed; boundary='' @ [DQUOTE, CHR ''b'', DQUOTE]"
    by (simp add: content_type_with_boundary_def parse_boundary_def)
  show "value_ok (content_type_with_boundary ''multipart/mixed'' ''b'')" by (simp add: ct value_ok_eval)
  show "parse_boundary (content_type_with_boundary ''multipart/mixed'' ''b'') = Some ''b''"
    by (rule parse_boundary_roundtrip) simp_all
  have "tight ''multipart/mixed''" by (simp add: tight_def printable_def in_range_def)
  then show "content_type_base (content_type_with_boundary ''multipart/mixed'' ''b'') = ''multipart/mixed''"
    by (simp add: ct content_type_base_def split_once_char trim_tight)
  show "to_ascii_lowercase ''multipart/mixed'' = ''multipart/mixed''" by code_simp
qed

theorem compose_parse_multipart_witness:
  "\<exists>raw hs p. render_message nibble_codec small_multipart False = Some (Inr raw)
     \<and> parse_text nibble_codec raw = Inr (ParsedMessage hs None [p] False)"
proof -
  let ?ct = "content_type_with_boundary ''multipart/mixed'' ''b''"
  let ?hs = "[\<lparr>h_name = CONTENT_TYPE, h_value = ?ct\<rparr>]"
  have fresh: "\<forall>s. render_message nibble_codec small_leaf False = Some (Inr s) \<longrightarrow> fresh_lines ''b'' s"
    by (simp add: small_leaf_rendered fresh_lines_def)
  obtain s where s: "render_message nibble_codec small_leaf False = Some (Inr s)" using small_leaf_rendered by blast
  obtain p where p: "parse_text nibble_codec s = Inr p"
    using compose_parse_leafD [OF nibble_codec_laws small_leaf_headers(1), of "Some (Text ''hi'')" False "Some ''7bit''" s]
      s small_leaf_headers by (auto simp: small_leaf_def is_ascii_byte_def)
  have v: "header_value ?hs CONTENT_TYPE = Some ?ct" by (simp add: header_value_Cons header_matches_iff)
  then have b: "multipart_boundary m ?hs = Some ''b''" "multipart_headers ?hs ''b'' = ?hs" "is_multipart ?hs = Some ?ct" for m
    using small_content_type
    by (simp_all add: multipart_boundary_def multipart_headers_def is_multipart_def header_matches_iff)
  have ok: "headers_ok ?hs"
    using small_content_type constant_headers by (simp add: headers_ok_def names_distinct_def header_ok_def)
  then obtain out where "render_headers ?hs = Inr out"
    using headers_roundtripD [of ?hs nibble_codec] by (auto simp: headers_ok_def)
  then obtain raw where raw: "render_message nibble_codec small_multipart False = Some (Inr raw)"
    using b s by (simp add: small_multipart_def with_mime_version_def)
  then show ?thesis
    using compose_parse_multipart [of ?hs "[small_leaf]" None None False "''b''" ?ct nibble_codec "\<lambda>_. p" raw]
      ok b s p fresh small_content_type(2)
    by (auto simp: small_multipart_def with_mime_version_def)
qed

end
