(* ===== verification/Transport.thy ===== *)
theory Transport
  imports Jobs Strings
begin

text \<open>
  The HTTP transport, \<^verbatim>\<open>src/internal/http/transport.rs\<close>, \<^verbatim>\<open>headers.rs\<close> and \<^verbatim>\<open>options.rs\<close>: transport
  errors and their retry classes, header collections, request deadlines and the default client. The
  crates \<^verbatim>\<open>http\<close> and \<^verbatim>\<open>mechanics_http_client\<close> are parameters (records \<open>header_map\<close> and \<open>http_client\<close>),
  and so are the clock and the timers (record \<open>timing\<close>).
\<close>

section \<open>Errors\<close>

datatype ErrorKind = TimedOut | InvalidInput | InvalidData | OtherKind | SystemKind nat

record io_error =
  ie_kind :: ErrorKind
  ie_message :: string

definition io_new :: "ErrorKind \<Rightarrow> string \<Rightarrow> io_error" where
  "io_new k m = \<lparr>ie_kind = k, ie_message = m\<rparr>"

definition into_io_error :: "string \<Rightarrow> io_error" where
  "into_io_error e = io_new OtherKind e"

text \<open>Decimal notation of a number in a message.\<close>

fun decimal :: "nat \<Rightarrow> string" where
  "decimal n = (if n < 10 then [char_of (48 + n)] else decimal (n div 10) @ [char_of (48 + n mod 10)])"

declare decimal.simps [simp del]

datatype EndpointTransportError =
    Network io_error
  | Timeout
  | BodyTooLarge nat "nat option"
  | InvalidRequest string
  | Decode string
  | OtherError string

record retry_policy =
  rp_max_attempts :: nat
  rp_retry_on_io_errors :: bool
  rp_retry_on_timeout :: bool
  rp_should_retry_status :: "nat \<Rightarrow> bool"
  rp_delay_for_status :: "nat \<Rightarrow> string option \<Rightarrow> nat \<Rightarrow> duration"
  rp_delay_for_transport :: "nat \<Rightarrow> duration"

fun transport_error_display :: "EndpointTransportError \<Rightarrow> string" where
  "transport_error_display (Network e) = ie_message e"
| "transport_error_display Timeout = ''request timed out''"
| "transport_error_display (BodyTooLarge l (Some n)) =
     ''response body exceeds configured max bytes ('' @ decimal l @ ''): content-length is '' @ decimal n"
| "transport_error_display (BodyTooLarge l None) =
     ''response body exceeds configured max bytes ('' @ decimal l @ '')''"
| "transport_error_display (InvalidRequest m) = m"
| "transport_error_display (Decode m) = m"
| "transport_error_display (OtherError m) = m"

fun is_retryable_per :: "EndpointTransportError \<Rightarrow> retry_policy \<Rightarrow> bool" where
  "is_retryable_per (Network _) policy = rp_retry_on_io_errors policy"
| "is_retryable_per Timeout policy = rp_retry_on_timeout policy"
| "is_retryable_per _ policy = False"

fun transport_into_io_error :: "EndpointTransportError \<Rightarrow> io_error" where
  "transport_into_io_error (Network e) = e"
| "transport_into_io_error Timeout = io_new TimedOut ''request timed out''"
| "transport_into_io_error (BodyTooLarge l s) = io_new InvalidData (transport_error_display (BodyTooLarge l s))"
| "transport_into_io_error (InvalidRequest m) = io_new InvalidInput (transport_error_display (InvalidRequest m))"
| "transport_into_io_error (Decode m) = io_new OtherKind (transport_error_display (Decode m))"
| "transport_into_io_error (OtherError m) = io_new OtherKind (transport_error_display (OtherError m))"

section \<open>Requests and responses\<close>

datatype HttpMethod = Get | Post | Put | Patch | Delete | Head | Options

datatype HttpMethodKind = GET | POST | PUT | PATCH | DELETE | HEAD | OPTIONS

fun as_http_method :: "HttpMethod \<Rightarrow> HttpMethodKind" where
  "as_http_method Get = GET"
| "as_http_method Post = POST"
| "as_http_method Put = PUT"
| "as_http_method Patch = PATCH"
| "as_http_method Delete = DELETE"
| "as_http_method Head = HEAD"
| "as_http_method Options = OPTIONS"

datatype 'n EndpointHttpRequestBody = NoBody | JsonBody "'n json" | Utf8Body string | BytesBody string

type_synonym EndpointHttpHeaders = "(string \<times> string) list"

definition headers_new :: EndpointHttpHeaders where
  "headers_new = []"

definition headers_insert :: "string \<Rightarrow> string \<Rightarrow> EndpointHttpHeaders \<Rightarrow> EndpointHttpHeaders" where
  "headers_insert name value hs = hs @ [(name, value)]"

definition headers_values :: "EndpointHttpHeaders \<Rightarrow> string \<Rightarrow> string list" where
  "headers_values hs name = map snd (filter (\<lambda>(k, _). eq_ignore_ascii_case k name) hs)"

text \<open>A header map of the crate \<^verbatim>\<open>http\<close>: names, values, insertion and iteration.\<close>

record ('hn, 'hv, 'h) header_map =
  hm_name :: "string \<Rightarrow> (string, 'hn) result"
  hm_value :: "string \<Rightarrow> (string, 'hv) result"
  hm_empty :: 'h
  hm_insert :: "'hn \<Rightarrow> 'hv \<Rightarrow> 'h \<Rightarrow> 'h"
  hm_keys :: "'h \<Rightarrow> 'hn list"
  hm_get_all :: "'h \<Rightarrow> 'hn \<Rightarrow> 'hv list"
  hm_name_str :: "'hn \<Rightarrow> string"
  hm_value_text :: "'hv \<Rightarrow> string"

fun from_keys ::
  "('hn, 'hv, 'h) header_map \<Rightarrow> 'h \<Rightarrow> 'hn list \<Rightarrow> 'hn list \<Rightarrow> EndpointHttpHeaders \<Rightarrow> EndpointHttpHeaders"
where
  "from_keys hm headers [] seen_multi out = out"
| "from_keys hm headers (name # names) seen_multi out =
     (if name \<in> set seen_multi then from_keys hm headers names seen_multi out
      else from_keys hm headers names (name # seen_multi)
             (fold (\<lambda>entry out. headers_insert (hm_name_str hm name) (hm_value_text hm entry) out)
                (hm_get_all hm headers name) out))"

definition from_http_map :: "('hn, 'hv, 'h) header_map \<Rightarrow> 'h \<Rightarrow> EndpointHttpHeaders" where
  "from_http_map hm headers = from_keys hm headers (hm_keys hm headers) [] headers_new"

fun header_from_pairs ::
  "('hn, 'hv, 'h) header_map \<Rightarrow> (string \<times> string) list \<Rightarrow> 'h \<Rightarrow> (io_error, 'h) result"
where
  "header_from_pairs hm [] headers = Inr headers"
| "header_from_pairs hm ((name, value) # pairs) headers =
     bind_ok (map_err (io_new InvalidInput) (hm_name hm name)) (\<lambda>header_name.
     bind_ok (map_err (io_new InvalidInput) (hm_value hm value)) (\<lambda>header_value.
     header_from_pairs hm pairs (hm_insert hm header_name header_value headers)))"

text \<open>The allowlist is a hash set: a list in the order of its iteration.\<close>

definition extract_exposed_response_headers_prepared ::
  "EndpointHttpHeaders \<Rightarrow> string list \<Rightarrow> (string \<rightharpoonup> string)"
where
  "extract_exposed_response_headers_prepared headers allowlisted =
     fold (\<lambda>name out.
        let parts = headers_values headers name
        in if parts \<noteq> [] then out(to_ascii_lowercase name \<mapsto> join_with '', '' parts) else out)
       allowlisted Map.empty"

record 'n EndpointHttpRequest =
  erq_method :: HttpMethod
  erq_url :: string
  erq_headers :: EndpointHttpHeaders
  erq_timeout_ms :: "nat option"
  erq_response_max_bytes :: "nat option"
  erq_body :: "'n EndpointHttpRequestBody"

record EndpointHttpResponse =
  erp_status :: nat
  erp_headers :: EndpointHttpHeaders
  erp_content_length :: "nat option"
  erp_body :: string

section \<open>Deadlines\<close>

text \<open>The clock, the sleep and the timeout of the asynchronous runtime.\<close>

record ('w, 'a) timing =
  tm_now :: "'w \<Rightarrow> instant \<times> 'w"
  tm_clock_max :: instant
  tm_sleep :: "duration \<Rightarrow> 'w \<Rightarrow> 'w"
  tm_timeout :: "duration \<Rightarrow> ('w \<Rightarrow> 'a \<times> 'w) \<Rightarrow> 'w \<Rightarrow> 'a option \<times> 'w"

definition request_deadline_new ::
  "('w, 'a) timing \<Rightarrow> nat option \<Rightarrow> 'w \<Rightarrow> (io_error, instant option) result \<times> 'w"
where
  "request_deadline_new tm timeout_ms w =
     (case timeout_ms of
        None \<Rightarrow> (Inr None, w)
      | Some ms \<Rightarrow>
          (case tm_now tm w of (now, w1) \<Rightarrow>
             (bind_ok (ok_or (io_new InvalidInput ''request timeout is too large for the current platform clock'')
                (instant_checked_add_std (tm_clock_max tm) now (from_millis ms))) (\<lambda>at. Inr (Some at)), w1)))"

definition request_deadline_remaining ::
  "('w, 'a) timing \<Rightarrow> instant \<Rightarrow> 'w \<Rightarrow> (io_error, duration) result \<times> 'w"
where
  "request_deadline_remaining tm expires_at w =
     (case tm_now tm w of (now, w1) \<Rightarrow>
        (if now < expires_at then Inr (expires_at - now) else Inl (io_new TimedOut ''request timed out''), w1))"

section \<open>The default client\<close>

datatype http_client_error =
    MhcTimeout
  | MhcUnreachable string
  | MhcTls string
  | MhcCancelled string
  | MhcDns string
  | MhcQuicHandshake string
  | MhcBodyTooLarge nat nat
  | MhcInvalidUrl string
  | MhcInvalidHeader string
  | MhcSerializeJson string
  | MhcDecode string
  | MhcInternal string
  | MhcUnknown nat

datatype 'n client_body = ClientJson "'n json" | ClientBytes string

record 'n client_request =
  cr_method :: HttpMethodKind
  cr_url :: string
  cr_headers :: "(string \<times> string) list"
  cr_timeout :: "duration option"
  cr_body :: "'n client_body option"

record ('w, 'n, 'h, 'res) http_client =
  mh_fresh_transport :: "'w \<Rightarrow> (string, unit) result \<times> 'w"
  mh_send :: "'n client_request \<Rightarrow> 'w \<Rightarrow> (http_client_error, 'res) result \<times> 'w"
  mh_status :: "'res \<Rightarrow> nat"
  mh_content_length :: "'res \<Rightarrow> nat option"
  mh_headers :: "'res \<Rightarrow> 'h"
  mh_bytes_with_cap :: "'res \<Rightarrow> nat \<Rightarrow> 'w \<Rightarrow> (http_client_error, string) result \<times> 'w"
  mh_bytes :: "'res \<Rightarrow> 'w \<Rightarrow> (http_client_error, string) result \<times> 'w"
  mh_show :: "http_client_error \<Rightarrow> string"

definition classify_mhc_error :: "(http_client_error \<Rightarrow> string) \<Rightarrow> http_client_error \<Rightarrow> EndpointTransportError" where
  "classify_mhc_error to_string err =
     (let message = to_string err
      in case err of
           MhcTimeout \<Rightarrow> Timeout
         | MhcUnreachable _ \<Rightarrow> Network (into_io_error message)
         | MhcTls _ \<Rightarrow> Network (into_io_error message)
         | MhcCancelled _ \<Rightarrow> Network (into_io_error message)
         | MhcDns _ \<Rightarrow> Network (into_io_error message)
         | MhcQuicHandshake _ \<Rightarrow> Network (into_io_error message)
         | MhcBodyTooLarge l s \<Rightarrow> BodyTooLarge l (Some s)
         | MhcInvalidUrl m \<Rightarrow> InvalidRequest m
         | MhcInvalidHeader m \<Rightarrow> InvalidRequest m
         | MhcSerializeJson m \<Rightarrow> InvalidRequest m
         | MhcDecode m \<Rightarrow> Decode m
         | MhcInternal m \<Rightarrow> OtherError m
         | MhcUnknown _ \<Rightarrow> OtherError message)"

definition classify_deadline_error :: "io_error \<Rightarrow> EndpointTransportError" where
  "classify_deadline_error err =
     (case ie_kind err of
        TimedOut \<Rightarrow> Timeout
      | InvalidInput \<Rightarrow> InvalidRequest (ie_message err)
      | _ \<Rightarrow> OtherError (ie_message err))"

fun request_body_of :: "'n EndpointHttpRequestBody \<Rightarrow> 'n client_body option" where
  "request_body_of NoBody = None"
| "request_body_of (JsonBody v) = Some (ClientJson v)"
| "request_body_of (Utf8Body s) = Some (ClientBytes s)"
| "request_body_of (BytesBody b) = Some (ClientBytes b)"

type_synonym 'a transport_result = "(EndpointTransportError, 'a) result"

definition read_body ::
  "('w, 'n, 'h, 'res) http_client \<Rightarrow> nat option \<Rightarrow> 'res \<Rightarrow> 'w \<Rightarrow> string transport_result \<times> 'w"
where
  "read_body mh response_max_bytes res w =
     (case response_max_bytes of
        Some cap \<Rightarrow>
          (case mh_bytes_with_cap mh res cap w of
             (Inr bytes, w1) \<Rightarrow> (Inr bytes, w1)
           | (Inl (MhcBodyTooLarge l _), w1) \<Rightarrow> (Inl (BodyTooLarge l None), w1)
           | (Inl err, w1) \<Rightarrow> (Inl (classify_mhc_error (mh_show mh) err), w1))
      | None \<Rightarrow>
          (case mh_bytes mh res w of (r, w1) \<Rightarrow> (map_err (classify_mhc_error (mh_show mh)) r, w1)))"

text \<open>The time that is left to a deadline, when there is one.\<close>

definition remaining_if ::
  "('w, 'a) timing \<Rightarrow> instant option \<Rightarrow> 'w \<Rightarrow> duration option transport_result \<times> 'w"
where
  "remaining_if tm deadline w =
     (case deadline of
        None \<Rightarrow> (Inr None, w)
      | Some expires_at \<Rightarrow>
          (case request_deadline_remaining tm expires_at w of
             (r, w1) \<Rightarrow> (bind_ok (map_err classify_deadline_error r) (\<lambda>d. Inr (Some d)), w1)))"

definition content_too_long :: "nat option \<Rightarrow> nat option \<Rightarrow> bool" where
  "content_too_long max_bytes content_length =
     (case (max_bytes, content_length) of (Some m, Some len) \<Rightarrow> len > m | _ \<Rightarrow> False)"

text \<open>Reading the body under the deadline of the request.\<close>

definition read_response ::
  "('w, string transport_result) timing \<Rightarrow> ('w, 'n, 'h, 'res) http_client \<Rightarrow> instant option \<Rightarrow> nat option
     \<Rightarrow> 'res \<Rightarrow> 'w \<Rightarrow> string transport_result \<times> 'w"
where
  "read_response tm mh deadline response_max_bytes res w =
     (case remaining_if tm deadline w of
        (Inl e, w1) \<Rightarrow> (Inl e, w1)
      | (Inr None, w1) \<Rightarrow> read_body mh response_max_bytes res w1
      | (Inr (Some remaining), w1) \<Rightarrow>
          (case tm_timeout tm remaining (read_body mh response_max_bytes res) w1 of
             (Some r, w2) \<Rightarrow> (r, w2)
           | (None, w2) \<Rightarrow> (Inl Timeout, w2)))"

text \<open>Sending the prepared request and reading the response.\<close>

definition exchange ::
  "('w, string transport_result) timing \<Rightarrow> ('hn, 'hv, 'h) header_map \<Rightarrow> ('w, 'n, 'h, 'res) http_client
     \<Rightarrow> 'n EndpointHttpRequest \<Rightarrow> instant option \<Rightarrow> duration option \<Rightarrow> 'w
     \<Rightarrow> EndpointHttpResponse transport_result \<times> 'w"
where
  "exchange tm hm mh request deadline timeout w =
     (case mh_send mh
             \<lparr>cr_method = as_http_method (erq_method request), cr_url = erq_url request,
              cr_headers = erq_headers request, cr_timeout = timeout,
              cr_body = request_body_of (erq_body request)\<rparr> w of
        (Inl e, w1) \<Rightarrow> (Inl (classify_mhc_error (mh_show mh) e), w1)
      | (Inr res, w1) \<Rightarrow>
     (let content_length = mh_content_length mh res;
          headers = from_http_map hm (mh_headers mh res)
      in if content_too_long (erq_response_max_bytes request) content_length
         then (Inl (BodyTooLarge (the (erq_response_max_bytes request)) content_length), w1)
         else
     (case read_response tm mh deadline (erq_response_max_bytes request) res w1 of
        (Inl e, w2) \<Rightarrow> (Inl e, w2)
      | (Inr body, w2) \<Rightarrow>
          (Inr \<lparr>erp_status = mh_status mh res, erp_headers = headers,
                erp_content_length = content_length, erp_body = body\<rparr>, w2))))"

definition default_execute ::
  "('w, string transport_result) timing \<Rightarrow> ('hn, 'hv, 'h) header_map \<Rightarrow> ('w, 'n, 'h, 'res) http_client
     \<Rightarrow> 'n EndpointHttpRequest \<Rightarrow> 'w \<Rightarrow> EndpointHttpResponse transport_result \<times> 'w"
where
  "default_execute tm hm mh request w =
     (case mh_fresh_transport mh w of
        (Inl e, w1) \<Rightarrow> (Inl (OtherError e), w1)
      | (Inr _, w1) \<Rightarrow>
     (case request_deadline_new tm (erq_timeout_ms request) w1 of
        (Inl e, w2) \<Rightarrow> (Inl (classify_deadline_error e), w2)
      | (Inr deadline, w2) \<Rightarrow>
     (case remaining_if tm deadline w2 of
        (Inl e, w3) \<Rightarrow> (Inl e, w3)
      | (Inr timeout, w3) \<Rightarrow> exchange tm hm mh request deadline timeout w3)))"

section \<open>Call options\<close>

datatype 'n EndpointCallBody = CallAbsent | CallJson "'n json" | CallUtf8 string | CallBytes string

record 'n EndpointCallOptions =
  eo_url_params :: "string \<rightharpoonup> string"
  eo_queries :: "string \<rightharpoonup> string"
  eo_headers :: "string \<rightharpoonup> string"
  eo_body :: "'n EndpointCallBody"

datatype 'n EndpointResponseBody = RespJson "'n json" | RespUtf8 string | RespBytes string | RespEmpty

record 'n EndpointResponse =
  er_body :: "'n EndpointResponseBody"
  er_headers :: "string \<rightharpoonup> string"
  er_status :: nat
  er_ok :: bool

end
