(* ===== verification/Endpoint.thy ===== *)
theory Endpoint
  imports Transport
begin

text \<open>
  Endpoint calls, \<^verbatim>\<open>src/internal/http/endpoint/execute.rs\<close>: the request, the loop over attempts under
  one deadline, and the treatment of the response. The endpoint configuration belongs to the crate
  \<^verbatim>\<open>mechanics_config\<close> and is the parameter \<open>http_endpoint\<close>.
\<close>

datatype EndpointBodyType = JsonType | Utf8Type | BytesType

record http_endpoint =
  he_build_url :: "(string \<rightharpoonup> string) \<Rightarrow> (string \<rightharpoonup> string) \<Rightarrow> (io_error, string) result"
  he_build_headers :: "(string \<rightharpoonup> string) \<Rightarrow> (io_error, (string \<times> string) list) result"
  he_timeout_ms :: "nat option"
  he_response_max_bytes :: "nat option"
  he_method :: HttpMethod
  he_supports_request_body :: "HttpMethod \<Rightarrow> bool"
  he_method_str :: "HttpMethod \<Rightarrow> string"
  he_effective_request_body_type :: EndpointBodyType
  he_response_body_type :: EndpointBodyType
  he_retry_policy :: retry_policy
  he_allow_non_2xx_status :: bool

text \<open>
  What the call uses besides the endpoint: clock, client, header maps, URL and JSON parsers, the
  text of a UTF-8 error and the version of the package.
\<close>

record ('w, 'n, 'hn, 'hv, 'h) call_env =
  ce_timing :: "('w, string transport_result) timing"
  ce_execute :: "'n EndpointHttpRequest \<Rightarrow> 'w \<Rightarrow> EndpointHttpResponse transport_result \<times> 'w"
  ce_header_map :: "('hn, 'hv, 'h) header_map"
  ce_parse_url :: "string \<Rightarrow> (string, string) result"
  ce_parse_json :: "string \<Rightarrow> (string, 'n json) result"
  ce_utf8_error :: "string \<Rightarrow> string"
  ce_version :: string

section \<open>Building the request\<close>

definition DEFAULT_USER_AGENT :: "string \<Rightarrow> string" where
  "DEFAULT_USER_AGENT version = ''Mozilla/5.0 (compatible; mechanics-rs/'' @ version @ '')''"

definition build_url_for_options ::
  "('w, 'n, 'hn, 'hv, 'h) call_env \<Rightarrow> http_endpoint \<Rightarrow> 'n EndpointCallOptions \<Rightarrow> (io_error, string) result"
where
  "build_url_for_options ce he options =
     bind_ok (he_build_url he (eo_url_params options) (eo_queries options)) (\<lambda>url.
     map_err into_io_error (ce_parse_url ce url))"

definition build_headers_for_options ::
  "('w, 'n, 'hn, 'hv, 'h) call_env \<Rightarrow> http_endpoint \<Rightarrow> string option \<Rightarrow> 'n EndpointCallOptions \<Rightarrow> (io_error, 'h) result"
where
  "build_headers_for_options ce he default_content_type options =
     bind_ok (he_build_headers he (eo_headers options)) (\<lambda>endpoint_pairs.
     let pairs = [(''user-agent'', DEFAULT_USER_AGENT (ce_version ce))]
           @ (case default_content_type of None \<Rightarrow> [] | Some t \<Rightarrow> [(''content-type'', t)])
           @ endpoint_pairs
     in header_from_pairs (ce_header_map ce) pairs (hm_empty (ce_header_map ce)))"

fun content_type_of :: "EndpointBodyType \<Rightarrow> string" where
  "content_type_of JsonType = ''application/json''"
| "content_type_of Utf8Type = ''text/plain; charset=utf-8''"
| "content_type_of BytesType = ''application/octet-stream''"

definition default_content_type_of :: "http_endpoint \<Rightarrow> 'n EndpointCallOptions \<Rightarrow> string option" where
  "default_content_type_of he options =
     (if he_supports_request_body he (he_method he) \<and> (case eo_body options of CallAbsent \<Rightarrow> False | _ \<Rightarrow> True)
      then Some (content_type_of (he_effective_request_body_type he)) else None)"

fun typed_body :: "EndpointBodyType \<Rightarrow> 'n EndpointCallBody \<Rightarrow> (io_error, 'n EndpointHttpRequestBody) result" where
  "typed_body _ CallAbsent = Inr NoBody"
| "typed_body JsonType (CallJson v) = Inr (JsonBody v)"
| "typed_body JsonType (CallUtf8 s) = Inr (JsonBody (JString s))"
| "typed_body JsonType (CallBytes _) =
     Inl (io_new InvalidInput ''request_body_type `json` requires a JSON-compatible value'')"
| "typed_body Utf8Type (CallUtf8 s) = Inr (Utf8Body s)"
| "typed_body Utf8Type _ =
     Inl (io_new InvalidInput ''request_body_type `utf8` requires `options.body` to be a string'')"
| "typed_body BytesType (CallBytes bytes) = Inr (BytesBody bytes)"
| "typed_body BytesType _ =
     Inl (io_new InvalidInput ''request_body_type `bytes` requires `options.body` to be a typed array, ArrayBuffer, or DataView'')"

definition request_body :: "http_endpoint \<Rightarrow> 'n EndpointCallOptions \<Rightarrow> (io_error, 'n EndpointHttpRequestBody) result" where
  "request_body he options =
     (if he_supports_request_body he (he_method he)
      then typed_body (he_effective_request_body_type he) (eo_body options)
      else case eo_body options of
             CallAbsent \<Rightarrow> Inr NoBody
           | _ \<Rightarrow> Inl (io_new InvalidInput
                    (''HTTP '' @ he_method_str he (he_method he) @ '' endpoint does not accept a request body'')))"

definition build_request ::
  "('w, 'n, 'hn, 'hv, 'h) call_env \<Rightarrow> http_endpoint \<Rightarrow> string \<Rightarrow> 'h \<Rightarrow> nat option \<Rightarrow> 'n EndpointCallOptions
     \<Rightarrow> nat option \<Rightarrow> (io_error, 'n EndpointHttpRequest) result"
where
  "build_request ce he url headers response_max_bytes options attempt_timeout_ms =
     bind_ok (request_body he options) (\<lambda>body.
     Inr \<lparr>erq_method = he_method he, erq_url = url, erq_headers = from_http_map (ce_header_map ce) headers,
          erq_timeout_ms = attempt_timeout_ms, erq_response_max_bytes = response_max_bytes, erq_body = body\<rparr>)"

section \<open>Attempts\<close>

definition remaining :: "('w, 'a) timing \<Rightarrow> instant option \<Rightarrow> 'w \<Rightarrow> duration option \<times> 'w" where
  "remaining tm deadline w =
     (case deadline of
        None \<Rightarrow> (None, w)
      | Some d \<Rightarrow> (case tm_now tm w of (now, w1) \<Rightarrow> (Some (d - now), w1)))"

definition remaining_ms :: "('w, 'a) timing \<Rightarrow> instant option \<Rightarrow> 'w \<Rightarrow> nat option \<times> 'w" where
  "remaining_ms tm deadline w =
     (case remaining tm deadline w of
        (r, w1) \<Rightarrow> (map_option (\<lambda>r. case u64_try_from (as_millis r) of None \<Rightarrow> u64_max | Some ms \<Rightarrow> ms) r, w1))"

definition retry_sleep :: "('w, 'a) timing \<Rightarrow> instant option \<Rightarrow> duration \<Rightarrow> 'w \<Rightarrow> 'w" where
  "retry_sleep tm deadline delay w =
     (if delay = 0 then w
      else
        (case remaining tm deadline w of (r, w1) \<Rightarrow>
           let bounded = (case r of Some r \<Rightarrow> min delay r | None \<Rightarrow> delay)
           in if bounded = 0 then w1 else tm_sleep tm bounded w1))"

text \<open>
  The loop over the attempts: the last response, or an error. \<open>build\<close> builds the request of an
  attempt from its timeout.
\<close>

function attempt_loop ::
  "('w, 'n, 'hn, 'hv, 'h) call_env \<Rightarrow> retry_policy \<Rightarrow> (nat option \<Rightarrow> (io_error, 'n EndpointHttpRequest) result)
     \<Rightarrow> instant option \<Rightarrow> nat \<Rightarrow> 'w \<Rightarrow> (io_error, EndpointHttpResponse option) result \<times> 'w"
where
  "attempt_loop ce rp build deadline attempt w =
     (if attempt > rp_max_attempts rp then (Inr None, w)
      else
     (case remaining_ms (ce_timing ce) deadline w of
        (Some 0, w1) \<Rightarrow>
          (Inl (io_new TimedOut (''endpoint call timed out across '' @ decimal (saturating_sub attempt 1) @ '' attempt(s)'')), w1)
      | (attempt_timeout_ms, w1) \<Rightarrow>
     (case build attempt_timeout_ms of
        Inl e \<Rightarrow> (Inl e, w1)
      | Inr req \<Rightarrow>
     (case ce_execute ce req w1 of
        (Inr res, w2) \<Rightarrow>
          if attempt < rp_max_attempts rp \<and> rp_should_retry_status rp (erp_status res) then
            (let retry_after = (case headers_values (erp_headers res) ''retry-after'' of [] \<Rightarrow> None | v # _ \<Rightarrow> Some v)
             in attempt_loop ce rp build deadline (attempt + 1)
                  (retry_sleep (ce_timing ce) deadline (rp_delay_for_status rp (erp_status res) retry_after attempt) w2))
          else (Inr (Some res), w2)
      | (Inl err, w2) \<Rightarrow>
          if attempt < rp_max_attempts rp \<and> is_retryable_per err rp then
            attempt_loop ce rp build deadline (attempt + 1)
              (retry_sleep (ce_timing ce) deadline (rp_delay_for_transport rp attempt) w2)
          else (Inl (transport_into_io_error err), w2)))))"
  by pat_completeness auto
termination by (relation "measure (\<lambda>(_, rp, _, _, attempt, _). rp_max_attempts rp + 1 - attempt)") auto

declare attempt_loop.simps [simp del]

section \<open>The response\<close>

definition extend_body_with_limit :: "string \<Rightarrow> string \<Rightarrow> nat option \<Rightarrow> (io_error, string) result" where
  "extend_body_with_limit target chunk max_bytes =
     (case max_bytes of
        None \<Rightarrow> Inr (target @ chunk)
      | Some cap \<Rightarrow>
          bind_ok (ok_or (io_new InvalidData ''response body size overflow while enforcing max bytes limit'')
            (checked_add_usize (length target) (length chunk))) (\<lambda>next_len.
          if next_len > cap
          then Inl (io_new InvalidData (''response body exceeds configured max bytes ('' @ decimal cap @ '')''))
          else Inr (target @ chunk)))"

definition decode_response_body ::
  "('w, 'n, 'hn, 'hv, 'h) call_env \<Rightarrow> EndpointBodyType \<Rightarrow> string \<Rightarrow> (io_error, 'n EndpointResponseBody) result"
where
  "decode_response_body ce ty bytes =
     (case ty of
        JsonType \<Rightarrow> bind_ok (map_err into_io_error (ce_parse_json ce bytes)) (\<lambda>v. Inr (RespJson v))
      | Utf8Type \<Rightarrow> bind_ok (from_utf8 (into_io_error (ce_utf8_error ce bytes)) bytes) (\<lambda>s. Inr (RespUtf8 s))
      | BytesType \<Rightarrow> Inr (RespBytes bytes))"

definition process_response ::
  "('w, 'n, 'hn, 'hv, 'h) call_env \<Rightarrow> http_endpoint \<Rightarrow> string list \<Rightarrow> nat option \<Rightarrow> EndpointHttpResponse option
     \<Rightarrow> (io_error, 'n EndpointResponse) result"
where
  "process_response ce he allowlist response_max_bytes final_response =
     (case final_response of
        None \<Rightarrow> Inl (io_new OtherKind ''endpoint request attempts exhausted without terminal response'')
      | Some res \<Rightarrow>
     (let status_code = erp_status res; ok = (200 \<le> status_code \<and> status_code \<le> 299)
      in if \<not> he_allow_non_2xx_status he \<and> \<not> ok then Inl (io_new OtherKind (''HTTP status '' @ decimal status_code))
         else
     (let response_headers = extract_exposed_response_headers_prepared (erp_headers res) allowlist
      in if content_too_long response_max_bytes (erp_content_length res)
         then Inl (io_new InvalidData
                (''response body exceeds configured max bytes ('' @ decimal (the response_max_bytes)
                 @ ''): content-length is '' @ decimal (the (erp_content_length res))))
         else
     bind_ok (extend_body_with_limit [] (erp_body res) response_max_bytes) (\<lambda>bytes.
     if bytes = [] then
       Inr \<lparr>er_body = RespEmpty, er_headers = response_headers, er_status = status_code, er_ok = ok\<rparr>
     else
       bind_ok (decode_response_body ce (he_response_body_type he) bytes) (\<lambda>body.
       Inr \<lparr>er_body = body, er_headers = response_headers, er_status = status_code, er_ok = ok\<rparr>)))))"

section \<open>The call\<close>

definition or_default :: "'a option \<Rightarrow> 'a option \<Rightarrow> 'a option" where
  "or_default a b = (case a of Some x \<Rightarrow> Some x | None \<Rightarrow> b)"

definition call_deadline :: "('w, 'a) timing \<Rightarrow> nat option \<Rightarrow> 'w \<Rightarrow> instant option \<times> 'w" where
  "call_deadline tm timeout_ms w =
     (case timeout_ms of
        None \<Rightarrow> (None, w)
      | Some ms \<Rightarrow>
          (case tm_now tm w of (now, w1) \<Rightarrow> (instant_checked_add_std (tm_clock_max tm) now (from_millis ms), w1)))"

definition execute_endpoint ::
  "('w, 'n, 'hn, 'hv, 'h) call_env \<Rightarrow> http_endpoint \<Rightarrow> string list \<Rightarrow> nat option \<Rightarrow> nat option
     \<Rightarrow> 'n EndpointCallOptions \<Rightarrow> 'w \<Rightarrow> (io_error, 'n EndpointResponse) result \<times> 'w"
where
  "execute_endpoint ce he allowlist default_timeout_ms default_response_max_bytes options w =
     (let timeout_ms = or_default (he_timeout_ms he) default_timeout_ms;
          response_max_bytes = or_default (he_response_max_bytes he) default_response_max_bytes
      in case build_url_for_options ce he options of
           Inl e \<Rightarrow> (Inl e, w)
         | Inr url \<Rightarrow>
      (case build_headers_for_options ce he (default_content_type_of he options) options of
         Inl e \<Rightarrow> (Inl e, w)
       | Inr headers \<Rightarrow>
      (case call_deadline (ce_timing ce) timeout_ms w of (deadline, w1) \<Rightarrow>
      (case attempt_loop ce (he_retry_policy he) (build_request ce he url headers response_max_bytes options) deadline 1 w1 of
         (Inl e, w2) \<Rightarrow> (Inl e, w2)
       | (Inr final_response, w2) \<Rightarrow> (process_response ce he allowlist response_max_bytes final_response, w2)))))"

end
