(* ===== verification/Endpoint_Properties.thy ===== *)
theory Endpoint_Properties
  imports Endpoint
begin

text \<open>
  Correctness of endpoint calls: the number of attempts, the time a call takes under its deadline,
  which response or error it gives, the limit on the body and the exposed headers.
\<close>

section \<open>The number of attempts\<close>

lemma remaining_ms_snd: "snd (remaining_ms tm d w) = snd (remaining tm d w)"
  by (simp add: remaining_ms_def case_prod_unfold)

lemma remaining_cases:
  "remaining tm None w = (None, w)"
  "remaining tm (Some d) w = (Some (d - fst (tm_now tm w)), snd (tm_now tm w))"
  by (simp_all add: remaining_def case_prod_unfold)

text \<open>One unfolding of the loop, by what the attempt gives.\<close>

lemma attempt_loop_cases [consumes 1, case_names exhausted timed_out unbuildable retried answered failed]:
  assumes "attempt_loop ce rp build deadline attempt w = r"
  obtains (exhausted) "attempt > rp_max_attempts rp" "r = (Inr None, w)"
  | (timed_out) m where "attempt \<le> rp_max_attempts rp" "fst (remaining_ms (ce_timing ce) deadline w) = Some 0"
      "r = (Inl (io_new TimedOut m), snd (remaining_ms (ce_timing ce) deadline w))"
  | (unbuildable) e where "attempt \<le> rp_max_attempts rp"
      "build (fst (remaining_ms (ce_timing ce) deadline w)) = Inl e"
      "r = (Inl e, snd (remaining_ms (ce_timing ce) deadline w))"
  | (retried) req a w2 delay where "attempt < rp_max_attempts rp"
      "fst (remaining_ms (ce_timing ce) deadline w) \<noteq> Some 0"
      "build (fst (remaining_ms (ce_timing ce) deadline w)) = Inr req"
      "ce_execute ce req (snd (remaining_ms (ce_timing ce) deadline w)) = (a, w2)"
      "r = attempt_loop ce rp build deadline (attempt + 1) (retry_sleep (ce_timing ce) deadline delay w2)"
      "case a of Inr res \<Rightarrow> rp_should_retry_status rp (erp_status res) | Inl err \<Rightarrow> is_retryable_per err rp"
  | (answered) req res w2 where "attempt \<le> rp_max_attempts rp"
      "fst (remaining_ms (ce_timing ce) deadline w) \<noteq> Some 0"
      "build (fst (remaining_ms (ce_timing ce) deadline w)) = Inr req"
      "ce_execute ce req (snd (remaining_ms (ce_timing ce) deadline w)) = (Inr res, w2)"
      "r = (Inr (Some res), w2)" "attempt = rp_max_attempts rp \<or> \<not> rp_should_retry_status rp (erp_status res)"
  | (failed) req err w2 where "attempt \<le> rp_max_attempts rp"
      "fst (remaining_ms (ce_timing ce) deadline w) \<noteq> Some 0"
      "build (fst (remaining_ms (ce_timing ce) deadline w)) = Inr req"
      "ce_execute ce req (snd (remaining_ms (ce_timing ce) deadline w)) = (Inl err, w2)"
      "r = (Inl (transport_into_io_error err), w2)" "attempt = rp_max_attempts rp \<or> \<not> is_retryable_per err rp"
proof -
  obtain t w1 where t: "remaining_ms (ce_timing ce) deadline w = (t, w1)" by (cases "remaining_ms (ce_timing ce) deadline w")
  note r = assms [symmetric, unfolded attempt_loop.simps [of ce rp build deadline attempt w] t]
  show ?thesis
  proof (cases "attempt > rp_max_attempts rp \<or> t = Some 0")
    case True
    then show ?thesis using r t exhausted timed_out by (cases "attempt > rp_max_attempts rp") auto
  next
    case False
    then have body: "r = (case build t of
        Inl e \<Rightarrow> (Inl e, w1)
      | Inr req \<Rightarrow>
     (case ce_execute ce req w1 of
        (Inr res, w2) \<Rightarrow>
          if attempt < rp_max_attempts rp \<and> rp_should_retry_status rp (erp_status res) then
            (let retry_after = (case headers_values (erp_headers res) ''retry-after'' of [] \<Rightarrow> None | v # _ \<Rightarrow> Some v)
             in attempt_loop ce rp build deadline (attempt + 1)
                  (retry_sleep (ce_timing ce) deadline (rp_delay_for_status rp (erp_status res) retry_after attempt) w2))
          else (Inr (Some res), w2)
      | (Inl err, w2) \<Rightarrow>
          if attempt < rp_max_attempts rp \<and> is_retryable_per err rp then
            attempt_loop ce rp build deadline (attempt + 1)
              (retry_sleep (ce_timing ce) deadline (rp_delay_for_transport rp attempt) w2)
          else (Inl (transport_into_io_error err), w2)))"
      using r by (cases t; cases "the t") auto
    show ?thesis
    proof (cases "build t")
      case (Inl e)
      then show ?thesis using body t False unbuildable by auto
    next
      case (Inr req)
      obtain a w2 where a: "ce_execute ce req w1 = (a, w2)" by (cases "ce_execute ce req w1")
      show ?thesis
      proof (cases a)
        case (Inl err)
        then show ?thesis
          using body t a Inr False retried [of req a w2] failed [of req err w2]
          by (cases "attempt < rp_max_attempts rp \<and> is_retryable_per err rp") auto
      next
        case (Inr res)
        then show ?thesis
          using body t a \<open>build t = Inr req\<close> False retried [of req a w2] answered [of req res w2]
          by (cases "attempt < rp_max_attempts rp \<and> rp_should_retry_status rp (erp_status res)") (auto simp: Let_def)
      qed
    qed
  qed
qed

lemma attempts_induct:
  assumes "\<And>attempt w. (\<And>w'. attempt < m \<Longrightarrow> P (attempt + 1) w') \<Longrightarrow> P attempt w"
  shows "P (attempt :: nat) w"
proof (induction "m - attempt" arbitrary: attempt w rule: less_induct)
  case less
  show ?case by (rule assms) (rule less, simp)
qed

text \<open>A counter that only the client changes, by at most one per request.\<close>

definition counts_requests :: "('w, 'n, 'hn, 'hv, 'h) call_env \<Rightarrow> ('w \<Rightarrow> nat) \<Rightarrow> bool" where
  "counts_requests ce n \<longleftrightarrow>
     (\<forall>w. n (snd (tm_now (ce_timing ce) w)) = n w) \<and> (\<forall>d w. n (tm_sleep (ce_timing ce) d w) = n w)
     \<and> (\<forall>req w. n (snd (ce_execute ce req w)) \<le> n w + 1)"

lemma counts_remaining:
  "counts_requests ce n \<Longrightarrow> n (snd (remaining (ce_timing ce) d w)) = n w"
  "counts_requests ce n \<Longrightarrow> n (retry_sleep (ce_timing ce) d delay w) = n w"
  by (cases d; simp add: counts_requests_def remaining_cases retry_sleep_def Let_def case_prod_unfold)+

lemma attempt_loop_count:
  assumes "counts_requests ce n"
  shows "n (snd (attempt_loop ce rp build d attempt w)) \<le> n w + (rp_max_attempts rp + 1 - attempt)"
proof (induction attempt w rule: attempts_induct [where m = "rp_max_attempts rp"])
  case (1 attempt w)
  have e: "n (snd (ce_execute ce req w)) \<le> n w + 1" for req w using assms by (simp add: counts_requests_def)
  define w1 where "w1 = snd (remaining_ms (ce_timing ce) d w)"
  have w1: "n w1 = n w" using assms by (simp add: w1_def remaining_ms_snd counts_remaining)
  obtain r where "attempt_loop ce rp build d attempt w = r" by simp
  then show ?case
  proof (cases rule: attempt_loop_cases)
    case (retried req a w2 delay)
    then show ?thesis
      using 1 [of "retry_sleep (ce_timing ce) d delay w2"] e [of req w1] w1 assms \<open>attempt_loop _ _ _ _ _ _ = r\<close>
      by (simp add: counts_remaining w1_def)
  next
    case (answered req res w2)
    then show ?thesis using e [of req w1] w1 \<open>attempt_loop _ _ _ _ _ _ = r\<close> by (simp add: w1_def)
  next
    case (failed req err w2)
    then show ?thesis using e [of req w1] w1 \<open>attempt_loop _ _ _ _ _ _ = r\<close> by (simp add: w1_def)
  qed (use w1 \<open>attempt_loop _ _ _ _ _ _ = r\<close> in \<open>simp_all add: w1_def\<close>)
qed

lemma call_deadline_snd: "snd (call_deadline tm t w) = (case t of None \<Rightarrow> w | Some _ \<Rightarrow> snd (tm_now tm w))"
  by (auto simp: call_deadline_def case_prod_unfold split: option.splits)

text \<open>
  An endpoint call fails before its first request, or is the loop over the attempts followed by the
  treatment of its outcome.
\<close>

lemma execute_endpoint_cases [consumes 1, case_names refused ran]:
  assumes "execute_endpoint ce he allow dt dm options w = r"
  obtains (refused) e where "r = (Inl e, w)"
  | (ran) url headers where
      "r = (let (deadline, w1) = call_deadline (ce_timing ce) (or_default (he_timeout_ms he) dt) w;
                (a, w2) = attempt_loop ce (he_retry_policy he)
                  (build_request ce he url headers (or_default (he_response_max_bytes he) dm) options) deadline 1 w1
            in (case a of Inl e \<Rightarrow> Inl e
                | Inr res \<Rightarrow> process_response ce he allow (or_default (he_response_max_bytes he) dm) res, w2))"
proof (cases "build_url_for_options ce he options")
  case (Inl e)
  then show ?thesis using assms by (intro refused [of e]) (simp add: execute_endpoint_def)
next
  case url: (Inr url)
  show ?thesis
  proof (cases "build_headers_for_options ce he (default_content_type_of he options) options")
    case (Inl e)
    then show ?thesis using url assms by (intro refused [of e]) (simp add: execute_endpoint_def)
  next
    case (Inr headers)
    with url show ?thesis
      using assms by (intro ran [of url headers]) (auto simp: execute_endpoint_def Let_def split: prod.splits sum.splits)
  qed
qed

lemma call_attemptsD:
  assumes "counts_requests ce n"
  shows "n (snd (execute_endpoint ce he allow dt dm options w)) \<le> n w + rp_max_attempts (he_retry_policy he)"
proof -
  have now: "n (snd (tm_now (ce_timing ce) w)) = n w" for w using assms by (simp add: counts_requests_def)
  obtain r where r: "execute_endpoint ce he allow dt dm options w = r" by simp
  then show ?thesis
  proof (cases rule: execute_endpoint_cases)
    case (ran url headers)
    let ?d = "call_deadline (ce_timing ce) (or_default (he_timeout_ms he) dt) w"
    have "n (snd ?d) = n w" using now by (simp add: call_deadline_snd split: option.split)
    then show ?thesis
      using ran r attempt_loop_count [OF assms, of "he_retry_policy he" _ "fst ?d" 1 "snd ?d"]
      by (simp add: case_prod_unfold Let_def)
  qed (use r in simp)
qed

text \<open>
  A call makes at most as many requests as the retry policy allows, whatever the
  responses and errors are.
\<close>

theorem call_attempts_bounded:
  assumes "counts_requests ce n"
  shows "n (snd (execute_endpoint ce he allow dt dm options w)) \<le> n w + rp_max_attempts (he_retry_policy he)"
  using assms by (rule call_attemptsD)

section \<open>The time a call takes\<close>

text \<open>
  The clock does not go back, reading it takes at most \<open>eps\<close>, and a sleep or a bounded wait takes at
  most its duration and \<open>eps\<close>.
\<close>

definition timing_ok :: "('w, 'a) timing \<Rightarrow> ('w \<Rightarrow> instant) \<Rightarrow> duration \<Rightarrow> bool" where
  "timing_ok tm clock eps \<longleftrightarrow>
     (\<forall>w. clock w \<le> fst (tm_now tm w) \<and> fst (tm_now tm w) \<le> clock (snd (tm_now tm w))
        \<and> clock (snd (tm_now tm w)) \<le> clock w + eps)
     \<and> (\<forall>d w. clock (tm_sleep tm d w) \<le> clock w + d + eps)
     \<and> (\<forall>d f w. clock (snd (tm_timeout tm d f w)) \<le> clock w + d + eps)"

text \<open>A client that ends a request within its timeout, up to \<open>delta\<close>.\<close>

definition client_timely ::
  "('n EndpointHttpRequest \<Rightarrow> 'w \<Rightarrow> EndpointHttpResponse transport_result \<times> 'w) \<Rightarrow> ('w \<Rightarrow> instant) \<Rightarrow> duration \<Rightarrow> bool"
where
  "client_timely execute clock delta \<longleftrightarrow>
     (\<forall>req w t. erq_timeout_ms req = Some t \<longrightarrow> clock (snd (execute req w)) \<le> clock w + from_millis t + delta)"

lemma timing_now:
  assumes "timing_ok tm clock eps"
  shows "clock w \<le> fst (tm_now tm w)" "fst (tm_now tm w) \<le> clock (snd (tm_now tm w))"
    "clock (snd (tm_now tm w)) \<le> fst (tm_now tm w) + eps" "clock (snd (tm_now tm w)) \<le> clock w + eps"
  using assms unfolding timing_ok_def by (meson add_right_mono le_trans)+

lemma remaining_ms_le:
  assumes "fst (remaining_ms tm (Some d) w) = Some t"
  shows "from_millis t \<le> d - fst (tm_now tm w)"
proof -
  have "t \<le> as_millis (d - fst (tm_now tm w))"
    using assms by (auto simp: remaining_ms_def remaining_cases u64_try_from_def split: if_splits)
  then have "from_millis t \<le> from_millis (as_millis (d - fst (tm_now tm w)))" by (simp add: from_millis_def)
  then show ?thesis using from_millis_as_millis_le le_trans by blast
qed

lemma retry_sleep_time:
  assumes "timing_ok tm clock eps" "clock w \<le> d + b" "2 * eps \<le> b + eps"
  shows "clock (retry_sleep tm (Some d) delay w) \<le> d + b + eps"
proof -
  note now = timing_now [OF assms(1), of w]
  have "clock (tm_sleep tm x w') \<le> clock w' + x + eps" for x w' using assms(1) by (simp add: timing_ok_def)
  from this [of "min delay (d - fst (tm_now tm w))" "snd (tm_now tm w)"] now assms(2,3) show ?thesis
    by (auto simp: retry_sleep_def remaining_cases Let_def min_def split: if_splits)
qed

lemma attempt_loop_time:
  assumes tm: "timing_ok (ce_timing ce) clock eps" and cl: "client_timely (ce_execute ce) clock delta"
    and build: "\<And>t req. build t = Inr req \<Longrightarrow> erq_timeout_ms req = t"
    and start: "clock w \<le> d + 2 * eps + delta"
  shows "clock (snd (attempt_loop ce rp build (Some d) attempt w)) \<le> d + 3 * eps + delta"
  using start
proof (induction attempt w rule: attempts_induct [where m = "rp_max_attempts rp"])
  case (1 attempt w)
  define w1 where "w1 = snd (remaining_ms (ce_timing ce) (Some d) w)"
  have w1: "w1 = snd (tm_now (ce_timing ce) w)" by (simp add: w1_def remaining_ms_snd remaining_cases)
  note now = timing_now [OF tm, of w]
  have sent: "clock w2 \<le> d + eps + delta"
    if s: "build (fst (remaining_ms (ce_timing ce) (Some d) w)) = Inr req" "ce_execute ce req w1 = (a, w2)"
      "fst (remaining_ms (ce_timing ce) (Some d) w) \<noteq> Some 0" for req a w2
  proof -
    obtain t where t: "fst (remaining_ms (ce_timing ce) (Some d) w) = Some t" "t > 0"
      using s(3) by (auto simp: remaining_ms_def remaining_cases)
    then have "erq_timeout_ms req = Some t" using build s(1) by auto
    then have "clock w2 \<le> clock w1 + from_millis t + delta"
      using cl s(2) unfolding client_timely_def by (metis snd_conv)
    moreover have "from_millis t \<le> d - fst (tm_now (ce_timing ce) w)" using t(1) by (rule remaining_ms_le)
    moreover have "0 < from_millis t" using t(2) by (simp add: from_millis_def)
    ultimately show ?thesis using now unfolding w1 by linarith
  qed
  obtain r where r: "attempt_loop ce rp build (Some d) attempt w = r" by simp
  then show ?case
  proof (cases rule: attempt_loop_cases)
    case (retried req a w2 delay)
    have "clock w2 \<le> d + (eps + delta)" using sent [of req a w2] retried by (simp add: w1_def)
    then have "clock (retry_sleep (ce_timing ce) (Some d) delay w2) \<le> d + (eps + delta) + eps"
      by (intro retry_sleep_time [OF tm]) simp_all
    with 1(1) retried r show ?thesis by simp
  next
    case (answered req res w2)
    then show ?thesis using sent [of req "Inr res" w2] r by (simp add: w1_def)
  next
    case (failed req err w2)
    then show ?thesis using sent [of req "Inl err" w2] r by (simp add: w1_def)
  qed (use 1(2) now w1 r in \<open>simp_all add: w1_def [symmetric]\<close>)
qed

lemma call_timeD:
  assumes "timing_ok (ce_timing ce) clock eps" and "client_timely (ce_execute ce) clock delta"
    and "or_default (he_timeout_ms he) dt = Some t"
    and "clock w + eps + from_millis t \<le> tm_clock_max (ce_timing ce)"
  shows "clock (snd (execute_endpoint ce he allow dt dm options w)) \<le> clock w + from_millis t + 4 * eps + delta"
proof -
  note now = timing_now [OF assms(1), of w]
  let ?d = "fst (tm_now (ce_timing ce) w) + from_millis t" and ?w = "snd (tm_now (ce_timing ce) w)"
  have "call_deadline (ce_timing ce) (Some t) w = (Some ?d, ?w)"
    using now assms(4) by (simp add: call_deadline_def instant_checked_add_std_def case_prod_unfold)
  moreover have "clock (snd (attempt_loop ce rp (build_request ce he url headers m options) (Some ?d) 1 ?w)) \<le> ?d + 3 * eps + delta"
    for rp url headers m
    using assms(1,2) now by (intro attempt_loop_time) (auto simp: build_request_def result_simps)
  moreover obtain r where r: "execute_endpoint ce he allow dt dm options w = r" by simp
  ultimately show ?thesis
    using now assms(3)
    by (cases rule: execute_endpoint_cases [OF r]) (fastforce simp: case_prod_unfold Let_def intro: order_trans)+
qed

text \<open>
  The timeout bounds the whole call. With a client that honours the timeout of a request
  up to \<open>delta\<close>, a call ends at most \<open>4 * eps + delta\<close> after its timeout, no matter how many attempts
  the policy allows, how long its delays are and what the server answers.
\<close>

theorem call_time_bounded:
  assumes "timing_ok (ce_timing ce) clock eps" and "client_timely (ce_execute ce) clock delta"
    and "or_default (he_timeout_ms he) dt = Some t"
    and "clock w + eps + from_millis t \<le> tm_clock_max (ce_timing ce)"
  shows "clock (snd (execute_endpoint ce he allow dt dm options w)) \<le> clock w + from_millis t + 4 * eps + delta"
  using assms by (rule call_timeD)

section \<open>The default client\<close>

text \<open>
  What the default client relies on: building a transport takes at most \<open>eps\<close>, a request with a
  timeout ends within it up to \<open>eps\<close>, and a capped read gives at most as many bytes as the cap.
\<close>

definition http_client_ok :: "('w, 'n, 'h, 'res) http_client \<Rightarrow> ('w \<Rightarrow> instant) \<Rightarrow> duration \<Rightarrow> bool" where
  "http_client_ok mh clock eps \<longleftrightarrow>
     (\<forall>w. clock (snd (mh_fresh_transport mh w)) \<le> clock w + eps)
     \<and> (\<forall>req w d. cr_timeout req = Some d \<longrightarrow> clock (snd (mh_send mh req w)) \<le> clock w + d + eps)
     \<and> (\<forall>res cap w bytes w'. mh_bytes_with_cap mh res cap w = (Inr bytes, w') \<longrightarrow> length bytes \<le> cap)"

lemma remaining_if_Some:
  assumes "timing_ok tm clock eps" "remaining_if tm (Some d) w = (r, w')"
  shows "clock w' \<le> clock w + eps"
    and "r = Inr x \<Longrightarrow> \<exists>t. x = Some t \<and> clock w' + t \<le> d + eps"
proof -
  note now = timing_now [OF assms(1), of w]
  have r: "r = (if fst (tm_now tm w) < d then Inr (Some (d - fst (tm_now tm w))) else Inl Timeout)" "w' = snd (tm_now tm w)"
    using assms(2) by (auto simp: remaining_if_def request_deadline_remaining_def classify_deadline_error_def io_new_def
        case_prod_unfold split: if_splits)
  then show "clock w' \<le> clock w + eps" using now by simp
  show "\<exists>t. x = Some t \<and> clock w' + t \<le> d + eps" if "r = Inr x"
    using r now that by (auto split: if_splits)
qed

lemma read_response_time:
  assumes "timing_ok tm clock eps" "clock w \<le> d + 2 * eps"
  shows "clock (snd (read_response tm mh (Some d) m res w)) \<le> d + 3 * eps"
proof -
  obtain r w' where r: "remaining_if tm (Some d) w = (r, w')" by (cases "remaining_if tm (Some d) w")
  have wait: "clock (snd (tm_timeout tm t f w')) \<le> clock w' + t + eps" for t f
    using assms(1) by (simp add: timing_ok_def)
  show ?thesis
  proof (cases r)
    case (Inl e)
    then show ?thesis using remaining_if_Some(1) [OF assms(1) r] assms(2) r by (simp add: read_response_def)
  next
    case (Inr x)
    then obtain t where "x = Some t" "clock w' + t \<le> d + eps"
      using remaining_if_Some(2) [OF assms(1) r] by blast
    then show ?thesis
      using Inr r wait [of t "read_body mh m res"]
      by (auto simp: read_response_def split: prod.splits option.splits)
  qed
qed

lemma exchange_time:
  assumes "timing_ok tm clock eps" "http_client_ok mh clock eps" "clock w + t \<le> d + eps"
  shows "clock (snd (exchange tm hm mh req (Some d) (Some t) w)) \<le> d + 3 * eps"
proof -
  let ?r = "\<lparr>cr_method = as_http_method (erq_method req), cr_url = erq_url req,
      cr_headers = erq_headers req, cr_timeout = Some t, cr_body = request_body_of (erq_body req)\<rparr>"
  have "cr_timeout ?r = Some t" by simp
  then have "clock (snd (mh_send mh ?r w)) \<le> clock w + t + eps"
    using assms(2) unfolding http_client_ok_def by blast
  then have "clock (snd (mh_send mh ?r w)) \<le> d + 2 * eps" using assms(3) by linarith
  from this read_response_time [OF assms(1) this, of mh "erq_response_max_bytes req"] show ?thesis
    by (auto simp: exchange_def case_prod_unfold Let_def split: sum.split)
qed

lemma default_execute_time:
  assumes "timing_ok tm clock eps" "http_client_ok mh clock eps" "erq_timeout_ms req = Some t"
  shows "clock (snd (default_execute tm hm mh req w)) \<le> clock w + from_millis t + 5 * eps"
proof -
  obtain f w1 where f: "mh_fresh_transport mh w = (f, w1)" by (cases "mh_fresh_transport mh w")
  define now where "now = fst (tm_now tm w1)"
  define w2 where "w2 = snd (tm_now tm w1)"
  have fresh: "clock w1 \<le> clock w + eps" using assms(2) f unfolding http_client_ok_def by (metis snd_conv)
  note clk = timing_now [OF assms(1), of w1, folded now_def w2_def] fresh
  show ?thesis
  proof (cases "f = Inr () \<and> now + from_millis t \<le> tm_clock_max tm")
    case False
    then have "snd (default_execute tm hm mh req w) \<in> {w1, w2}"
      using f assms(3) by (cases f) (auto simp: default_execute_def request_deadline_new_def instant_checked_add_std_def
          now_def w2_def case_prod_unfold)
    then show ?thesis using clk by auto
  next
    case True
    let ?d = "now + from_millis t"
    obtain r w3 where r: "remaining_if tm (Some ?d) w2 = (r, w3)" by (cases "remaining_if tm (Some ?d) w2")
    have start: "default_execute tm hm mh req w =
        (case r of Inl e \<Rightarrow> (Inl e, w3) | Inr timeout \<Rightarrow> exchange tm hm mh req (Some ?d) timeout w3)"
      using True f assms(3) r
      by (cases r) (simp_all add: default_execute_def request_deadline_new_def instant_checked_add_std_def
          now_def [symmetric] w2_def [symmetric] case_prod_unfold)
    show ?thesis
    proof (cases r)
      case (Inl e)
      then show ?thesis using start remaining_if_Some(1) [OF assms(1) r] clk by simp
    next
      case (Inr x)
      then obtain d where "x = Some d" "clock w3 + d \<le> ?d + eps"
        using remaining_if_Some(2) [OF assms(1) r] by blast
      with start Inr exchange_time [OF assms(1,2), of w3 d ?d hm req] clk show ?thesis by simp
    qed
  qed
qed

text \<open>Everything a bounded wait gives is what the awaited computation gave.\<close>

definition timeout_transparent :: "('w, 'a) timing \<Rightarrow> bool" where
  "timeout_transparent tm \<longleftrightarrow> (\<forall>d f w r w'. tm_timeout tm d f w = (Some r, w') \<longrightarrow> (\<exists>v v'. f v = (r, v')))"

lemma read_body_within:
  assumes "http_client_ok mh clock eps" "read_body mh (Some m) res w = (Inr bytes, w')"
  shows "length bytes \<le> m"
proof -
  obtain r w1 where "mh_bytes_with_cap mh res m w = (r, w1)" by (cases "mh_bytes_with_cap mh res m w")
  then have "mh_bytes_with_cap mh res m w = (Inr bytes, w')"
    using assms(2) by (auto simp: read_body_def split: sum.splits http_client_error.splits)
  then show ?thesis using assms(1) unfolding http_client_ok_def by blast
qed

lemma default_execute_body:
  assumes "http_client_ok mh clock eps" "timeout_transparent tm" "erq_response_max_bytes req = Some m"
    "default_execute tm hm mh req w = (Inr res, w')"
  shows "length (erp_body res) \<le> m"
proof -
  obtain d t w1 where "exchange tm hm mh req d t w1 = (Inr res, w')"
    using assms(4) by (auto simp: default_execute_def split: prod.splits sum.splits)
  then obtain r w2 where rr: "read_response tm mh d (Some m) r w2 = (Inr (erp_body res), w')"
    using assms(3) by (auto simp: exchange_def Let_def split: prod.splits sum.splits if_splits)
  obtain x w3 where x: "remaining_if tm d w2 = (Inr x, w3)"
    using rr by (cases "remaining_if tm d w2"; cases "fst (remaining_if tm d w2)") (auto simp: read_response_def)
  obtain v v' where "read_body mh (Some m) r v = (Inr (erp_body res), v')"
  proof (cases x)
    case None
    then show ?thesis using rr x that by (simp add: read_response_def)
  next
    case (Some e)
    then have "fst (tm_timeout tm e (read_body mh (Some m) r) w3) = Some (Inr (erp_body res))"
      using rr x by (auto simp: read_response_def split: prod.splits option.splits)
    then show ?thesis
      using assms(2) that unfolding timeout_transparent_def by (metis prod.collapse)
  qed
  with assms(1) show ?thesis by (rule read_body_within)
qed

text \<open>
  The default client honours timeouts and limits. A request with a timeout ends at most
  \<open>5 * eps\<close> after it, connection, headers and body included, and the response to a request with a
  body limit has a body within the limit.
\<close>

theorem default_client_contract:
  assumes "timing_ok tm clock eps" and "timeout_transparent tm" and "http_client_ok mh clock eps"
  shows "client_timely (default_execute tm hm mh) clock (5 * eps)
    \<and> (erq_response_max_bytes req = Some m \<and> default_execute tm hm mh req w = (Inr res, w')
         \<longrightarrow> length (erp_body res) \<le> m)"
  using assms default_execute_time default_execute_body by (fastforce simp: client_timely_def)

section \<open>Outcomes\<close>

text \<open>A counter that the client increments with every request.\<close>

definition counts_exactly :: "('w, 'n, 'hn, 'hv, 'h) call_env \<Rightarrow> ('w \<Rightarrow> nat) \<Rightarrow> bool" where
  "counts_exactly ce n \<longleftrightarrow>
     (\<forall>w. n (snd (tm_now (ce_timing ce) w)) = n w) \<and> (\<forall>d w. n (tm_sleep (ce_timing ce) d w) = n w)
     \<and> (\<forall>req w. n (snd (ce_execute ce req w)) = n w + 1)"

text \<open>
  Property C23: only what may be retried is retried, and it is retried as long as attempts are left.
  A response that ends the attempts was given by the client with the last request; when its status is
  one to retry, all attempts were used. An error that ends them is a timeout of the call, an error in
  building a request, or an error of the client; when that is retryable, all attempts were used.
\<close>

theorem attempts_outcome:
  assumes "counts_exactly ce n" and "attempt_loop ce rp build deadline attempt w = (r, w')"
    and "attempt \<le> rp_max_attempts rp"
  shows "case r of
      Inr None \<Rightarrow> False
    | Inr (Some res) \<Rightarrow> (\<exists>req v. ce_execute ce req v = (Inr res, w'))
        \<and> (rp_should_retry_status rp (erp_status res) \<longrightarrow> n w' = n w + (rp_max_attempts rp + 1 - attempt))
    | Inl e \<Rightarrow> (deadline \<noteq> None \<and> ie_kind e = TimedOut) \<or> (\<exists>t. build t = Inl e)
        \<or> (\<exists>req v err. ce_execute ce req v = (Inl err, w') \<and> e = transport_into_io_error err
             \<and> (is_retryable_per err rp \<longrightarrow> n w' = n w + (rp_max_attempts rp + 1 - attempt)))"
  using assms(2,3)
proof (induction attempt w rule: attempts_induct [where m = "rp_max_attempts rp"])
  case (1 attempt w)
  have c: "counts_requests ce n" using assms(1) by (simp add: counts_exactly_def counts_requests_def)
  define w1 where "w1 = snd (remaining_ms (ce_timing ce) deadline w)"
  have w1: "n w1 = n w" using c by (simp add: w1_def remaining_ms_snd counts_remaining)
  have sent: "n v' = n v + 1" if "ce_execute ce req v = (a, v')" for req v a v'
    using assms(1) that unfolding counts_exactly_def by (metis snd_conv)
  from 1(2) show ?case
  proof (cases rule: attempt_loop_cases)
    case (timed_out m)
    then show ?thesis by (cases deadline) (auto simp: remaining_ms_def remaining_cases io_new_def)
  next
    case (retried req a w2 delay)
    have "n (retry_sleep (ce_timing ce) deadline delay w2) = n w + 1"
      using c sent [OF retried(4)] w1 by (simp add: counts_remaining w1_def)
    then have "n (retry_sleep (ce_timing ce) deadline delay w2) + (rp_max_attempts rp + 1 - (attempt + 1)) =
        n w + (rp_max_attempts rp + 1 - attempt)"
      using retried(1) by simp
    moreover have "attempt + 1 \<le> rp_max_attempts rp" using retried(1) by simp
    ultimately show ?thesis using 1(1) [OF retried(1) retried(5) [symmetric]] by (simp only:)
  next
    case (answered req res w2)
    have "n w2 = n w + 1" using sent [OF answered(4)] w1 by (simp add: w1_def)
    with answered show ?thesis by auto
  next
    case (failed req err w2)
    have "n w2 = n w + 1" using sent [OF failed(4)] w1 by (simp add: w1_def)
    with failed have "\<exists>req v err'. ce_execute ce req v = (Inl err', w') \<and> transport_into_io_error err = transport_into_io_error err'
             \<and> (is_retryable_per err' rp \<longrightarrow> n w' = n w + (rp_max_attempts rp + 1 - attempt))"
      by (intro exI [of _ req] exI [of _ w1] exI [of _ err]) (auto simp: w1_def)
    with failed show ?thesis by simp
  qed (use 1(3) in auto)
qed



section \<open>Headers\<close>

text \<open>
  Only allowlisted headers are exposed, under their lower-case name and with all their
  values joined in order, whatever the case in which the server and the configuration spell them.
\<close>

theorem exposed_headers_spec:
  "extract_exposed_response_headers_prepared headers allow k =
     (if k \<in> to_ascii_lowercase ` set allow \<and> headers_values headers k \<noteq> []
      then Some (join_with '', '' (headers_values headers k)) else None)"
proof -
  have v: "headers_values headers name = headers_values headers (to_ascii_lowercase name)" for name
    by (simp add: headers_values_def eq_ignore_ascii_case_def)
  have "fold (\<lambda>name out.
        let parts = headers_values headers name
        in if parts \<noteq> [] then out(to_ascii_lowercase name \<mapsto> join_with '', '' parts) else out) allow m k =
     (if k \<in> to_ascii_lowercase ` set allow \<and> headers_values headers k \<noteq> []
      then Some (join_with '', '' (headers_values headers k)) else m k)" for m
  proof (induction allow arbitrary: m)
    case (Cons a as)
    then show ?case using v [of a] by (auto simp: Let_def)
  qed simp
  from this [of Map.empty] show ?thesis by (simp add: extract_exposed_response_headers_prepared_def)
qed

section \<open>A small server\<close>

text \<open>
  Concrete parameters for the hypotheses above. The state is the time and the number of requests. A request takes 10 ns; the first is answered with
  status 503, every other with status 200 and a short text.
\<close>

definition small_timing :: "(nat \<times> nat, string transport_result) timing" where
  "small_timing = \<lparr>tm_now = (\<lambda>w. (fst w, w)), tm_clock_max = 10 ^ 18, tm_sleep = (\<lambda>d w. (fst w + d, snd w)),
     tm_timeout = (\<lambda>d f w. case f w of (r, w1) \<Rightarrow>
       if fst w1 \<le> fst w + d then (Some r, w1) else (None, (fst w + d, snd w1)))\<rparr>"

definition small_header_map :: "(string, string, (string \<times> string) list) header_map" where
  "small_header_map = \<lparr>hm_name = Inr, hm_value = Inr, hm_empty = [],
     hm_insert = (\<lambda>k v h. filter (\<lambda>p. fst p \<noteq> k) h @ [(k, v)]), hm_keys = map fst,
     hm_get_all = (\<lambda>h k. map snd (filter (\<lambda>p. fst p = k) h)), hm_name_str = id, hm_value_text = id\<rparr>"

definition small_client :: "(nat \<times> nat, nat, (string \<times> string) list, nat) http_client" where
  "small_client = \<lparr>mh_fresh_transport = (\<lambda>w. (Inr (), w)),
     mh_send = (\<lambda>req w. (Inr (if snd w = 0 then 503 else 200), (fst w + 10, snd w + 1))),
     mh_status = id, mh_content_length = (\<lambda>_. None), mh_headers = (\<lambda>_. []),
     mh_bytes_with_cap = (\<lambda>_ cap w. (if 2 \<le> cap then Inr ''ok'' else Inl (MhcBodyTooLarge cap 2), w)),
     mh_bytes = (\<lambda>_ w. (Inr ''ok'', w)), mh_show = (\<lambda>_. ''error'')\<rparr>"

definition small_env :: "(nat \<times> nat, nat, string, string, (string \<times> string) list) call_env" where
  "small_env = \<lparr>ce_timing = small_timing,
     ce_execute = (\<lambda>req w. (Inr \<lparr>erp_status = (if snd w = 0 then 503 else 200), erp_headers = [],
       erp_content_length = None, erp_body = ''ok''\<rparr>, (fst w + 10, snd w + 1))),
     ce_header_map = small_header_map, ce_parse_url = Inr, ce_parse_json = (\<lambda>_. Inl ''no json''),
     ce_utf8_error = (\<lambda>_. ''invalid''), ce_version = ''1''\<rparr>"

definition small_policy :: retry_policy where
  "small_policy = \<lparr>rp_max_attempts = 3, rp_retry_on_io_errors = True, rp_retry_on_timeout = True,
     rp_should_retry_status = (\<lambda>s. s = 503), rp_delay_for_status = (\<lambda>_ _ _. 1000), rp_delay_for_transport = (\<lambda>_. 1000)\<rparr>"

definition small_endpoint :: http_endpoint where
  "small_endpoint = \<lparr>he_build_url = (\<lambda>_ _. Inr ''u''), he_build_headers = (\<lambda>_. Inr []), he_timeout_ms = Some 5,
     he_response_max_bytes = Some 2, he_method = Get, he_supports_request_body = (\<lambda>m. m = Post),
     he_method_str = (\<lambda>_. ''GET''), he_effective_request_body_type = JsonType, he_response_body_type = Utf8Type,
     he_retry_policy = small_policy, he_allow_non_2xx_status = False\<rparr>"

definition small_options :: "nat EndpointCallOptions" where
  "small_options = \<lparr>eo_url_params = Map.empty, eo_queries = Map.empty, eo_headers = Map.empty, eo_body = CallAbsent\<rparr>"


lemma small_timing_ok: "timing_ok small_timing fst eps" "timeout_transparent small_timing"
  by (auto simp: timing_ok_def timeout_transparent_def small_timing_def split: prod.splits if_splits)

lemma small_client_ok: "http_client_ok small_client fst 10"
  by (auto simp: http_client_ok_def small_client_def split: if_splits)

lemma small_counts: "counts_exactly small_env snd" "counts_requests small_env snd"
  by (simp_all add: counts_exactly_def counts_requests_def small_env_def small_timing_def)


theorem call_attempts_bounded_witness:
  "snd (snd (execute_endpoint small_env small_endpoint [] None None small_options (0, 0))) \<le> 3"
  using call_attempts_bounded [OF small_counts(2), of small_endpoint "[]" None None small_options "(0, 0)"]
  by (simp add: small_endpoint_def small_policy_def)

theorem call_time_bounded_witness:
  "fst (snd (execute_endpoint small_env small_endpoint [] None None small_options (0, 0))) \<le> from_millis 5 + 10"
proof -
  have "timing_ok (ce_timing small_env) fst 0" "client_timely (ce_execute small_env) fst 10"
    "or_default (he_timeout_ms small_endpoint) None = Some 5" "fst (0::nat, 0::nat) + 0 + from_millis 5 \<le> tm_clock_max (ce_timing small_env)"
    by (simp_all add: small_env_def small_timing_ok client_timely_def small_endpoint_def or_default_def
        small_timing_def [THEN arg_cong, of tm_clock_max] from_millis_def)
  from call_time_bounded [OF this] show ?thesis by simp
qed

definition small_request :: "nat EndpointHttpRequest" where
  "small_request = \<lparr>erq_method = Get, erq_url = ''u'', erq_headers = [], erq_timeout_ms = Some 1,
     erq_response_max_bytes = Some 2, erq_body = NoBody\<rparr>"

lemma small_execute:
  "default_execute small_timing small_header_map small_client small_request (0, 0) =
     (Inr \<lparr>erp_status = 503, erp_headers = [], erp_content_length = None, erp_body = ''ok''\<rparr>, (10, 1))"
  by (simp add: default_execute_def exchange_def read_response_def remaining_if_def request_deadline_new_def
      request_deadline_remaining_def small_timing_def small_client_def instant_checked_add_std_def from_millis_def
      result_simps content_too_long_def read_body_def Let_def small_request_def from_http_map_def
      small_header_map_def headers_new_def)

theorem default_client_contract_witness:
  "client_timely (default_execute small_timing small_header_map small_client) fst 50
    \<and> (\<exists>res w'. default_execute small_timing small_header_map small_client small_request (0, 0) = (Inr res, w')
         \<and> length (erp_body res) \<le> 2)"
proof -
  have "erq_response_max_bytes small_request = Some 2" by (simp add: small_request_def)
  with default_client_contract [OF small_timing_ok small_client_ok, of small_header_map small_request 2 "(0, 0)"]
  show ?thesis using small_execute by auto
qed

theorem attempts_outcome_witness:
  "snd (snd (attempt_loop small_env (small_policy\<lparr>rp_should_retry_status := (\<lambda>_. True)\<rparr>)
      (\<lambda>t. Inr \<lparr>erq_method = Get, erq_url = ''u'', erq_headers = [], erq_timeout_ms = t,
         erq_response_max_bytes = Some 2, erq_body = NoBody\<rparr>) None 1 (0, 0))) = 3"
proof -
  let ?rp = "small_policy\<lparr>rp_should_retry_status := (\<lambda>_. True)\<rparr>"
  let ?b = "\<lambda>t. Inr \<lparr>erq_method = Get, erq_url = ''u'', erq_headers = [], erq_timeout_ms = t,
         erq_response_max_bytes = Some 2, erq_body = NoBody\<rparr> :: (io_error, nat EndpointHttpRequest) result"
  obtain r w' where r: "attempt_loop small_env ?rp ?b None 1 (0, 0) = (r, w')" by (meson surj_pair)
  have "1 \<le> rp_max_attempts ?rp" by (simp add: small_policy_def)
  from attempts_outcome [OF small_counts(1) r this] have "snd w' = 3"
    by (auto simp: small_env_def small_policy_def split: sum.splits option.splits)
  with r show ?thesis by simp
qed


end
