(* ===== verification/Js_Host.thy ===== *)
theory Js_Host
  imports Transport
begin

text \<open>
  The interface of the script engine as the native functions of \<^verbatim>\<open>src/internal/runtime/builtins/\<close> see
  it. The engine is a parameter: values are abstract, and every operation that may run script code
  takes and returns the whole world, so it may have any effect. The checks of arguments that the
  builtins share (\<^verbatim>\<open>builtins/mod.rs\<close>) are defined here.
\<close>

section \<open>Computations\<close>

datatype 'e js_exception = TypeExn string | RangeExn string | RustExn io_error | Thrown 'e

type_synonym ('w, 'e, 'a) jsc = "'w \<Rightarrow> ('e js_exception, 'a) result \<times> 'w"

definition js_ok :: "'a \<Rightarrow> ('w, 'e, 'a) jsc" where
  "js_ok a w = (Inr a, w)"

definition js_throw :: "'e js_exception \<Rightarrow> ('w, 'e, 'a) jsc" where
  "js_throw e w = (Inl e, w)"

definition js_bind :: "('w, 'e, 'a) jsc \<Rightarrow> ('a \<Rightarrow> ('w, 'e, 'b) jsc) \<Rightarrow> ('w, 'e, 'b) jsc" where
  "js_bind m f w = (case m w of (Inl e, w') \<Rightarrow> (Inl e, w') | (Inr a, w') \<Rightarrow> f a w')"

definition js_of :: "('e js_exception, 'a) result \<Rightarrow> ('w, 'e, 'a) jsc" where
  "js_of r w = (r, w)"

fun js_map :: "('a \<Rightarrow> ('w, 'e, 'b) jsc) \<Rightarrow> 'a list \<Rightarrow> ('w, 'e, 'b list) jsc" where
  "js_map f [] = js_ok []"
| "js_map f (x # xs) = js_bind (f x) (\<lambda>y. js_bind (js_map f xs) (\<lambda>ys. js_ok (y # ys)))"

fun js_each :: "('a \<Rightarrow> ('w, 'e, unit) jsc) \<Rightarrow> 'a list \<Rightarrow> ('w, 'e, unit) jsc" where
  "js_each f [] = js_ok ()"
| "js_each f (x # xs) = js_bind (f x) (\<lambda>_. js_each f xs)"

section \<open>The engine\<close>

datatype js_key = Named string | Index nat

text \<open>
  Strings of the engine are given by their lossy conversion to UTF-8. \<open>js_keys\<close> gives the own keys of
  an object with their text. Of a view (a typed array or a data view) the engine gives the buffer, the
  offset and the length; of an array buffer its length and its bytes, unless it is detached.
\<close>

record ('w, 'e, 'v, 'n) js =
  js_undefined :: 'v
  js_null :: 'v
  js_string :: "string \<Rightarrow> 'v"
  js_bool :: "bool \<Rightarrow> 'v"
  js_int :: "int \<Rightarrow> 'v"
  js_as_string :: "'v \<Rightarrow> string option"
  js_is_object :: "'v \<Rightarrow> bool"
  js_is_callable :: "'v \<Rightarrow> bool"
  js_get :: "'v \<Rightarrow> js_key \<Rightarrow> ('w, 'e, 'v) jsc"
  js_set :: "'v \<Rightarrow> js_key \<Rightarrow> 'v \<Rightarrow> ('w, 'e, unit) jsc"
  js_keys :: "'v \<Rightarrow> ('w, 'e, (string \<times> js_key) list) jsc"
  js_to_length :: "'v \<Rightarrow> ('w, 'e, nat) jsc"
  js_to_string :: "'v \<Rightarrow> ('w, 'e, string) jsc"
  js_to_object :: "'v \<Rightarrow> ('w, 'e, 'v) jsc"
  js_to_json :: "'v \<Rightarrow> ('w, 'e, 'n json option) jsc"
  js_from_json :: "'n json \<Rightarrow> ('w, 'e, 'v) jsc"
  js_call :: "'v \<Rightarrow> 'v \<Rightarrow> 'v list \<Rightarrow> ('w, 'e, 'v) jsc"
  js_new_object :: "'w \<Rightarrow> 'v \<times> 'w"
  js_array :: "'v list \<Rightarrow> 'w \<Rightarrow> 'v \<times> 'w"
  js_push :: "'v \<Rightarrow> 'v \<Rightarrow> ('w, 'e, unit) jsc"
  js_uint8_array :: "string \<Rightarrow> ('w, 'e, 'v) jsc"
  js_is_typed_array :: "'v \<Rightarrow> bool"
  js_typed_buffer :: "'v \<Rightarrow> ('w, 'e, 'v) jsc"
  js_typed_offset :: "'v \<Rightarrow> ('w, 'e, nat) jsc"
  js_typed_length :: "'v \<Rightarrow> ('w, 'e, nat) jsc"
  js_is_data_view :: "'v \<Rightarrow> bool"
  js_view_buffer :: "'v \<Rightarrow> ('w, 'e, 'v) jsc"
  js_view_offset :: "'v \<Rightarrow> ('w, 'e, nat) jsc"
  js_view_length :: "'v \<Rightarrow> ('w, 'e, nat) jsc"
  js_is_array_buffer :: "'v \<Rightarrow> bool"
  js_buffer_length :: "'v \<Rightarrow> 'w \<Rightarrow> nat"
  js_buffer_data :: "'v \<Rightarrow> 'w \<Rightarrow> string option"
  js_buffer_write :: "'v \<Rightarrow> string \<Rightarrow> 'w \<Rightarrow> 'w"

definition js_new :: "('w, 'e, 'v, 'n) js \<Rightarrow> ('w, 'e, 'v) jsc" where
  "js_new js w = (case js_new_object js w of (v, w') \<Rightarrow> (Inr v, w'))"

definition js_new_array :: "('w, 'e, 'v, 'n) js \<Rightarrow> 'v list \<Rightarrow> ('w, 'e, 'v) jsc" where
  "js_new_array js vs w = (case js_array js vs w of (v, w') \<Rightarrow> (Inr v, w'))"

text \<open>An argument that is not given is undefined.\<close>

definition arg :: "('w, 'e, 'v, 'n) js \<Rightarrow> 'v list \<Rightarrow> nat \<Rightarrow> 'v" where
  "arg js args i = (if i < length args then args ! i else js_undefined js)"

section \<open>Arguments\<close>

definition js_type_error :: "string \<Rightarrow> 'e js_exception" where
  "js_type_error message = TypeExn message"

definition js_range_error :: "string \<Rightarrow> 'e js_exception" where
  "js_range_error message = RangeExn message"

definition required_string_arg :: "('w, 'e, 'v, 'n) js \<Rightarrow> 'v list \<Rightarrow> nat \<Rightarrow> string \<Rightarrow> ('e js_exception, string) result" where
  "required_string_arg js args index name =
     ok_or (js_type_error (name @ '' must be a string'')) (js_as_string js (arg js args index))"

section \<open>Lemmas\<close>

named_theorems js_simps \<open>evaluation of computations\<close>

lemma js_eval [js_simps]:
  "js_ok a w = (Inr a, w)" "js_throw e w = (Inl e, w)" "js_of r w = (r, w)"
  by (simp_all add: js_ok_def js_throw_def js_of_def)

lemma js_bind_eq_Inr:
  "js_bind m f w = (Inr b, w'') \<longleftrightarrow> (\<exists>a w'. m w = (Inr a, w') \<and> f a w' = (Inr b, w''))"
  by (auto simp: js_bind_def split: prod.splits sum.splits)

lemma js_bind_eq_Inl:
  "js_bind m f w = (Inl e, w'') \<longleftrightarrow> m w = (Inl e, w'') \<or> (\<exists>a w'. m w = (Inr a, w') \<and> f a w' = (Inl e, w''))"
  by (auto simp: js_bind_def split: prod.splits sum.splits)

lemma js_bind_Inr [js_simps]: "m w = (Inr a, w') \<Longrightarrow> js_bind m f w = f a w'"
  by (simp add: js_bind_def)

lemma js_bind_Inl [js_simps]: "m w = (Inl e, w') \<Longrightarrow> js_bind m f w = (Inl e, w')"
  by (simp add: js_bind_def)

lemma js_bind_of [js_simps]:
  "js_bind (js_of r) f w = (case r of Inl e \<Rightarrow> (Inl e, w) | Inr a \<Rightarrow> f a w)"
  "js_bind (js_ok a) f w = f a w" "js_bind (js_throw e) f w = (Inl e, w)"
  by (auto simp: js_bind_def js_of_def js_ok_def js_throw_def split: sum.split)

lemma js_bind_assoc: "js_bind (js_bind m f) g = js_bind m (\<lambda>a. js_bind (f a) g)"
  by (auto simp: js_bind_def fun_eq_iff split: prod.splits sum.splits)

text \<open>What every step of a computation keeps, the computation keeps.\<close>

definition js_keeps :: "('w \<Rightarrow> 'w \<Rightarrow> bool) \<Rightarrow> ('w, 'e, 'a) jsc \<Rightarrow> bool" where
  "js_keeps R m \<longleftrightarrow> (\<forall>w. R w (snd (m w)))"

named_theorems js_keeps_intros \<open>steps that keep a relation between worlds\<close>

lemma js_keeps_basic [js_keeps_intros]:
  "reflp R \<Longrightarrow> js_keeps R (js_ok a)" "reflp R \<Longrightarrow> js_keeps R (js_throw e)" "reflp R \<Longrightarrow> js_keeps R (js_of r)"
  by (simp_all add: js_keeps_def js_simps reflpD)

lemma js_keeps_bind [js_keeps_intros]:
  assumes "transp R" "js_keeps R m" "\<And>a. js_keeps R (f a)"
  shows "js_keeps R (js_bind m f)"
  unfolding js_keeps_def
proof
  fix w
  obtain r w' where m: "m w = (r, w')" by (cases "m w")
  then have "R w w'" using assms(2) by (metis js_keeps_def snd_conv)
  moreover have "R w' (snd (f a w'))" for a using assms(3) by (simp add: js_keeps_def)
  ultimately show "R w (snd (js_bind m f w))"
    using m assms(1) by (cases r) (auto simp: js_simps elim: transpE)
qed

lemma js_keeps_map:
  assumes "reflp R" "transp R" "\<And>x. x \<in> set xs \<Longrightarrow> js_keeps R (f x)"
  shows "js_keeps R (js_map f xs)"
  using assms(3) by (induction xs) (auto intro!: js_keeps_basic js_keeps_bind assms(1,2))

end
