(* ===== verification/Buffer_Like.thy ===== *)
theory Buffer_Like
  imports Js_Host
begin

text \<open>
  Access to array buffers and their views, \<^verbatim>\<open>src/internal/runtime/buffer_like.rs\<close>: bytes are read
  from, and random bytes are written to, exactly the range of the view.
\<close>

section \<open>Ranges\<close>

definition u64_to_usize :: "nat \<Rightarrow> string \<Rightarrow> ('e js_exception, nat) result" where
  "u64_to_usize n field =
     (if n \<le> usize_max then Inr n else Inl (js_range_error (field @ '' exceeds usize range'')))"

text \<open>The slice \<^verbatim>\<open>data.get(offset..end)\<close>.\<close>

definition slice :: "nat \<Rightarrow> nat \<Rightarrow> 'a list \<Rightarrow> 'a list option" where
  "slice offset stop data =
     (if offset \<le> stop \<and> stop \<le> length data then Some (take (stop - offset) (drop offset data)) else None)"

definition read_bytes_from_array_buffer_range ::
  "('w, 'e, 'v, 'n) js \<Rightarrow> 'v \<Rightarrow> nat \<Rightarrow> nat \<Rightarrow> ('w, 'e, string) jsc"
where
  "read_bytes_from_array_buffer_range js buffer offset len w =
     (bind_ok (ok_or (js_type_error ''ArrayBuffer is detached'') (js_buffer_data js buffer w)) (\<lambda>data.
      bind_ok (ok_or (js_range_error ''buffer range overflow'') (checked_add_usize offset len)) (\<lambda>stop.
      ok_or (js_range_error ''buffer range is out of bounds'') (slice offset stop data))), w)"

section \<open>Views\<close>

text \<open>The array buffer, the offset and the length of a typed array.\<close>

definition typed_range :: "('w, 'e, 'v, 'n) js \<Rightarrow> 'v \<Rightarrow> ('w, 'e, 'v \<times> nat \<times> nat) jsc" where
  "typed_range js typed =
     js_bind (js_typed_buffer js typed) (\<lambda>buffer.
     if \<not> js_is_object js buffer then js_throw (js_type_error ''TypedArray buffer is not an ArrayBuffer'')
     else if \<not> js_is_array_buffer js buffer
     then js_throw (js_type_error ''TypedArray backed by SharedArrayBuffer is not supported'')
     else
     js_bind (js_typed_offset js typed) (\<lambda>offset.
     js_bind (js_typed_length js typed) (\<lambda>len. js_ok (buffer, offset, len))))"

text \<open>The same of a data view, whose offset and length are 64-bit numbers.\<close>

definition view_range :: "('w, 'e, 'v, 'n) js \<Rightarrow> 'v \<Rightarrow> ('w, 'e, 'v \<times> nat \<times> nat) jsc" where
  "view_range js view =
     js_bind (js_view_buffer js view) (\<lambda>buffer.
     if \<not> js_is_object js buffer then js_throw (js_type_error ''DataView buffer is not an ArrayBuffer'')
     else if \<not> js_is_array_buffer js buffer
     then js_throw (js_type_error ''DataView backed by SharedArrayBuffer is not supported'')
     else
     js_bind (js_view_offset js view) (\<lambda>n.
     js_bind (js_of (u64_to_usize n ''DataView byte_offset'')) (\<lambda>offset.
     js_bind (js_view_length js view) (\<lambda>m.
     js_bind (js_of (u64_to_usize m ''DataView byte_length'')) (\<lambda>len. js_ok (buffer, offset, len))))))"

text \<open>What a value gives access to, when it is a view or an array buffer.\<close>

definition buffer_range :: "('w, 'e, 'v, 'n) js \<Rightarrow> 'v \<Rightarrow> ('w, 'e, ('v \<times> nat \<times> nat) option) jsc" where
  "buffer_range js v =
     (if js_is_typed_array js v then js_bind (typed_range js v) (\<lambda>r. js_ok (Some r))
      else if js_is_data_view js v then js_bind (view_range js v) (\<lambda>r. js_ok (Some r))
      else if js_is_array_buffer js v then (\<lambda>w. (Inr (Some (v, 0, js_buffer_length js v w)), w))
      else js_ok None)"

section \<open>Reading\<close>

definition try_extract_buffer_like_bytes :: "('w, 'e, 'v, 'n) js \<Rightarrow> 'v \<Rightarrow> ('w, 'e, string option) jsc" where
  "try_extract_buffer_like_bytes js v =
     (if \<not> js_is_object js v then js_ok None
      else js_bind (buffer_range js v) (\<lambda>r.
        case r of
          None \<Rightarrow> js_ok None
        | Some (buffer, offset, len) \<Rightarrow>
            js_bind (read_bytes_from_array_buffer_range js buffer offset len) (\<lambda>bytes. js_ok (Some bytes))))"

definition required_buffer_like_arg :: "('w, 'e, 'v, 'n) js \<Rightarrow> 'v list \<Rightarrow> nat \<Rightarrow> string \<Rightarrow> ('w, 'e, string) jsc" where
  "required_buffer_like_arg js args index name =
     js_bind (try_extract_buffer_like_bytes js (arg js args index)) (\<lambda>r.
     js_of (ok_or (js_type_error (name @ '' must be a TypedArray, ArrayBuffer, or DataView'')) r))"

section \<open>Random bytes\<close>

text \<open>
  The source of random bytes fills a slice: it gives the new contents of the slice, and an error if it
  failed.
\<close>

type_synonym 'w random_source = "string \<Rightarrow> 'w \<Rightarrow> (string, unit) result \<times> string \<times> 'w"

definition fill_random_in_array_buffer_range ::
  "('w, 'e, 'v, 'n) js \<Rightarrow> 'w random_source \<Rightarrow> 'v \<Rightarrow> nat \<Rightarrow> nat \<Rightarrow> ('w, 'e, unit) jsc"
where
  "fill_random_in_array_buffer_range js random buffer offset len w =
     (case bind_ok (ok_or (js_type_error ''ArrayBuffer is detached'') (js_buffer_data js buffer w)) (\<lambda>data.
           bind_ok (ok_or (js_range_error ''buffer range overflow'') (checked_add_usize offset len)) (\<lambda>stop.
           bind_ok (ok_or (js_range_error ''buffer range is out of bounds'') (slice offset stop data)) (\<lambda>target.
           Inr (data, stop, target)))) of
        Inl e \<Rightarrow> (Inl e, w)
      | Inr (data, stop, target) \<Rightarrow>
          (case random target w of (r, filled, w1) \<Rightarrow>
             (map_err (\<lambda>m. RustExn (into_io_error m)) r,
              js_buffer_write js buffer (take offset data @ filled @ drop stop data) w1)))"

definition fill_random_buffer_like :: "('w, 'e, 'v, 'n) js \<Rightarrow> 'w random_source \<Rightarrow> 'v \<Rightarrow> ('w, 'e, unit) jsc" where
  "fill_random_buffer_like js random v =
     (let refused = js_throw (js_type_error ''bufferLike must be a TypedArray, ArrayBuffer, or DataView'')
      in if \<not> js_is_object js v then refused
         else js_bind (buffer_range js v) (\<lambda>r.
           case r of
             None \<Rightarrow> refused
           | Some (buffer, offset, len) \<Rightarrow> fill_random_in_array_buffer_range js random buffer offset len))"

definition rand_fill_random :: "('w, 'e, 'v, 'n) js \<Rightarrow> 'w random_source \<Rightarrow> 'v list \<Rightarrow> ('w, 'e, 'v) jsc" where
  "rand_fill_random js random args =
     js_bind (fill_random_buffer_like js random (arg js args 0)) (\<lambda>_. js_ok (js_undefined js))"

definition bytes_to_uint8_array_value :: "('w, 'e, 'v, 'n) js \<Rightarrow> string \<Rightarrow> ('w, 'e, 'v) jsc" where
  "bytes_to_uint8_array_value js bytes = js_uint8_array js bytes"

definition js_string_value :: "('w, 'e, 'v, 'n) js \<Rightarrow> string \<Rightarrow> 'v" where
  "js_string_value js s = js_string js s"

section \<open>Lemmas\<close>

lemma slice_eq_Some:
  "slice a b xs = Some ys \<longleftrightarrow> a \<le> b \<and> b \<le> length xs \<and> ys = take (b - a) (drop a xs)"
  by (auto simp: slice_def)

lemma read_bytes_Inr:
  assumes "read_bytes_from_array_buffer_range js buffer offset len w = (Inr bytes, w')"
  shows "w' = w \<and> (\<exists>data. js_buffer_data js buffer w = Some data \<and> offset + len \<le> length data
    \<and> bytes = take len (drop offset data))"
  using assms
  by (auto simp: read_bytes_from_array_buffer_range_def result_simps checked_add_usize_def slice_eq_Some split: if_splits)

lemma extract_Inr_Some:
  assumes "try_extract_buffer_like_bytes js v w = (Inr (Some bytes), w')"
  obtains buffer offset len where "buffer_range js v w = (Inr (Some (buffer, offset, len)), w')"
    "read_bytes_from_array_buffer_range js buffer offset len w' = (Inr bytes, w')"
proof -
  obtain r w1 where r: "buffer_range js v w = (Inr r, w1)"
    using assms by (auto simp: try_extract_buffer_like_bytes_def js_bind_eq_Inr js_simps split: if_splits)
  then obtain b off len where [simp]: "r = Some (b, off, len)"
    using assms by (cases r) (auto simp: try_extract_buffer_like_bytes_def js_simps split: if_splits)
  have "read_bytes_from_array_buffer_range js b off len w1 = (Inr bytes, w')"
    using assms r by (auto simp: try_extract_buffer_like_bytes_def js_simps js_bind_eq_Inr split: if_splits)
  with r read_bytes_Inr that show ?thesis by (metis \<open>r = Some (b, off, len)\<close>)
qed

end
