(* ===== verification/Small_Js.thy ===== *)
theory Small_Js
  imports Js_Host "HOL-Library.AList"
begin

text \<open>
  A small script engine without code: plain objects with data properties, array buffers and views of
  whole buffers. It instantiates the parameter \<open>js\<close> in the witnesses. Its state is a part of the
  world, which \<open>get\<close> reads and \<open>put\<close> replaces.
\<close>

datatype sval = SUndef | SNull | SBool bool | SInt int | SStr string | SObj nat | SBuf nat | SView nat | SFun

record sworld =
  so_objs :: "(js_key \<times> sval) list list"
  so_bufs :: "string list"

definition nth_or :: "'a \<Rightarrow> 'a list \<Rightarrow> nat \<Rightarrow> 'a" where
  "nth_or d xs i = (if i < length xs then xs ! i else d)"

fun sprops :: "sworld \<Rightarrow> sval \<Rightarrow> (js_key \<times> sval) list" where
  "sprops s (SObj i) = nth_or [] (so_objs s) i"
| "sprops s _ = []"

definition sget :: "sworld \<Rightarrow> sval \<Rightarrow> js_key \<Rightarrow> sval" where
  "sget s v k = (case map_of (sprops s v) k of None \<Rightarrow> SUndef | Some x \<Rightarrow> x)"

definition sset :: "sval \<Rightarrow> js_key \<Rightarrow> sval \<Rightarrow> sworld \<Rightarrow> sworld" where
  "sset v k x s = (case v of SObj i \<Rightarrow> s\<lparr>so_objs := (so_objs s)[i := AList.update k x (sprops s v)]\<rparr> | _ \<Rightarrow> s)"

definition snew :: "(js_key \<times> sval) list \<Rightarrow> sworld \<Rightarrow> sval \<times> sworld" where
  "snew ps s = (SObj (length (so_objs s)), s\<lparr>so_objs := so_objs s @ [ps]\<rparr>)"

fun sstring :: "sval \<Rightarrow> string option" where
  "sstring (SStr s) = Some s"
| "sstring _ = None"

fun sobject :: "sval \<Rightarrow> bool" where
  "sobject (SObj _) = True"
| "sobject (SBuf _) = True"
| "sobject (SView _) = True"
| "sobject SFun = True"
| "sobject _ = False"

fun skey_text :: "js_key \<Rightarrow> string" where
  "skey_text (Named s) = s"
| "skey_text (Index n) = decimal n"

fun sjson :: "sval \<Rightarrow> 'n json" where
  "sjson (SStr s) = JString s"
| "sjson (SBool b) = JBool b"
| "sjson _ = JNull"

fun sunjson :: "'n json \<Rightarrow> sval" where
  "sunjson (JString s) = SStr s"
| "sunjson (JBool b) = SBool b"
| "sunjson _ = SNull"

definition sfrom_json :: "'n json \<Rightarrow> sworld \<Rightarrow> sval \<times> sworld" where
  "sfrom_json j s = (case j of JObject ps \<Rightarrow> snew (map (\<lambda>(k, x). (Named k, sunjson x)) ps) s | _ \<Rightarrow> (sunjson j, s))"

definition sto_json :: "sval \<Rightarrow> sworld \<Rightarrow> 'n json option" where
  "sto_json v s = (case v of
     SObj _ \<Rightarrow> Some (JObject (map (\<lambda>(k, x). (skey_text k, sjson x)) (sprops s v)))
   | SUndef \<Rightarrow> None | SFun \<Rightarrow> None | _ \<Rightarrow> Some (sjson v))"

fun sbuf :: "sval \<Rightarrow> nat" where
  "sbuf (SBuf i) = i"
| "sbuf (SView i) = i"
| "sbuf _ = 0"

definition sdata :: "sval \<Rightarrow> sworld \<Rightarrow> string option" where
  "sdata v s = (case v of SBuf i \<Rightarrow> if i < length (so_bufs s) then Some (so_bufs s ! i) else None | _ \<Rightarrow> None)"

definition slen :: "sval \<Rightarrow> sworld \<Rightarrow> nat" where
  "slen v s = length (nth_or [] (so_bufs s) (sbuf v))"

definition swrite :: "sval \<Rightarrow> string \<Rightarrow> sworld \<Rightarrow> sworld" where
  "swrite v d s = (case v of SBuf i \<Rightarrow> s\<lparr>so_bufs := (so_bufs s)[i := d]\<rparr> | _ \<Rightarrow> s)"

definition snew_view :: "string \<Rightarrow> sworld \<Rightarrow> sval \<times> sworld" where
  "snew_view d s = (SView (length (so_bufs s)), s\<lparr>so_bufs := so_bufs s @ [d]\<rparr>)"

fun sto_string :: "sval \<Rightarrow> string" where
  "sto_string (SStr s) = s"
| "sto_string _ = ''?''"

definition small_js :: "('w \<Rightarrow> sworld) \<Rightarrow> (sworld \<Rightarrow> 'w \<Rightarrow> 'w) \<Rightarrow> ('w, 'e, sval, 'n) js" where
  "small_js get put =
     (let new = (\<lambda>f w. case f (get w) of (v, s) \<Rightarrow> (v, put s w));
          newc = (\<lambda>f w. case f (get w) of (v, s) \<Rightarrow> (Inr v, put s w))
      in \<lparr>js_undefined = SUndef, js_null = SNull, js_string = SStr, js_bool = SBool, js_int = SInt,
      js_as_string = sstring, js_is_object = sobject, js_is_callable = (\<lambda>v. v = SFun),
      js_get = (\<lambda>v k w. (Inr (sget (get w) v k), w)),
      js_set = (\<lambda>v k x w. (Inr (), put (sset v k x (get w)) w)),
      js_keys = (\<lambda>v w. (Inr (map (\<lambda>(k, _). (skey_text k, k)) (sprops (get w) v)), w)),
      js_to_length = (\<lambda>v w. (Inr (case v of SInt i \<Rightarrow> nat i | _ \<Rightarrow> 0), w)),
      js_to_string = (\<lambda>v w. (Inr (sto_string v), w)),
      js_to_object = (\<lambda>v w. (if sobject v then Inr v else Inl (TypeExn ''not an object''), w)),
      js_to_json = (\<lambda>v w. (Inr (sto_json v (get w)), w)),
      js_from_json = (\<lambda>j. newc (sfrom_json j)),
      js_call = (\<lambda>f this args w. (Inr SUndef, w)),
      js_new_object = new (snew []),
      js_array = (\<lambda>vs. new (snew ((Named ''length'', SInt (int (length vs))) # zip (map Index [0..<length vs]) vs))),
      js_push = (\<lambda>a v w. let n = (case sget (get w) a (Named ''length'') of SInt i \<Rightarrow> nat i | _ \<Rightarrow> 0)
         in (Inr (), put (sset a (Named ''length'') (SInt (int (Suc n))) (sset a (Index n) v (get w))) w)),
      js_uint8_array = (\<lambda>d. newc (snew_view d)),
      js_is_typed_array = (\<lambda>v. case v of SView _ \<Rightarrow> True | _ \<Rightarrow> False),
      js_typed_buffer = (\<lambda>v w. (Inr (SBuf (sbuf v)), w)),
      js_typed_offset = (\<lambda>v w. (Inr 0, w)),
      js_typed_length = (\<lambda>v w. (Inr (slen v (get w)), w)),
      js_is_data_view = (\<lambda>_. False),
      js_view_buffer = (\<lambda>v w. (Inr (SBuf (sbuf v)), w)),
      js_view_offset = (\<lambda>v w. (Inr 0, w)),
      js_view_length = (\<lambda>v w. (Inr (slen v (get w)), w)),
      js_is_array_buffer = (\<lambda>v. case v of SBuf _ \<Rightarrow> True | _ \<Rightarrow> False),
      js_buffer_length = (\<lambda>v w. slen v (get w)),
      js_buffer_data = (\<lambda>v w. sdata v (get w)),
      js_buffer_write = (\<lambda>v d w. put (swrite v d (get w)) w)\<rparr>)"

text \<open>The engine whose state is the whole world.\<close>

definition plain_js :: "(sworld, unit, sval, nat) js" where
  "plain_js = small_js (\<lambda>s. s) (\<lambda>s _. s)"

lemmas plain_js_simps = plain_js_def small_js_def

lemma plain_js_ops:
  "js_undefined plain_js = SUndef" "js_null plain_js = SNull" "js_string plain_js = SStr" "js_bool plain_js = SBool"
  "js_as_string plain_js = sstring" "js_is_object plain_js = sobject"
  "js_get plain_js v k s = (Inr (sget s v k), s)" "js_set plain_js v k x s = (Inr (), sset v k x s)"
  "js_keys plain_js v s = (Inr (map (\<lambda>(k, _). (skey_text k, k)) (sprops s v)), s)"
  "js_to_length plain_js v s = (Inr (case v of SInt i \<Rightarrow> nat i | _ \<Rightarrow> 0), s)"
  "js_to_string plain_js v s = (Inr (sto_string v), s)"
  "js_to_object plain_js v s = (if sobject v then Inr v else Inl (TypeExn ''not an object''), s)"
  "js_to_json plain_js v s = (Inr (sto_json v s), s)"
  by (simp_all add: plain_js_simps Let_def)

end
