(* ===== verification/Buffer_Properties.thy ===== *)
theory Buffer_Properties
  imports Buffer_Like Small_Js
begin

text \<open>
  Correctness of the access to buffers: a read gives exactly the bytes of the view, and random bytes
  are written to the range of the view and nowhere else.
\<close>

section \<open>Reading\<close>

text \<open>
  Bytes are read from exactly the range of the view. What is extracted from a typed array,
  a data view or an array buffer are the bytes of its buffer between its offset and the end of its
  length, which lie within the buffer.
\<close>

theorem buffer_read_exact:
  assumes "try_extract_buffer_like_bytes js v w = (Inr (Some bytes), w')"
  shows "\<exists>buffer offset len data. buffer_range js v w = (Inr (Some (buffer, offset, len)), w')
    \<and> js_buffer_data js buffer w' = Some data \<and> offset + len \<le> length data
    \<and> bytes = take len (drop offset data)"
  using assms
proof (rule extract_Inr_Some)
  fix buffer offset len
  assume "buffer_range js v w = (Inr (Some (buffer, offset, len)), w')"
    and r: "read_bytes_from_array_buffer_range js buffer offset len w' = (Inr bytes, w')"
  with read_bytes_Inr [OF r] show ?thesis by blast
qed

theorem buffer_read_exact_witness:
  "\<exists>data. js_buffer_data plain_js (SBuf 0) \<lparr>so_objs = [], so_bufs = [''abc'']\<rparr> = Some data
    \<and> ''abc'' = take 3 (drop 0 data)"
proof -
  let ?w = "\<lparr>so_objs = [], so_bufs = [''abc'']\<rparr>"
  have r: "buffer_range plain_js (SView 0) ?w = (Inr (Some (SBuf 0, 0, 3)), ?w)"
    by (simp add: buffer_range_def typed_range_def js_simps js_bind_def plain_js_simps Let_def slen_def nth_or_def)
  then have "try_extract_buffer_like_bytes plain_js (SView 0) ?w = (Inr (Some ''abc''), ?w)"
    by (simp add: try_extract_buffer_like_bytes_def js_simps js_bind_def read_bytes_from_array_buffer_range_def
        checked_add_usize_def usize_max_def slice_def plain_js_simps Let_def sdata_def)
  from buffer_read_exact [OF this] r show ?thesis by auto
qed

section \<open>Writing\<close>

text \<open>
  What the write needs of the engine and of the random source: a write replaces the bytes of one
  buffer, and the source fills a slice without changing its length and without touching buffers.
\<close>

definition buffer_laws :: "('w, 'e, 'v, 'n) js \<Rightarrow> bool" where
  "buffer_laws js \<longleftrightarrow>
     (\<forall>b d d' w. js_buffer_data js b w = Some d \<and> length d' = length d \<longrightarrow>
        (\<forall>b'. js_buffer_data js b' (js_buffer_write js b d' w) = (if b' = b then Some d' else js_buffer_data js b' w)))"

definition random_laws :: "('w, 'e, 'v, 'n) js \<Rightarrow> 'w random_source \<Rightarrow> bool" where
  "random_laws js random \<longleftrightarrow>
     (\<forall>t w r f w'. random t w = (r, f, w') \<longrightarrow> length f = length t \<and> (\<forall>b. js_buffer_data js b w' = js_buffer_data js b w))"

text \<open>
  Property C34: random bytes fill the view and stay in it. A successful call leaves in the range of the
  view the bytes the random source gave for a slice of that length. In every case, also when the source
  fails, the length of the buffer, the bytes before and after the range and every other buffer stay as
  they are, and a range outside of the buffer is refused without any change.
\<close>

theorem random_fill_in_range:
  assumes "buffer_laws js" and "random_laws js random" and "js_is_object js v"
    and "buffer_range js v w = (Inr (Some (buffer, offset, len)), w1)"
    and "js_buffer_data js buffer w1 = Some data"
    and "fill_random_buffer_like js random v w = (r, w2)"
  shows "\<exists>data'. js_buffer_data js buffer w2 = Some data' \<and> length data' = length data
    \<and> take offset data' = take offset data \<and> drop (offset + len) data' = drop (offset + len) data
    \<and> (\<forall>b. b \<noteq> buffer \<longrightarrow> js_buffer_data js b w2 = js_buffer_data js b w1)
    \<and> (length data < offset + len \<longrightarrow> r \<noteq> Inr () \<and> data' = data)
    \<and> (r = Inr () \<longrightarrow> (\<exists>filled w3. random (take len (drop offset data)) w1 = (Inr (), filled, w3)
          \<and> take len (drop offset data') = filled))"
proof -
  have f: "fill_random_in_array_buffer_range js random buffer offset len w1 = (r, w2)"
    using assms(3,4,6) by (simp add: fill_random_buffer_like_def js_simps Let_def)
  show ?thesis
  proof (cases "offset + len \<le> usize_max \<and> offset + len \<le> length data")
    case False
    then have "w2 = w1 \<and> r \<noteq> Inr ()"
      using f assms(5)
      by (auto simp: fill_random_in_array_buffer_range_def checked_add_usize_def slice_def split: if_splits)
    then show ?thesis using assms(5) by auto
  next
    case True
    let ?t = "take len (drop offset data)"
    obtain e filled w3 where g: "random ?t w1 = (e, filled, w3)" by (cases "random ?t w1")
    let ?d = "take offset data @ filled @ drop (offset + len) data"
    have w2: "w2 = js_buffer_write js buffer ?d w3"
      using f assms(5) True g by (simp add: fill_random_in_array_buffer_range_def checked_add_usize_def slice_def)
    have fill: "length filled = len" "js_buffer_data js b w3 = js_buffer_data js b w1" for b
      using assms(2) g True unfolding random_laws_def by fastforce+
    then have "length ?d = length data" using True by simp
    then have "js_buffer_data js b w2 = (if b = buffer then Some ?d else js_buffer_data js b w1)" for b
      using assms(1) w2 fill(2) assms(5) unfolding buffer_laws_def by metis
    moreover have "r = Inr () \<longrightarrow> e = Inr ()"
      using f assms(5) True g
      by (cases e) (auto simp: fill_random_in_array_buffer_range_def checked_add_usize_def slice_def)
    ultimately show ?thesis using True fill(1) g by auto
  qed
qed

text \<open>A random source that writes the letter x.\<close>

definition xs_source :: "'w random_source" where
  "xs_source t w = (Inr (), map (\<lambda>_. CHR ''x'') t, w)"

lemma plain_buffer_laws: "buffer_laws plain_js" "random_laws plain_js xs_source"
  by (auto simp: buffer_laws_def random_laws_def xs_source_def plain_js_simps Let_def sdata_def swrite_def
      split: sval.splits if_splits)

theorem random_fill_in_range_witness:
  "\<exists>w2 data. fill_random_buffer_like plain_js xs_source (SView 0) \<lparr>so_objs = [], so_bufs = [''abc'']\<rparr> = (Inr (), w2)
    \<and> js_buffer_data plain_js (SBuf 0) w2 = Some data \<and> length data = 3"
proof -
  let ?w = "\<lparr>so_objs = [], so_bufs = [''abc'']\<rparr>"
  have r: "buffer_range plain_js (SView 0) ?w = (Inr (Some (SBuf 0, 0, 3)), ?w)"
    by (simp add: buffer_range_def typed_range_def js_simps js_bind_def plain_js_simps Let_def slen_def nth_or_def)
  have d: "js_is_object plain_js (SView 0)" "js_buffer_data plain_js (SBuf 0) ?w = Some ''abc''"
    by (simp_all add: plain_js_simps Let_def sdata_def)
  have f: "fill_random_buffer_like plain_js xs_source (SView 0) ?w =
      (Inr (), \<lparr>so_objs = [], so_bufs = [''xxx'']\<rparr>)"
    using r d by (simp add: fill_random_buffer_like_def Let_def js_simps fill_random_in_array_buffer_range_def
        checked_add_usize_def usize_max_def slice_def xs_source_def) (simp add: plain_js_simps swrite_def Let_def)
  from random_fill_in_range [OF plain_buffer_laws d(1) r d(2) f] f show ?thesis by auto
qed

end
