(* ===== verification/Codec_Builtins.thy ===== *)
theory Codec_Builtins
  imports Buffer_Like "HOL-Library.List_Lexorder" "HOL-Library.Char_ord"
begin

text \<open>
  The codec modules of \<^verbatim>\<open>src/internal/runtime/builtins/\<close>: \<^verbatim>\<open>base64.rs\<close>, \<^verbatim>\<open>base32.rs\<close>, \<^verbatim>\<open>hex.rs\<close>,
  \<^verbatim>\<open>form_urlencoded.rs\<close>, \<^verbatim>\<open>html.rs\<close> and \<^verbatim>\<open>uuid.rs\<close>. The codecs themselves belong to the crates
  \<^verbatim>\<open>data_encoding\<close>, \<^verbatim>\<open>hex\<close>, \<^verbatim>\<open>url\<close>, \<^verbatim>\<open>htmlize\<close> and \<^verbatim>\<open>uuid\<close> and are parameters.
\<close>

section \<open>Encodings\<close>

record encoding =
  enc_encode :: "string \<Rightarrow> string"
  enc_decode :: "string \<Rightarrow> (string, string) result"

record encodings =
  BASE64 :: encoding
  BASE64_NOPAD :: encoding
  BASE64URL :: encoding
  BASE64URL_NOPAD :: encoding
  BASE32 :: encoding
  BASE32_NOPAD :: encoding
  BASE32HEX :: encoding
  BASE32HEX_NOPAD :: encoding
  HEX_ENC :: encoding

definition or_else :: "('e, 'a) result \<Rightarrow> ('e, 'a) result \<Rightarrow> ('e, 'a) result" where
  "or_else r s = (case r of Inr x \<Rightarrow> Inr x | Inl _ \<Rightarrow> s)"

definition from_rust :: "(string, 'a) result \<Rightarrow> ('e js_exception, 'a) result" where
  "from_rust r = map_err (\<lambda>m. RustExn (into_io_error m)) r"

definition to_ascii_uppercase_byte :: "char \<Rightarrow> char" where
  "to_ascii_uppercase_byte c = (if in_range 97 122 c then char_of (byte_val c - 32) else c)"

definition to_ascii_uppercase :: "string \<Rightarrow> string" where
  "to_ascii_uppercase s = map to_ascii_uppercase_byte s"

text \<open>Single quotes around a word of a message.\<close>

definition quoted :: "string \<Rightarrow> string" where
  "quoted s = CHR 0x27 # s @ [CHR 0x27]"

section \<open>Base64\<close>

definition parse_base64_variant ::
  "('w, 'e, 'v, 'n) js \<Rightarrow> 'v list \<Rightarrow> nat \<Rightarrow> string \<Rightarrow> ('e js_exception, string) result"
where
  "parse_base64_variant js args index deflt =
     (let v = arg js args index
      in if v = js_undefined js then Inr deflt
         else case js_as_string js v of
                None \<Rightarrow> Inl (js_type_error ''variant must be a string'')
              | Some s \<Rightarrow>
                  if s = ''base64'' then Inr ''base64''
                  else if s = ''base64url'' then Inr ''base64url''
                  else Inl (js_type_error (''variant must be '' @ quoted ''base64'' @ '' or '' @ quoted ''base64url'')))"

definition base64_encode :: "('w, 'e, 'v, 'n) js \<Rightarrow> encodings \<Rightarrow> 'v list \<Rightarrow> ('w, 'e, 'v) jsc" where
  "base64_encode js en args =
     js_bind (required_buffer_like_arg js args 0 ''bufferLike'') (\<lambda>bytes.
     js_bind (js_of (parse_base64_variant js args 1 ''base64'')) (\<lambda>variant.
     js_bind (if variant = ''base64'' then js_ok (enc_encode (BASE64 en) bytes)
              else if variant = ''base64url'' then js_ok (enc_encode (BASE64URL_NOPAD en) bytes)
              else js_throw (js_type_error ''invalid base64 variant'')) (\<lambda>encoded.
     js_ok (js_string_value js encoded))))"

definition base64_decode :: "('w, 'e, 'v, 'n) js \<Rightarrow> encodings \<Rightarrow> 'v list \<Rightarrow> ('w, 'e, 'v) jsc" where
  "base64_decode js en args =
     js_bind (js_of (required_string_arg js args 0 ''encoded'')) (\<lambda>encoded.
     js_bind (js_of (parse_base64_variant js args 1 ''base64'')) (\<lambda>variant.
     js_bind (if variant = ''base64''
              then js_of (from_rust (or_else (enc_decode (BASE64 en) encoded) (enc_decode (BASE64_NOPAD en) encoded)))
              else if variant = ''base64url''
              then js_of (from_rust (or_else (enc_decode (BASE64URL en) encoded) (enc_decode (BASE64URL_NOPAD en) encoded)))
              else js_throw (js_type_error ''invalid base64 variant'')) (\<lambda>decoded.
     bytes_to_uint8_array_value js decoded)))"

section \<open>Base32\<close>

definition parse_base32_variant ::
  "('w, 'e, 'v, 'n) js \<Rightarrow> 'v list \<Rightarrow> nat \<Rightarrow> string \<Rightarrow> ('e js_exception, string) result"
where
  "parse_base32_variant js args index deflt =
     (let v = arg js args index
      in if v = js_undefined js then Inr deflt
         else case js_as_string js v of
                None \<Rightarrow> Inl (js_type_error ''variant must be a string'')
              | Some s \<Rightarrow>
                  if s = ''base32'' then Inr ''base32''
                  else if s = ''base32hex'' then Inr ''base32hex''
                  else Inl (js_type_error (''variant must be '' @ quoted ''base32'' @ '' or '' @ quoted ''base32hex'')))"

definition base32_encode :: "('w, 'e, 'v, 'n) js \<Rightarrow> encodings \<Rightarrow> 'v list \<Rightarrow> ('w, 'e, 'v) jsc" where
  "base32_encode js en args =
     js_bind (required_buffer_like_arg js args 0 ''bufferLike'') (\<lambda>bytes.
     js_bind (js_of (parse_base32_variant js args 1 ''base32'')) (\<lambda>variant.
     js_bind (if variant = ''base32'' then js_ok (enc_encode (BASE32 en) bytes)
              else if variant = ''base32hex'' then js_ok (enc_encode (BASE32HEX en) bytes)
              else js_throw (js_type_error ''invalid base32 variant'')) (\<lambda>encoded.
     js_ok (js_string_value js encoded))))"

definition base32_decode :: "('w, 'e, 'v, 'n) js \<Rightarrow> encodings \<Rightarrow> 'v list \<Rightarrow> ('w, 'e, 'v) jsc" where
  "base32_decode js en args =
     js_bind (js_of (required_string_arg js args 0 ''encoded'')) (\<lambda>encoded.
     let encoded_upper = to_ascii_uppercase encoded in
     js_bind (js_of (parse_base32_variant js args 1 ''base32'')) (\<lambda>variant.
     js_bind (if variant = ''base32''
              then js_of (from_rust (or_else (enc_decode (BASE32 en) encoded_upper) (enc_decode (BASE32_NOPAD en) encoded_upper)))
              else if variant = ''base32hex''
              then js_of (from_rust (or_else (enc_decode (BASE32HEX en) encoded_upper) (enc_decode (BASE32HEX_NOPAD en) encoded_upper)))
              else js_throw (js_type_error ''invalid base32 variant'')) (\<lambda>decoded.
     bytes_to_uint8_array_value js decoded)))"

section \<open>Hexadecimal\<close>

definition hex_encode :: "('w, 'e, 'v, 'n) js \<Rightarrow> encodings \<Rightarrow> 'v list \<Rightarrow> ('w, 'e, 'v) jsc" where
  "hex_encode js en args =
     js_bind (required_buffer_like_arg js args 0 ''bufferLike'') (\<lambda>bytes.
     js_ok (js_string_value js (enc_encode (HEX_ENC en) bytes)))"

definition hex_decode :: "('w, 'e, 'v, 'n) js \<Rightarrow> encodings \<Rightarrow> 'v list \<Rightarrow> ('w, 'e, 'v) jsc" where
  "hex_decode js en args =
     js_bind (js_of (required_string_arg js args 0 ''encoded'')) (\<lambda>encoded.
     js_bind (js_of (from_rust (enc_decode (HEX_ENC en) encoded))) (\<lambda>decoded.
     bytes_to_uint8_array_value js decoded))"

section \<open>HTML\<close>

record html_lib =
  hl_escape_text :: "string \<Rightarrow> string"
  hl_escape_all_quotes :: "string \<Rightarrow> string"
  hl_unescape :: "string \<Rightarrow> string"
  hl_unescape_attribute :: "string \<Rightarrow> string"

definition escape_text :: "('w, 'e, 'v, 'n) js \<Rightarrow> html_lib \<Rightarrow> 'v list \<Rightarrow> ('w, 'e, 'v) jsc" where
  "escape_text js hl args =
     js_bind (js_of (required_string_arg js args 0 ''text'')) (\<lambda>text. js_ok (js_string_value js (hl_escape_text hl text)))"

definition escape_attribute :: "('w, 'e, 'v, 'n) js \<Rightarrow> html_lib \<Rightarrow> 'v list \<Rightarrow> ('w, 'e, 'v) jsc" where
  "escape_attribute js hl args =
     js_bind (js_of (required_string_arg js args 0 ''text'')) (\<lambda>text. js_ok (js_string_value js (hl_escape_all_quotes hl text)))"

definition unescape_text :: "('w, 'e, 'v, 'n) js \<Rightarrow> html_lib \<Rightarrow> 'v list \<Rightarrow> ('w, 'e, 'v) jsc" where
  "unescape_text js hl args =
     js_bind (js_of (required_string_arg js args 0 ''text'')) (\<lambda>text. js_ok (js_string_value js (hl_unescape hl text)))"

definition unescape_attribute :: "('w, 'e, 'v, 'n) js \<Rightarrow> html_lib \<Rightarrow> 'v list \<Rightarrow> ('w, 'e, 'v) jsc" where
  "unescape_attribute js hl args =
     js_bind (js_of (required_string_arg js args 0 ''text'')) (\<lambda>text. js_ok (js_string_value js (hl_unescape_attribute hl text)))"

section \<open>Forms\<close>

type_synonym pairs = "(string \<times> string) list"

record form_lib =
  fl_serialize :: "pairs \<Rightarrow> string"
  fl_parse :: "string \<Rightarrow> pairs"

definition strip_question :: "string \<Rightarrow> string" where
  "strip_question s = (case s of c # cs \<Rightarrow> if c = CHR ''?'' then cs else s | [] \<Rightarrow> [])"

text \<open>A \<^verbatim>\<open>BTreeMap\<close> is the list of its entries in the order of the keys.\<close>

fun btree_insert :: "'k::linorder \<Rightarrow> 'v \<Rightarrow> ('k \<times> 'v) list \<Rightarrow> ('k \<times> 'v) list" where
  "btree_insert k v [] = [(k, v)]"
| "btree_insert k v ((k', v') # m) =
     (if k < k' then (k, v) # (k', v') # m
      else if k = k' then (k, v) # m
      else (k', v') # btree_insert k v m)"

definition btree_of :: "('k::linorder \<times> 'v) list \<Rightarrow> ('k \<times> 'v) list" where
  "btree_of ps = fold (\<lambda>(k, v). btree_insert k v) ps []"

text \<open>
  The entries of a JSON object whose values are all strings. \<open>serde_error\<close> is the message of
  \<^verbatim>\<open>serde_json\<close> for a value of another type.
\<close>

fun string_entries :: "('n json \<Rightarrow> string) \<Rightarrow> (string \<times> 'n json) list \<Rightarrow> (string, pairs) result" where
  "string_entries serde_error [] = Inr []"
| "string_entries serde_error ((k, JString v) # ps) =
     bind_ok (string_entries serde_error ps) (\<lambda>es. Inr ((k, v) # es))"
| "string_entries serde_error ((k, v) # ps) = Inl (serde_error v)"

definition parse_form_record_arg ::
  "('w, 'e, 'v, 'n) js \<Rightarrow> ('n json \<Rightarrow> string) \<Rightarrow> 'v list \<Rightarrow> ('w, 'e, pairs) jsc"
where
  "parse_form_record_arg js serde_error args =
     js_bind (js_to_json js (arg js args 0)) (\<lambda>json.
     case json of
       Some (JObject ps) \<Rightarrow> js_bind (js_of (from_rust (string_entries serde_error ps))) (\<lambda>es. js_ok (btree_of es))
     | _ \<Rightarrow> js_throw (js_type_error ''record must be an object''))"

definition form_urlencode_encode ::
  "('w, 'e, 'v, 'n) js \<Rightarrow> form_lib \<Rightarrow> ('n json \<Rightarrow> string) \<Rightarrow> 'v list \<Rightarrow> ('w, 'e, 'v) jsc"
where
  "form_urlencode_encode js fl serde_error args =
     js_bind (parse_form_record_arg js serde_error args) (\<lambda>record.
     js_ok (js_string_value js (fl_serialize fl record)))"

definition form_urlencode_decode :: "('w, 'e, 'v, 'n) js \<Rightarrow> form_lib \<Rightarrow> 'v list \<Rightarrow> ('w, 'e, 'v) jsc" where
  "form_urlencode_decode js fl args =
     js_bind (js_of (ok_or (js_type_error ''params must be a string'') (js_as_string js (arg js args 0)))) (\<lambda>params.
     let record = btree_of (fl_parse fl (strip_question params))
     in js_from_json js (JObject (map (\<lambda>(k, v). (k, JString v)) record)))"

section \<open>UUID\<close>

record ('w, 'u) uuid_lib =
  uu_parse_str :: "string \<Rightarrow> (string, 'u) result"
  uu_new_v3 :: "'u \<Rightarrow> string \<Rightarrow> 'u"
  uu_new_v4 :: "'w \<Rightarrow> 'u \<times> 'w"
  uu_new_v5 :: "'u \<Rightarrow> string \<Rightarrow> 'u"
  uu_now_v6 :: "string \<Rightarrow> 'w \<Rightarrow> 'u \<times> 'w"
  uu_now_v7 :: "'w \<Rightarrow> 'u \<times> 'w"
  uu_nil :: 'u
  uu_max :: 'u
  uu_hyphenated :: "'u \<Rightarrow> string"

definition uuid_variants :: "string list" where
  "uuid_variants = [''v3'', ''v4'', ''v5'', ''v6'', ''v7'', ''nil'', ''max'']"

definition parse_uuid_variant :: "('w, 'e, 'v, 'n) js \<Rightarrow> 'v list \<Rightarrow> nat \<Rightarrow> ('e js_exception, string) result" where
  "parse_uuid_variant js args index =
     (let v = arg js args index
      in if v = js_undefined js then Inr ''v4''
         else case js_as_string js v of
                None \<Rightarrow> Inl (js_type_error ''variant must be a string'')
              | Some s \<Rightarrow>
                  if s \<in> set uuid_variants then Inr s
                  else Inl (js_type_error (''variant must be one of '' @ join_with '', '' (map quoted uuid_variants))))"

definition parse_uuid_v3_v5_options ::
  "('w, 'e, 'v, 'n) js \<Rightarrow> ('w, 'u) uuid_lib \<Rightarrow> 'v list \<Rightarrow> ('w, 'e, 'u \<times> string) jsc"
where
  "parse_uuid_v3_v5_options js uu args =
     (let options = arg js args 1
      in if \<not> js_is_object js options
         then js_throw (js_type_error ''options must be an object with `namespace` and `name` for v3/v5'')
         else
     js_bind (js_get js options (Named ''namespace'')) (\<lambda>ns.
     js_bind (js_of (ok_or (js_type_error ''options.namespace must be a UUID string'') (js_as_string js ns))) (\<lambda>text.
     js_bind (js_of (from_rust (uu_parse_str uu text))) (\<lambda>namespace.
     js_bind (js_get js options (Named ''name'')) (\<lambda>nm.
     js_bind (js_of (ok_or (js_type_error ''options.name must be a string'') (js_as_string js nm))) (\<lambda>name.
     js_ok (namespace, name)))))))"

text \<open>A part of the world that a library reads or changes without errors.\<close>

definition js_world :: "('w \<Rightarrow> 'a \<times> 'w) \<Rightarrow> ('w, 'e, 'a) jsc" where
  "js_world f w = (case f w of (a, w') \<Rightarrow> (Inr a, w'))"

definition node_id :: "'w random_source \<Rightarrow> ('w, 'e, string) jsc" where
  "node_id random w =
     (case random (replicate 6 (CHR 0x00)) w of (r, filled, w1) \<Rightarrow>
        (bind_ok (from_rust r) (\<lambda>_. Inr filled), w1))"

definition uuid_generate ::
  "('w, 'e, 'v, 'n) js \<Rightarrow> ('w, 'u) uuid_lib \<Rightarrow> 'w random_source \<Rightarrow> 'v list \<Rightarrow> ('w, 'e, 'v) jsc"
where
  "uuid_generate js uu random args =
     js_bind (js_of (parse_uuid_variant js args 0)) (\<lambda>variant.
     js_bind
       (if variant = ''v3'' then
          js_bind (parse_uuid_v3_v5_options js uu args) (\<lambda>(namespace, name). js_ok (uu_new_v3 uu namespace name))
        else if variant = ''v4'' then js_world (uu_new_v4 uu)
        else if variant = ''v5'' then
          js_bind (parse_uuid_v3_v5_options js uu args) (\<lambda>(namespace, name). js_ok (uu_new_v5 uu namespace name))
        else if variant = ''v6'' then js_bind (node_id random) (\<lambda>id. js_world (uu_now_v6 uu id))
        else if variant = ''v7'' then js_world (uu_now_v7 uu)
        else if variant = ''nil'' then js_ok (uu_nil uu)
        else if variant = ''max'' then js_ok (uu_max uu)
        else js_throw (js_type_error ''invalid UUID variant'')) (\<lambda>u.
     js_ok (js_string_value js (uu_hyphenated uu u))))"

section \<open>Console\<close>

definition console_noop :: "('w, 'e, 'v, 'n) js \<Rightarrow> 'v list \<Rightarrow> ('w, 'e, 'v) jsc" where
  "console_noop js args = js_ok (js_undefined js)"

end
