(* ===== verification/Codec_Properties.thy ===== *)
theory Codec_Properties
  imports Codec_Builtins Small_Js Mime_Codec_Properties
begin

text \<open>
  Round trips of the codec modules as a script sees them: decoding what a module encoded from a buffer
  gives the bytes of the buffer. The contract of a codec module is the locale \<open>codec_module\<close>, which the
  variants of Base64, Base32 and hexadecimal interpret.
\<close>

section \<open>Assumptions on engine and codecs\<close>

text \<open>A string made for the engine is read back, and is not undefined.\<close>

definition js_strings_ok :: "('w, 'e, 'v, 'n) js \<Rightarrow> bool" where
  "js_strings_ok js \<longleftrightarrow> (\<forall>s. js_as_string js (js_string js s) = Some s \<and> js_string js s \<noteq> js_undefined js)"


section \<open>The contract of a codec module\<close>








section \<open>The modules fulfil it\<close>








section \<open>Forms\<close>

lemma btree_insert_keys: "fst ` set (btree_insert k v m) = insert k (fst ` set m)"
  by (induction k v m rule: btree_insert.induct) auto

lemma btree_insert_sorted: "sorted_wrt (<) (map fst m) \<Longrightarrow> sorted_wrt (<) (map fst (btree_insert k v m))"
proof (induction k v m rule: btree_insert.induct)
  case (2 k v k' v' m)
  have "set (map fst (btree_insert k v m)) = insert k (fst ` set m)" using btree_insert_keys [of k v m] by simp
  with 2 show ?case by auto
qed simp

lemma btree_insert_map_of:
  "sorted_wrt (<) (map fst m) \<Longrightarrow> map_of (btree_insert k v m) = (map_of m)(k \<mapsto> v)"
  by (induction k v m rule: btree_insert.induct) (auto simp: fun_eq_iff)

lemma btree_fold:
  "sorted_wrt (<) (map fst m) \<Longrightarrow> sorted_wrt (<) (map fst (fold (\<lambda>(k, v). btree_insert k v) ps m))
    \<and> map_of (fold (\<lambda>(k, v). btree_insert k v) ps m) = map_of m ++ map_of (rev ps)"
proof (induction ps arbitrary: m)
  case (Cons p ps)
  then show ?case
    using Cons.IH [of "btree_insert (fst p) (snd p) m"]
    by (cases p) (simp add: btree_insert_sorted btree_insert_map_of map_add_upd_left [symmetric] fun_eq_iff map_add_def split: option.split)
qed simp

lemma btree_of_sorted: "sorted_wrt (<) (map fst (btree_of ps))" "map_of (btree_of ps) = map_of (rev ps)"
  using btree_fold [of "[]" ps] by (simp_all add: btree_of_def)

lemma btree_insert_last: "list_all (\<lambda>p. fst p < k) m \<Longrightarrow> btree_insert k v m = m @ [(k, v)]"
  by (induction k v m rule: btree_insert.induct) auto

lemma btree_of_id: "sorted_wrt (<) (map fst ps) \<Longrightarrow> btree_of ps = ps"
proof (induction ps rule: rev_induct)
  case (snoc p ps)
  then have "btree_of ps = ps" "list_all (\<lambda>q. fst q < fst p) ps"
    by (auto simp: sorted_wrt_append list_all_iff)
  then show ?case by (cases p) (simp add: btree_of_def btree_insert_last)
qed (simp add: btree_of_def)

text \<open>Parsing inverts serialization, and a serialized form does not start with a question mark.\<close>

definition form_laws :: "form_lib \<Rightarrow> bool" where
  "form_laws fl \<longleftrightarrow> (\<forall>ps. fl_parse fl (fl_serialize fl ps) = ps \<and> strip_question (fl_serialize fl ps) = fl_serialize fl ps)"

text \<open>
  Form encoding round trip. A record of strings is encoded with its entries in the order
  of their names, and decoding the text gives an object with the same entries: under every name the
  last value given for it.
\<close>

theorem form_roundtrip:
  assumes "form_laws fl" and "js_strings_ok js"
    and "js_to_json js v w = (Inr (Some (JObject ps)), w')" and "string_entries err ps = Inr es"
  shows "\<exists>s record. form_urlencode_encode js fl err [v] w = (Inr s, w')
    \<and> form_urlencode_decode js fl [s] = js_from_json js (JObject (map (\<lambda>(k, v). (k, JString v)) record))
    \<and> sorted_wrt (<) (map fst record) \<and> map_of record = map_of (rev es)"
proof (intro exI conjI)
  show "form_urlencode_encode js fl err [v] w = (Inr (js_string js (fl_serialize fl (btree_of es))), w')"
    using assms by (simp add: form_urlencode_encode_def parse_form_record_arg_def arg_def js_simps from_rust_def js_string_value_def)
  show "form_urlencode_decode js fl [js_string js (fl_serialize fl (btree_of es))] =
      js_from_json js (JObject (map (\<lambda>(k, v). (k, JString v)) (btree_of es)))"
    using assms(1,2) by (simp add: form_urlencode_decode_def arg_def js_simps js_strings_ok_def form_laws_def
        btree_of_id btree_of_sorted fun_eq_iff)
qed (rule btree_of_sorted)+

section \<open>Witnesses\<close>





lemma plain_strings_ok: "js_strings_ok plain_js"
  by (simp add: js_strings_ok_def plain_js_simps Let_def)


fun marked :: "string \<Rightarrow> string" where
  "marked [] = ''.''"
| "marked (c # s) = CHR '':'' # c # marked s"

fun unmarked :: "string \<Rightarrow> string list" where
  "unmarked (m # c # r) =
     (if m = CHR '':'' then (case unmarked r of s # ss \<Rightarrow> (c # s) # ss | [] \<Rightarrow> []) else [] # unmarked (c # r))"
| "unmarked [m] = [[]]"
| "unmarked [] = []"

fun pair_up :: "'a list \<Rightarrow> ('a \<times> 'a) list" where
  "pair_up (a # b # r) = (a, b) # pair_up r"
| "pair_up _ = []"

definition marked_form :: form_lib where
  "marked_form = \<lparr>fl_serialize = (\<lambda>ps. concat (map (\<lambda>(k, v). marked k @ marked v) ps)),
     fl_parse = (\<lambda>s. pair_up (unmarked s))\<rparr>"

lemma unmarked_dot: "unmarked (CHR ''.'' # r) = [] # unmarked r"
  by (cases r) auto

lemma unmarked_marked: "unmarked (marked s @ r) = s # unmarked r"
  by (induction s) (auto simp: unmarked_dot)

lemma marked_form_laws: "form_laws marked_form"
proof -
  have "pair_up (unmarked (concat (map (\<lambda>(k, v). marked k @ marked v) ps))) = ps" for ps
    by (induction ps) (auto simp: unmarked_marked)
  moreover have "strip_question (concat (map (\<lambda>(k, v). marked k @ marked v) ps)) =
      concat (map (\<lambda>(k, v). marked k @ marked v) ps)" for ps
    by (cases ps; cases "fst (hd ps)") (auto simp: strip_question_def split: list.split)
  ultimately show ?thesis by (simp add: form_laws_def marked_form_def)
qed

theorem form_roundtrip_witness:
  "\<exists>s record. form_urlencode_encode plain_js marked_form (\<lambda>_. ''type'') [SObj 0]
      \<lparr>so_objs = [[(Named ''b'', SStr ''1''), (Named ''a'', SStr ''2'')]], so_bufs = []\<rparr> =
        (Inr s, \<lparr>so_objs = [[(Named ''b'', SStr ''1''), (Named ''a'', SStr ''2'')]], so_bufs = []\<rparr>)
    \<and> form_urlencode_decode plain_js marked_form [s] = js_from_json plain_js (JObject (map (\<lambda>(k, v). (k, JString v)) record))
    \<and> sorted_wrt (<) (map fst record) \<and> map_of record = map_of [(''a'', ''2''), (''b'', ''1'')]"
proof -
  let ?w = "\<lparr>so_objs = [[(Named ''b'', SStr ''1''), (Named ''a'', SStr ''2'')]], so_bufs = []\<rparr>"
  have "js_to_json plain_js (SObj 0) ?w = (Inr (Some (JObject [(''b'', JString ''1''), (''a'', JString ''2'')])), ?w)"
    by (simp add: plain_js_simps Let_def sto_json_def nth_or_def)
  moreover have "string_entries (\<lambda>_. ''type'') [(''b'', JString ''1''), (''a'', JString ''2'')] =
      Inr [(''b'', ''1''), (''a'', ''2'')]" by simp
  ultimately show ?thesis using form_roundtrip [OF marked_form_laws plain_strings_ok] by fastforce
qed

end
