(* ===== verification/Url_Builtin.thy ===== *)
theory Url_Builtin
  imports Codec_Builtins
begin

text \<open>
  The classes URL and URLSearchParams, \<^verbatim>\<open>src/internal/runtime/builtins/url.rs\<close>. The parser and the
  setters of URLs belong to the crate \<^verbatim>\<open>url\<close> and are the parameter \<open>url_lib\<close>; the URL record \<open>'u\<close> is
  abstract. The shared cells \<^verbatim>\<open>Rc<RefCell<..>>\<close> are the positions of two lists in the world, so that
  objects which share a cell see each other's changes.
\<close>

section \<open>State\<close>

datatype ParamsBacking = Owned nat | UrlBacked nat

datatype native_data = MechanicsUrl nat | MechanicsUrlSearchParams ParamsBacking

record ('w, 'u) url_world =
  uw_host :: 'w
  uw_urls :: "'u list"
  uw_params :: "pairs list"

text \<open>
  What the engine knows of native objects: the data behind a value, and the creation of an object with
  given data.
\<close>

record ('w, 'e, 'v) class_ops =
  co_data :: "'v \<Rightarrow> 'w \<Rightarrow> native_data option"
  co_from_data :: "native_data \<Rightarrow> ('w, 'e, 'v) jsc"

text \<open>The crate \<^verbatim>\<open>url\<close>. A setter that reports failure also says what it leaves.\<close>

record 'u url_lib = form_lib +
  ul_parse :: "string \<Rightarrow> 'u option"
  ul_join :: "'u \<Rightarrow> string \<Rightarrow> 'u option"
  ul_query_pairs :: "'u \<Rightarrow> pairs"
  ul_set_query :: "string option \<Rightarrow> 'u \<Rightarrow> 'u"
  qk_href :: "'u \<Rightarrow> string"
  qk_set_href :: "string \<Rightarrow> 'u \<Rightarrow> bool \<times> 'u"
  qk_origin :: "'u \<Rightarrow> string"
  qk_protocol :: "'u \<Rightarrow> string"
  qk_set_protocol :: "string \<Rightarrow> 'u \<Rightarrow> bool \<times> 'u"
  qk_username :: "'u \<Rightarrow> string"
  qk_set_username :: "string \<Rightarrow> 'u \<Rightarrow> bool \<times> 'u"
  qk_password :: "'u \<Rightarrow> string"
  qk_set_password :: "string \<Rightarrow> 'u \<Rightarrow> bool \<times> 'u"
  qk_host :: "'u \<Rightarrow> string"
  qk_set_host :: "string \<Rightarrow> 'u \<Rightarrow> bool \<times> 'u"
  qk_hostname :: "'u \<Rightarrow> string"
  qk_set_hostname :: "string \<Rightarrow> 'u \<Rightarrow> bool \<times> 'u"
  qk_port :: "'u \<Rightarrow> string"
  qk_set_port :: "string \<Rightarrow> 'u \<Rightarrow> bool \<times> 'u"
  qk_pathname :: "'u \<Rightarrow> string"
  qk_set_pathname :: "string \<Rightarrow> 'u \<Rightarrow> 'u"
  qk_search :: "'u \<Rightarrow> string"
  qk_set_search :: "string \<Rightarrow> 'u \<Rightarrow> 'u"
  qk_hash :: "'u \<Rightarrow> string"
  qk_set_hash :: "string \<Rightarrow> 'u \<Rightarrow> 'u"

type_synonym ('w, 'u, 'e, 'a) ujsc = "(('w, 'u) url_world, 'e, 'a) jsc"
type_synonym ('w, 'u, 'e, 'v, 'n) ujs = "(('w, 'u) url_world, 'e, 'v, 'n) js"
type_synonym ('w, 'u, 'e, 'v) uco = "(('w, 'u) url_world, 'e, 'v) class_ops"

definition url_at :: "nat \<Rightarrow> ('w, 'u) url_world \<Rightarrow> 'u" where
  "url_at i w = uw_urls w ! i"

definition set_url :: "nat \<Rightarrow> 'u \<Rightarrow> ('w, 'u) url_world \<Rightarrow> ('w, 'u) url_world" where
  "set_url i u w = w\<lparr>uw_urls := (uw_urls w)[i := u]\<rparr>"

definition new_url :: "'u \<Rightarrow> ('w, 'u, 'e, nat) ujsc" where
  "new_url u w = (Inr (length (uw_urls w)), w\<lparr>uw_urls := uw_urls w @ [u]\<rparr>)"

definition new_params :: "pairs \<Rightarrow> ('w, 'u, 'e, nat) ujsc" where
  "new_params ps w = (Inr (length (uw_params w)), w\<lparr>uw_params := uw_params w @ [ps]\<rparr>)"

section \<open>Arguments\<close>

definition required_js_string :: "('w, 'e, 'v, 'n) js \<Rightarrow> 'v list \<Rightarrow> nat \<Rightarrow> string \<Rightarrow> ('e js_exception, string) result" where
  "required_js_string js args index name =
     ok_or (js_type_error (name @ '' must be a string'')) (js_as_string js (arg js args index))"

definition optional_js_string ::
  "('w, 'e, 'v, 'n) js \<Rightarrow> 'v list \<Rightarrow> nat \<Rightarrow> string \<Rightarrow> ('e js_exception, string option) result"
where
  "optional_js_string js args index name =
     (let v = arg js args index
      in if v = js_undefined js then Inr None
         else bind_ok (ok_or (js_type_error (name @ '' must be a string when provided'')) (js_as_string js v)) (\<lambda>s. Inr (Some s)))"

definition parse_url :: "'u url_lib \<Rightarrow> string \<Rightarrow> string option \<Rightarrow> 'u option" where
  "parse_url ul input base =
     (case base of
        Some b \<Rightarrow> Option.bind (ul_parse ul b) (\<lambda>base_url. ul_join ul base_url input)
      | None \<Rightarrow> ul_parse ul input)"

definition this_url :: "('w, 'u, 'e, 'v, 'n) ujs \<Rightarrow> ('w, 'u, 'e, 'v) uco \<Rightarrow> 'v \<Rightarrow> ('w, 'u, 'e, nat) ujsc" where
  "this_url js co this w =
     (if \<not> js_is_object js this then Inl (js_type_error ''invalid this for URL'')
      else case co_data co this w of
             Some (MechanicsUrl i) \<Rightarrow> Inr i
           | _ \<Rightarrow> Inl (js_type_error ''invalid this for URL''), w)"

definition this_params :: "('w, 'u, 'e, 'v, 'n) ujs \<Rightarrow> ('w, 'u, 'e, 'v) uco \<Rightarrow> 'v \<Rightarrow> ('w, 'u, 'e, ParamsBacking) ujsc" where
  "this_params js co this w =
     (if \<not> js_is_object js this then Inl (js_type_error ''invalid this for URLSearchParams'')
      else case co_data co this w of
             Some (MechanicsUrlSearchParams b) \<Rightarrow> Inr b
           | _ \<Rightarrow> Inl (js_type_error ''invalid this for URLSearchParams''), w)"

section \<open>Pairs of a query\<close>

definition encode_pairs :: "'u url_lib \<Rightarrow> pairs \<Rightarrow> string" where
  "encode_pairs ul pairs = fl_serialize ul pairs"

definition write_query_pairs :: "'u url_lib \<Rightarrow> 'u \<Rightarrow> pairs \<Rightarrow> 'u" where
  "write_query_pairs ul url pairs =
     (if pairs = [] then ul_set_query ul None url else ul_set_query ul (Some (encode_pairs ul pairs)) url)"

text \<open>An update of the pairs behind an object. The updates of the source return nothing.\<close>

definition with_pairs ::
  "'u url_lib \<Rightarrow> ParamsBacking \<Rightarrow> (pairs \<Rightarrow> pairs) \<Rightarrow> ('w, 'u) url_world \<Rightarrow> ('w, 'u) url_world"
where
  "with_pairs ul backing f w =
     (case backing of
        Owned i \<Rightarrow> w\<lparr>uw_params := (uw_params w)[i := f (uw_params w ! i)]\<rparr>
      | UrlBacked i \<Rightarrow>
          (let url = url_at i w; pairs = f (ul_query_pairs ul url)
           in set_url i (write_query_pairs ul url pairs) w))"

definition snapshot_pairs :: "'u url_lib \<Rightarrow> ParamsBacking \<Rightarrow> ('w, 'u) url_world \<Rightarrow> pairs" where
  "snapshot_pairs ul backing w =
     (case backing of
        Owned i \<Rightarrow> uw_params w ! i
      | UrlBacked i \<Rightarrow> ul_query_pairs ul (url_at i w))"

definition parse_params_string :: "'u url_lib \<Rightarrow> string \<Rightarrow> pairs" where
  "parse_params_string ul input = fl_parse ul (strip_question input)"

section \<open>Initial pairs of URLSearchParams\<close>

definition is_array_like :: "('w, 'e, 'v, 'n) js \<Rightarrow> 'v \<Rightarrow> ('w, 'e, bool) jsc" where
  "is_array_like js object = js_bind (js_get js object (Named ''length'')) (\<lambda>l. js_ok (l \<noteq> js_undefined js))"

definition collect_pair :: "('w, 'e, 'v, 'n) js \<Rightarrow> 'v \<Rightarrow> ('w, 'e, string \<times> string) jsc" where
  "collect_pair js v =
     (if \<not> js_is_object js v then js_throw (js_type_error ''URLSearchParams iterable items must be objects'')
      else
     js_bind (js_get js v (Index 0)) (\<lambda>n.
     js_bind (js_of (ok_or (js_type_error ''URLSearchParams pair name must be a string'') (js_as_string js n))) (\<lambda>name.
     js_bind (js_get js v (Index 1)) (\<lambda>x.
     js_bind (js_of (ok_or (js_type_error ''URLSearchParams pair value must be a string'') (js_as_string js x))) (\<lambda>val.
     js_ok (name, val))))))"

definition collect_object_pairs :: "('w, 'e, 'v, 'n) js \<Rightarrow> 'v \<Rightarrow> ('w, 'e, pairs) jsc" where
  "collect_object_pairs js object =
     js_bind (js_keys js object) (\<lambda>keys.
     js_map (\<lambda>(name, key).
       js_bind (js_get js object key) (\<lambda>x.
       js_bind (js_of (ok_or (js_type_error ''URLSearchParams object values must be strings'') (js_as_string js x))) (\<lambda>val.
       js_ok (name, val)))) keys)"

definition collect_array_pairs :: "('w, 'e, 'v, 'n) js \<Rightarrow> 'v \<Rightarrow> ('w, 'e, pairs) jsc" where
  "collect_array_pairs js object =
     js_bind (js_get js object (Named ''length'')) (\<lambda>l.
     js_bind (js_to_length js l) (\<lambda>len.
     js_map (\<lambda>index. js_bind (js_get js object (Index index)) (collect_pair js)) [0..<len]))"

section \<open>Properties of URL objects\<close>

definition url_read ::
  "('w, 'u, 'e, 'v, 'n) ujs \<Rightarrow> ('w, 'u, 'e, 'v) uco \<Rightarrow> ('u \<Rightarrow> string) \<Rightarrow> 'v \<Rightarrow> ('w, 'u, 'e, 'v) ujsc"
where
  "url_read js co getter this =
     js_bind (this_url js co this) (\<lambda>i w. (Inr (js_string_value js (getter (url_at i w))), w))"

definition apply_url_setter ::
  "('w, 'u, 'e, 'v, 'n) ujs \<Rightarrow> ('w, 'u, 'e, 'v) uco \<Rightarrow> string \<Rightarrow> (string \<Rightarrow> 'u \<Rightarrow> bool \<times> 'u) \<Rightarrow> 'v \<Rightarrow> 'v list
     \<Rightarrow> ('w, 'u, 'e, 'v) ujsc"
where
  "apply_url_setter js co name setter this args =
     js_bind (js_of (required_js_string js args 0 name)) (\<lambda>val.
     js_bind (this_url js co this) (\<lambda>i w.
       case setter val (url_at i w) of (ok, u) \<Rightarrow>
         (if ok then Inr (js_undefined js) else Inl (js_type_error (''invalid URL '' @ name)), set_url i u w)))"

definition url_write ::
  "('w, 'u, 'e, 'v, 'n) ujs \<Rightarrow> ('w, 'u, 'e, 'v) uco \<Rightarrow> string \<Rightarrow> (string \<Rightarrow> 'u \<Rightarrow> 'u) \<Rightarrow> 'v \<Rightarrow> 'v list
     \<Rightarrow> ('w, 'u, 'e, 'v) ujsc"
where
  "url_write js co name setter this args =
     js_bind (js_of (required_js_string js args 0 name)) (\<lambda>val.
     js_bind (this_url js co this) (\<lambda>i w.
       (Inr (js_undefined js), set_url i (setter val (url_at i w)) w)))"

type_synonym ('w, 'u, 'e, 'v, 'n) url_get =
  "('w, 'u, 'e, 'v, 'n) ujs \<Rightarrow> ('w, 'u, 'e, 'v) uco \<Rightarrow> 'u url_lib \<Rightarrow> 'v \<Rightarrow> ('w, 'u, 'e, 'v) ujsc"
type_synonym ('w, 'u, 'e, 'v, 'n) url_set =
  "('w, 'u, 'e, 'v, 'n) ujs \<Rightarrow> ('w, 'u, 'e, 'v) uco \<Rightarrow> 'u url_lib \<Rightarrow> 'v \<Rightarrow> 'v list \<Rightarrow> ('w, 'u, 'e, 'v) ujsc"

definition url_href_get :: "('w, 'u, 'e, 'v, 'n) url_get" where
  "url_href_get js co ul = url_read js co (qk_href ul)"

definition url_href_set :: "('w, 'u, 'e, 'v, 'n) url_set" where
  "url_href_set js co ul this args =
     js_bind (js_of (required_js_string js args 0 ''href'')) (\<lambda>val.
     js_bind (this_url js co this) (\<lambda>i w.
       case qk_set_href ul val (url_at i w) of (ok, u) \<Rightarrow>
         (if ok then Inr (js_undefined js) else Inl (js_type_error ''invalid URL href''), set_url i u w)))"

definition url_origin_get :: "('w, 'u, 'e, 'v, 'n) url_get" where
  "url_origin_get js co ul = url_read js co (qk_origin ul)"

definition url_protocol_get :: "('w, 'u, 'e, 'v, 'n) url_get" where
  "url_protocol_get js co ul = url_read js co (qk_protocol ul)"

definition url_protocol_set :: "('w, 'u, 'e, 'v, 'n) url_set" where
  "url_protocol_set js co ul = apply_url_setter js co ''protocol'' (qk_set_protocol ul)"

definition url_username_get :: "('w, 'u, 'e, 'v, 'n) url_get" where
  "url_username_get js co ul = url_read js co (qk_username ul)"

definition url_username_set :: "('w, 'u, 'e, 'v, 'n) url_set" where
  "url_username_set js co ul = apply_url_setter js co ''username'' (qk_set_username ul)"

definition url_password_get :: "('w, 'u, 'e, 'v, 'n) url_get" where
  "url_password_get js co ul = url_read js co (qk_password ul)"

definition url_password_set :: "('w, 'u, 'e, 'v, 'n) url_set" where
  "url_password_set js co ul = apply_url_setter js co ''password'' (qk_set_password ul)"

definition url_host_get :: "('w, 'u, 'e, 'v, 'n) url_get" where
  "url_host_get js co ul = url_read js co (qk_host ul)"

definition url_host_set :: "('w, 'u, 'e, 'v, 'n) url_set" where
  "url_host_set js co ul = apply_url_setter js co ''host'' (qk_set_host ul)"

definition url_hostname_get :: "('w, 'u, 'e, 'v, 'n) url_get" where
  "url_hostname_get js co ul = url_read js co (qk_hostname ul)"

definition url_hostname_set :: "('w, 'u, 'e, 'v, 'n) url_set" where
  "url_hostname_set js co ul = apply_url_setter js co ''hostname'' (qk_set_hostname ul)"

definition url_port_get :: "('w, 'u, 'e, 'v, 'n) url_get" where
  "url_port_get js co ul = url_read js co (qk_port ul)"

definition url_port_set :: "('w, 'u, 'e, 'v, 'n) url_set" where
  "url_port_set js co ul = apply_url_setter js co ''port'' (qk_set_port ul)"

definition url_pathname_get :: "('w, 'u, 'e, 'v, 'n) url_get" where
  "url_pathname_get js co ul = url_read js co (qk_pathname ul)"

definition url_pathname_set :: "('w, 'u, 'e, 'v, 'n) url_set" where
  "url_pathname_set js co ul = url_write js co ''pathname'' (qk_set_pathname ul)"

definition url_search_get :: "('w, 'u, 'e, 'v, 'n) url_get" where
  "url_search_get js co ul = url_read js co (qk_search ul)"

definition url_search_set :: "('w, 'u, 'e, 'v, 'n) url_set" where
  "url_search_set js co ul = url_write js co ''search'' (qk_set_search ul)"

definition url_search_params_get :: "('w, 'u, 'e, 'v, 'n) url_get" where
  "url_search_params_get js co ul this =
     js_bind (this_url js co this) (\<lambda>i. co_from_data co (MechanicsUrlSearchParams (UrlBacked i)))"

definition url_hash_get :: "('w, 'u, 'e, 'v, 'n) url_get" where
  "url_hash_get js co ul = url_read js co (qk_hash ul)"

definition url_hash_set :: "('w, 'u, 'e, 'v, 'n) url_set" where
  "url_hash_set js co ul = url_write js co ''hash'' (qk_set_hash ul)"

definition url_to_string :: "('w, 'u, 'e, 'v, 'n) url_get" where
  "url_to_string js co ul this = url_href_get js co ul this"

section \<open>Construction of URL objects\<close>

definition url_arguments :: "('w, 'e, 'v, 'n) js \<Rightarrow> 'v list \<Rightarrow> ('e js_exception, string \<times> string option) result" where
  "url_arguments js args =
     bind_ok (required_js_string js args 0 ''input'') (\<lambda>input.
     bind_ok (optional_js_string js args 1 ''base'') (\<lambda>base. Inr (input, base)))"

definition url_can_parse :: "('w, 'e, 'v, 'n) js \<Rightarrow> 'u url_lib \<Rightarrow> 'v list \<Rightarrow> ('w, 'e, 'v) jsc" where
  "url_can_parse js ul args =
     js_bind (js_of (url_arguments js args)) (\<lambda>(input, base). js_ok (js_bool js (parse_url ul input base \<noteq> None)))"

definition url_parse ::
  "('w, 'u, 'e, 'v, 'n) ujs \<Rightarrow> ('w, 'u, 'e, 'v) uco \<Rightarrow> 'u url_lib \<Rightarrow> 'v list \<Rightarrow> ('w, 'u, 'e, 'v) ujsc"
where
  "url_parse js co ul args =
     js_bind (js_of (url_arguments js args)) (\<lambda>(input, base).
     case parse_url ul input base of
       Some url \<Rightarrow> js_bind (new_url url) (\<lambda>i. co_from_data co (MechanicsUrl i))
     | None \<Rightarrow> js_ok (js_null js))"

definition url_data_constructor ::
  "('w, 'u, 'e, 'v, 'n) ujs \<Rightarrow> 'u url_lib \<Rightarrow> 'v list \<Rightarrow> ('w, 'u, 'e, native_data) ujsc"
where
  "url_data_constructor js ul args =
     js_bind (js_of (url_arguments js args)) (\<lambda>(input, base).
     js_bind (js_of (ok_or (js_type_error ''invalid URL'') (parse_url ul input base))) (\<lambda>parsed.
     js_bind (new_url parsed) (\<lambda>i. js_ok (MechanicsUrl i))))"

definition params_data_constructor ::
  "('w, 'u, 'e, 'v, 'n) ujs \<Rightarrow> 'u url_lib \<Rightarrow> 'v list \<Rightarrow> ('w, 'u, 'e, native_data) ujsc"
where
  "params_data_constructor js ul args =
     (let init = arg js args 0
      in js_bind
           (if init = js_undefined js \<or> init = js_null js then js_ok []
            else case js_as_string js init of
                   Some text \<Rightarrow> js_ok (parse_params_string ul text)
                 | None \<Rightarrow>
                     if js_is_object js init then
                       js_bind (is_array_like js init) (\<lambda>array.
                       if array then collect_array_pairs js init else collect_object_pairs js init)
                     else js_throw (js_type_error ''URLSearchParams init must be a string or object'')) (\<lambda>pairs.
         js_bind (new_params pairs) (\<lambda>i. js_ok (MechanicsUrlSearchParams (Owned i)))))"

section \<open>Methods of URLSearchParams\<close>

type_synonym ('w, 'u, 'e, 'v, 'n) params_method =
  "('w, 'u, 'e, 'v, 'n) ujs \<Rightarrow> ('w, 'u, 'e, 'v) uco \<Rightarrow> 'u url_lib \<Rightarrow> 'v \<Rightarrow> 'v list \<Rightarrow> ('w, 'u, 'e, 'v) ujsc"

definition params_snapshot ::
  "('w, 'u, 'e, 'v, 'n) ujs \<Rightarrow> ('w, 'u, 'e, 'v) uco \<Rightarrow> 'u url_lib \<Rightarrow> 'v \<Rightarrow> ('w, 'u, 'e, pairs) ujsc"
where
  "params_snapshot js co ul this = js_bind (this_params js co this) (\<lambda>backing w. (Inr (snapshot_pairs ul backing w), w))"

definition params_update ::
  "('w, 'u, 'e, 'v, 'n) ujs \<Rightarrow> ('w, 'u, 'e, 'v) uco \<Rightarrow> 'u url_lib \<Rightarrow> 'v \<Rightarrow> (pairs \<Rightarrow> pairs) \<Rightarrow> ('w, 'u, 'e, 'v) ujsc"
where
  "params_update js co ul this f =
     js_bind (this_params js co this) (\<lambda>backing w. (Inr (js_undefined js), with_pairs ul backing f w))"

definition array_values_iterator :: "('w, 'e, 'v, 'n) js \<Rightarrow> 'v \<Rightarrow> ('w, 'e, 'v) jsc" where
  "array_values_iterator js array =
     js_bind (js_get js array (Named ''values'')) (\<lambda>values.
     if \<not> js_is_callable js values then js_throw (js_type_error ''Array.prototype.values is not callable'')
     else js_call js values array [])"

definition pair_array :: "('w, 'e, 'v, 'n) js \<Rightarrow> string \<Rightarrow> string \<Rightarrow> ('w, 'e, 'v) jsc" where
  "pair_array js name val = js_new_array js [js_string_value js name, js_string_value js val]"

definition params_entries :: "('w, 'u, 'e, 'v, 'n) params_method" where
  "params_entries js co ul this args =
     js_bind (params_snapshot js co ul this) (\<lambda>pairs.
     js_bind (js_map (\<lambda>(name, val). pair_array js name val) pairs) (\<lambda>entries.
     js_bind (js_new_array js entries) (array_values_iterator js)))"

definition params_keys :: "('w, 'u, 'e, 'v, 'n) params_method" where
  "params_keys js co ul this args =
     js_bind (params_snapshot js co ul this) (\<lambda>pairs.
     js_bind (js_new_array js (map (\<lambda>(name, _). js_string_value js name) pairs)) (array_values_iterator js))"

definition params_values :: "('w, 'u, 'e, 'v, 'n) params_method" where
  "params_values js co ul this args =
     js_bind (params_snapshot js co ul this) (\<lambda>pairs.
     js_bind (js_new_array js (map (\<lambda>(_, val). js_string_value js val) pairs)) (array_values_iterator js))"

definition params_append :: "('w, 'u, 'e, 'v, 'n) params_method" where
  "params_append js co ul this args =
     js_bind (js_of (required_js_string js args 0 ''name'')) (\<lambda>name.
     js_bind (js_of (required_js_string js args 1 ''value'')) (\<lambda>val.
     params_update js co ul this (\<lambda>pairs. pairs @ [(name, val)])))"

definition delete_pairs :: "string \<Rightarrow> string option \<Rightarrow> pairs \<Rightarrow> pairs" where
  "delete_pairs name val pairs =
     filter (\<lambda>(pair_name, pair_value). pair_name \<noteq> name \<or> (case val of None \<Rightarrow> False | Some v \<Rightarrow> pair_value \<noteq> v)) pairs"

definition params_delete :: "('w, 'u, 'e, 'v, 'n) params_method" where
  "params_delete js co ul this args =
     js_bind (js_of (required_js_string js args 0 ''name'')) (\<lambda>name.
     js_bind (js_of (optional_js_string js args 1 ''value'')) (\<lambda>val.
     params_update js co ul this (delete_pairs name val)))"

definition params_get :: "('w, 'u, 'e, 'v, 'n) params_method" where
  "params_get js co ul this args =
     js_bind (js_of (required_js_string js args 0 ''name'')) (\<lambda>name.
     js_bind (params_snapshot js co ul this) (\<lambda>pairs.
     js_ok (case find (\<lambda>(pair_name, _). pair_name = name) pairs of
              None \<Rightarrow> js_null js
            | Some (_, val) \<Rightarrow> js_string_value js val)))"

definition values_of :: "string \<Rightarrow> pairs \<Rightarrow> string list" where
  "values_of name pairs = map snd (filter (\<lambda>(pair_name, _). pair_name = name) pairs)"

definition params_get_all :: "('w, 'u, 'e, 'v, 'n) params_method" where
  "params_get_all js co ul this args =
     js_bind (js_of (required_js_string js args 0 ''name'')) (\<lambda>name.
     js_bind (params_snapshot js co ul this) (\<lambda>pairs.
     js_new_array js (map (js_string_value js) (values_of name pairs))))"

definition params_has :: "('w, 'u, 'e, 'v, 'n) params_method" where
  "params_has js co ul this args =
     js_bind (js_of (required_js_string js args 0 ''name'')) (\<lambda>name.
     js_bind (js_of (optional_js_string js args 1 ''value'')) (\<lambda>val.
     js_bind (params_snapshot js co ul this) (\<lambda>pairs.
     js_ok (js_bool js (list_ex (\<lambda>(pair_name, pair_value).
       pair_name = name \<and> (case val of None \<Rightarrow> True | Some v \<Rightarrow> pair_value = v)) pairs)))))"

text \<open>The loop of \<^verbatim>\<open>set\<close>: the first pair of the name gets the value, the others are dropped.\<close>

fun retain_first :: "string \<Rightarrow> string \<Rightarrow> bool \<Rightarrow> pairs \<Rightarrow> bool \<times> pairs" where
  "retain_first name val seen [] = (seen, [])"
| "retain_first name val seen ((pair_name, pair_value) # pairs) =
     (if pair_name = name then
        (if seen then retain_first name val seen pairs
         else case retain_first name val True pairs of (s, ps) \<Rightarrow> (s, (pair_name, val) # ps))
      else case retain_first name val seen pairs of (s, ps) \<Rightarrow> (s, (pair_name, pair_value) # ps))"

definition set_pair :: "string \<Rightarrow> string \<Rightarrow> pairs \<Rightarrow> pairs" where
  "set_pair name val pairs =
     (case retain_first name val False pairs of (seen, ps) \<Rightarrow> if seen then ps else ps @ [(name, val)])"

definition params_set :: "('w, 'u, 'e, 'v, 'n) params_method" where
  "params_set js co ul this args =
     js_bind (js_of (required_js_string js args 0 ''name'')) (\<lambda>name.
     js_bind (js_of (required_js_string js args 1 ''value'')) (\<lambda>val.
     params_update js co ul this (set_pair name val)))"

definition sort_pairs :: "pairs \<Rightarrow> pairs" where
  "sort_pairs pairs = sort_key fst pairs"

definition params_sort :: "('w, 'u, 'e, 'v, 'n) params_method" where
  "params_sort js co ul this args = params_update js co ul this sort_pairs"

definition params_to_string :: "('w, 'u, 'e, 'v, 'n) params_method" where
  "params_to_string js co ul this args =
     js_bind (params_snapshot js co ul this) (\<lambda>pairs. js_ok (js_string_value js (encode_pairs ul pairs)))"

definition params_for_each :: "('w, 'u, 'e, 'v, 'n) params_method" where
  "params_for_each js co ul this args =
     (let callback = arg js args 0; this_arg = arg js args 1
      in if \<not> js_is_callable js callback then js_throw (js_type_error ''callback must be callable'')
         else
     js_bind (params_snapshot js co ul this) (\<lambda>pairs.
     js_bind (js_each (\<lambda>(name, val).
         js_bind (js_call js callback this_arg [js_string_value js val, js_string_value js name, this]) (\<lambda>_. js_ok ())) pairs)
       (\<lambda>_. js_ok (js_undefined js))))"

definition params_size_get :: "('w, 'u, 'e, 'v, 'n) params_method" where
  "params_size_get js co ul this args =
     js_bind (params_snapshot js co ul this) (\<lambda>pairs.
     js_of (if length pairs \<le> 2 ^ 31 - 1 then Inr (js_int js (int (length pairs)))
            else Inl (js_type_error ''URLSearchParams size overflow'')))"

end
