(* ===== verification/Url_Properties.thy ===== *)
theory Url_Properties
  imports Url_Builtin Codec_Properties "HOL-Library.Multiset"
begin

text \<open>
  Correctness of URL and URLSearchParams: the methods of URLSearchParams do to the pairs behind an
  object what the abstract list operations do, objects that share a URL see each other's changes and
  no others, and the three ways to parse a URL agree.
\<close>

section \<open>Operations on pairs\<close>

lemma retain_first_seen:
  "retain_first name val True ps = (True, filter (\<lambda>p. fst p \<noteq> name) ps)"
  by (induction name val True ps rule: retain_first.induct) auto

lemma retain_first_split:
  "retain_first name val False (filter (\<lambda>p. fst p \<noteq> name) ps) = (False, filter (\<lambda>p. fst p \<noteq> name) ps)"
  by (induction ps) auto

lemma retain_first_values:
  "retain_first name val False ps = (s, qs) \<Longrightarrow>
     s = (values_of name ps \<noteq> []) \<and> values_of name qs = (if s then [val] else [])
     \<and> filter (\<lambda>p. fst p \<noteq> name) qs = filter (\<lambda>p. fst p \<noteq> name) ps"
proof (induction ps arbitrary: s qs)
  case (Cons p ps)
  obtain n v where [simp]: "p = (n, v)" by (cases p)
  show ?case
  proof (cases "n = name")
    case True
    have "filter (\<lambda>(k, _). k = name) (filter (\<lambda>p. fst p \<noteq> name) ps) = []" by (simp add: filter_empty_conv split: prod.splits)
    then show ?thesis using Cons.prems True by (auto simp: retain_first_seen values_of_def)
  next
    case False
    obtain s' qs' where r: "retain_first name val False ps = (s', qs')" by (cases "retain_first name val False ps")
    then show ?thesis using Cons.IH [OF r] Cons.prems False by (auto simp: values_of_def)
  qed
qed (simp add: values_of_def)

lemma values_of_filter:
  "n \<noteq> name \<Longrightarrow> values_of n (filter (\<lambda>p. fst p \<noteq> name) ps) = values_of n ps"
  by (induction ps) (auto simp: values_of_def)

lemma values_of_append: "values_of n (ps @ qs) = values_of n ps @ values_of n qs"
  by (simp add: values_of_def)

lemma set_pair_values: "values_of n (set_pair name val ps) = (if n = name then [val] else values_of n ps)"
  and set_pair_others: "filter (\<lambda>p. fst p \<noteq> name) (set_pair name val ps) = filter (\<lambda>p. fst p \<noteq> name) ps"
proof -
  obtain s qs where r: "retain_first name val False ps = (s, qs)" by (cases "retain_first name val False ps")
  note v = retain_first_values [OF r]
  have "values_of n qs = values_of n ps" if "n \<noteq> name"
    using v values_of_filter [OF that, of ps] values_of_filter [OF that, of qs] by simp
  then show "values_of n (set_pair name val ps) = (if n = name then [val] else values_of n ps)"
    using r v by (auto simp: set_pair_def values_of_append) (simp_all add: values_of_def)
  show "filter (\<lambda>p. fst p \<noteq> name) (set_pair name val ps) = filter (\<lambda>p. fst p \<noteq> name) ps"
    using r v by (simp add: set_pair_def)
qed




section \<open>Shared cells\<close>

text \<open>
  The interface of a store of shared lists: an update through one handle changes what is read through
  that handle, as the update says, and what is read through no other.
\<close>

definition store_update :: "'b \<times> ('a \<Rightarrow> 'a) \<Rightarrow> ('b \<Rightarrow> 'a) \<Rightarrow> 'b \<Rightarrow> 'a" where
  "store_update op m = m(fst op := snd op (m (fst op)))"

locale shared_lists =
  fixes read :: "'l \<Rightarrow> 'b \<Rightarrow> 's \<Rightarrow> 'a list"
    and update :: "'l \<Rightarrow> 'b \<Rightarrow> ('a list \<Rightarrow> 'a list) \<Rightarrow> 's \<Rightarrow> 's"
    and valid :: "'l \<Rightarrow> 'b \<Rightarrow> 's \<Rightarrow> bool"
  assumes read_update: "valid l b s \<Longrightarrow> read l b (update l b f s) = f (read l b s)"
    and read_other: "b' \<noteq> b \<Longrightarrow> read l b' (update l b f s) = read l b' s"
    and valid_update: "valid l b' s \<Longrightarrow> valid l b' (update l b f s)"
begin

lemma reads_update: "valid l b s \<Longrightarrow> (\<lambda>b'. read l b' (update l b f s)) = store_update (b, f) (\<lambda>b'. read l b' s)"
  by (auto simp: fun_eq_iff read_update read_other store_update_def)

lemma reads_updates:
  "list_all (\<lambda>(b, _). valid l b s) ops \<Longrightarrow>
     (\<lambda>b. read l b (fold (\<lambda>(b, f). update l b f) ops s)) = fold store_update ops (\<lambda>b. read l b s)"
proof (induction ops arbitrary: s)
  case (Cons op ops)
  obtain b f where [simp]: "op = (b, f)" by (cases op)
  have "list_all (\<lambda>(b, _). valid l b (update l (fst op) (snd op) s)) ops"
    using Cons.prems by (auto simp: list_all_iff intro: valid_update)
  then show ?case using Cons.IH Cons.prems by (simp add: reads_update)
qed simp

end

text \<open>Writing the encoded pairs as a query and reading the pairs of the query gives the pairs.\<close>

definition query_laws :: "'u url_lib \<Rightarrow> bool" where
  "query_laws ul \<longleftrightarrow>
     (\<forall>u ps. ps \<noteq> [] \<longrightarrow> ul_query_pairs ul (ul_set_query ul (Some (fl_serialize ul ps)) u) = ps)
     \<and> (\<forall>u. ul_query_pairs ul (ul_set_query ul None u) = [])"

fun cell_ok :: "ParamsBacking \<Rightarrow> ('w, 'u) url_world \<Rightarrow> bool" where
  "cell_ok (Owned i) w = (i < length (uw_params w))"
| "cell_ok (UrlBacked i) w = (i < length (uw_urls w))"

lemma query_written: "query_laws ul \<Longrightarrow> ul_query_pairs ul (write_query_pairs ul u ps) = ps"
  by (simp add: query_laws_def write_query_pairs_def encode_pairs_def)

interpretation url_params: shared_lists snapshot_pairs with_pairs "\<lambda>ul b w. query_laws ul \<and> cell_ok b w"
proof
  fix ul :: "'u url_lib" and b f and w :: "('w, 'u) url_world"
  assume "query_laws ul \<and> cell_ok b w"
  then show "snapshot_pairs ul b (with_pairs ul b f w) = f (snapshot_pairs ul b w)"
    by (cases b) (auto simp: snapshot_pairs_def with_pairs_def url_at_def set_url_def query_written Let_def)
next
  fix ul :: "'u url_lib" and b b' :: ParamsBacking and f and w :: "('w, 'u) url_world"
  assume "b' \<noteq> b"
  then show "snapshot_pairs ul b' (with_pairs ul b f w) = snapshot_pairs ul b' w"
    by (cases b; cases b') (auto simp: snapshot_pairs_def with_pairs_def url_at_def set_url_def Let_def)
next
  fix ul :: "'u url_lib" and b b' f and w :: "('w, 'u) url_world"
  assume "query_laws ul \<and> cell_ok b' w"
  then show "query_laws ul \<and> cell_ok b' (with_pairs ul b f w)"
    by (cases b; cases b') (auto simp: with_pairs_def set_url_def Let_def)
qed

text \<open>
  Property C30: URLSearchParams objects implement a store of lists. Whatever sequence of updates is made
  through whatever handles, owned or bound to a URL, the pairs read through every handle are those of
  an abstract store of independent lists, one for each cell, after the same updates.
\<close>

theorem params_refine_lists:
  assumes "query_laws ul" and "list_all (\<lambda>(b, _). cell_ok b w) ops"
  shows "snapshot_pairs ul b (fold (\<lambda>(b, f). with_pairs ul b f) ops w) =
    fold store_update ops (\<lambda>b. snapshot_pairs ul b w) b"
proof -
  have "list_all (\<lambda>(b, _). query_laws ul \<and> cell_ok b w) ops" using assms by (auto simp: list_all_iff)
  from fun_cong [OF url_params.reads_updates [OF this]] show ?thesis .
qed

text \<open>An update through a handle changes nothing of a URL but its query.\<close>

lemma with_pairs_url:
  "uw_host (with_pairs ul b f w) = uw_host w"
  "\<forall>i. \<exists>q. url_at i (with_pairs ul b f w) \<in> {url_at i w, ul_set_query ul q (url_at i w)}"
proof -
  show "uw_host (with_pairs ul b f w) = uw_host w"
    by (simp add: with_pairs_def set_url_def Let_def split: ParamsBacking.split)
  show "\<forall>i. \<exists>q. url_at i (with_pairs ul b f w) \<in> {url_at i w, ul_set_query ul q (url_at i w)}"
  proof
    fix i
    show "\<exists>q. url_at i (with_pairs ul b f w) \<in> {url_at i w, ul_set_query ul q (url_at i w)}"
    proof (cases b)
      case (UrlBacked j)
      then show ?thesis
        by (cases "i = j \<and> j < length (uw_urls w)")
          (auto simp: with_pairs_def set_url_def url_at_def write_query_pairs_def Let_def nth_list_update
            list_update_beyond)
    qed (simp add: with_pairs_def url_at_def)
  qed
qed

section \<open>Methods\<close>

text \<open>The data behind an object does not depend on the contents of cells.\<close>

definition class_laws :: "('w, 'u, 'e, 'v) uco \<Rightarrow> bool" where
  "class_laws co \<longleftrightarrow> (\<forall>v w us ps. co_data co v (w\<lparr>uw_urls := us, uw_params := ps\<rparr>) = co_data co v w)"

definition params_object :: "('w, 'u, 'e, 'v, 'n) ujs \<Rightarrow> ('w, 'u, 'e, 'v) uco \<Rightarrow> ('w, 'u) url_world \<Rightarrow> 'v \<Rightarrow> ParamsBacking \<Rightarrow> bool" where
  "params_object js co w v b \<longleftrightarrow> js_is_object js v \<and> co_data co v w = Some (MechanicsUrlSearchParams b)"

lemma params_object_this: "params_object js co w v b \<Longrightarrow> this_params js co v w = (Inr b, w)"
  by (simp add: params_object_def this_params_def)

lemma params_object_update:
  assumes "class_laws co"
  shows "params_object js co (with_pairs ul b f w) v c = params_object js co w v c"
proof -
  have "with_pairs ul b f w = w\<lparr>uw_urls := uw_urls (with_pairs ul b f w), uw_params := uw_params (with_pairs ul b f w)\<rparr>"
    by (cases b) (simp_all add: with_pairs_def set_url_def Let_def)
  then have "co_data co v (with_pairs ul b f w) = co_data co v w" using assms unfolding class_laws_def by metis
  then show ?thesis by (simp add: params_object_def)
qed

lemma string_args:
  assumes "js_strings_ok js"
  shows "required_js_string js (js_string js s # args) 0 name = Inr s"
    "required_js_string js (v # js_string js s # args) (Suc 0) name = Inr s"
  using assms by (simp_all add: required_js_string_def arg_def js_strings_ok_def)

lemma params_set_eval:
  assumes "js_strings_ok js" "params_object js co w p b"
  shows "params_set js co ul p [js_string js name, js_string js val] w =
    (Inr (js_undefined js), with_pairs ul b (set_pair name val) w)"
  using assms by (simp add: params_set_def params_update_def js_simps string_args params_object_this)

lemma params_snapshot_eval:
  "params_object js co w p b \<Longrightarrow> params_snapshot js co ul p w = (Inr (snapshot_pairs ul b w), w)"
  by (simp add: params_snapshot_def js_simps params_object_this)

lemma find_values_of:
  "find (\<lambda>(k, _). k = name) ps = (case values_of name ps of [] \<Rightarrow> None | v # _ \<Rightarrow> Some (name, v))"
  by (induction ps) (auto simp: values_of_def)

lemma params_get_eval:
  assumes "js_strings_ok js" "params_object js co w p b"
  shows "params_get js co ul p [js_string js name] w =
    (Inr (case values_of name (snapshot_pairs ul b w) of [] \<Rightarrow> js_null js | v # _ \<Rightarrow> js_string js v), w)"
  using assms
  by (simp add: params_get_def js_simps string_args params_snapshot_eval find_values_of js_string_value_def split: list.split)

text \<open>
  Search parameters are live. When two objects are bound to the same cell, for instance two
  results of \<^verbatim>\<open>url.searchParams\<close>, a value set through one is read through the other; of the URL at most the
  query changes; and objects bound to other cells read what they read before.
\<close>

theorem search_params_live:
  assumes "query_laws ul" and "class_laws co" and "js_strings_ok js" and "cell_ok b w"
    and "params_object js co w p b" and "params_object js co w q b"
    and "params_object js co w r c" and "c \<noteq> b"
  shows "\<exists>w'. params_set js co ul p [js_string js name, js_string js val] w = (Inr (js_undefined js), w')
    \<and> params_get js co ul q [js_string js name] w' = (Inr (js_string js val), w')
    \<and> (\<forall>i. \<exists>query. url_at i w' \<in> {url_at i w, ul_set_query ul query (url_at i w)})
    \<and> params_snapshot js co ul r w' = (Inr (snapshot_pairs ul c w), w')"
proof -
  let ?w = "with_pairs ul b (set_pair name val) w"
  have q: "params_object js co ?w q b" and r: "params_object js co ?w r c"
    using assms by (simp_all add: params_object_update)
  have b: "snapshot_pairs ul b ?w = set_pair name val (snapshot_pairs ul b w)"
    using assms(1,4) by (intro url_params.read_update) simp
  have "params_get js co ul q [js_string js name] ?w = (Inr (js_string js val), ?w)"
    using params_get_eval [OF assms(3) q] by (simp add: b set_pair_values)
  moreover have "params_snapshot js co ul r ?w = (Inr (snapshot_pairs ul c w), ?w)"
    using params_snapshot_eval [OF r] url_params.read_other [OF assms(8)] by simp
  ultimately show ?thesis using params_set_eval [OF assms(3,5)] with_pairs_url(2) by blast
qed

section \<open>Parsing\<close>

text \<open>
  The ways to parse a URL agree. For the same arguments \<^verbatim>\<open>canParse\<close> says whether the
  constructor succeeds, \<^verbatim>\<open>parse\<close> gives null exactly when the constructor refuses the text with a type
  error, and otherwise the object of the constructor's data; bad arguments give all three the same error.
\<close>

theorem url_parse_agrees:
  "case url_arguments js args of
     Inl e \<Rightarrow> url_can_parse js ul args w = (Inl e, w) \<and> url_data_constructor js ul args w = (Inl e, w)
       \<and> url_parse js co ul args w = (Inl e, w)
   | Inr (input, base) \<Rightarrow>
       url_can_parse js ul args w = (Inr (js_bool js (is_ok (fst (url_data_constructor js ul args w)))), w)
       \<and> (case url_data_constructor js ul args w of
            (Inl e, w1) \<Rightarrow> e = TypeExn ''invalid URL'' \<and> url_parse js co ul args w = (Inr (js_null js), w)
          | (Inr d, w1) \<Rightarrow> d = MechanicsUrl (length (uw_urls w)) \<and> Some (url_at (length (uw_urls w)) w1) = parse_url ul input base
              \<and> url_parse js co ul args w = co_from_data co d w1)"
  by (auto simp: url_can_parse_def url_data_constructor_def url_parse_def js_simps new_url_def js_bind_def url_at_def
      js_type_error_def split: sum.split option.split prod.split)

section \<open>Witnesses\<close>

text \<open>A URL that is only a list of pairs, and an engine in which three objects are search parameters.\<close>

definition small_url :: "pairs url_lib" where
  "small_url = form_lib.extend marked_form (url_lib.fields (\<lambda>s. Some [(s, s)]) (\<lambda>u s. Some u) (\<lambda>u. u)
     (\<lambda>q u. case q of None \<Rightarrow> [] | Some s \<Rightarrow> fl_parse marked_form s)
     (\<lambda>_. []) (\<lambda>_ u. (True, u)) (\<lambda>_. []) (\<lambda>_. []) (\<lambda>_ u. (True, u)) (\<lambda>_. []) (\<lambda>_ u. (True, u)) (\<lambda>_. [])
     (\<lambda>_ u. (True, u)) (\<lambda>_. []) (\<lambda>_ u. (True, u)) (\<lambda>_. []) (\<lambda>_ u. (True, u)) (\<lambda>_. []) (\<lambda>_ u. (True, u))
     (\<lambda>_. []) (\<lambda>_ u. u) (\<lambda>_. []) (\<lambda>_ u. u) (\<lambda>_. []) (\<lambda>_ u. u))"

definition small_url_js :: "(sworld, pairs, unit, sval, nat) ujs" where
  "small_url_js = small_js uw_host (\<lambda>s w. w\<lparr>uw_host := s\<rparr>)"

definition small_co :: "(sworld, pairs, unit, sval) uco" where
  "small_co = \<lparr>co_data = (\<lambda>v _. case v of
       SObj n \<Rightarrow> Some (MechanicsUrlSearchParams (if n < 2 then UrlBacked 0 else Owned 0)) | _ \<Rightarrow> None),
     co_from_data = (\<lambda>_ w. (Inr SNull, w))\<rparr>"

definition small_url_world :: "(sworld, pairs) url_world" where
  "small_url_world = \<lparr>uw_host = \<lparr>so_objs = [], so_bufs = []\<rparr>, uw_urls = [[(''a'', ''1'')]], uw_params = [[(''b'', ''2'')]]\<rparr>"

lemma small_url_laws: "query_laws small_url"
  using marked_form_laws
  by (simp add: query_laws_def small_url_def form_laws_def form_lib.defs url_lib.defs)

lemma small_co_laws: "class_laws small_co" "js_strings_ok small_url_js"
  by (simp_all add: class_laws_def small_co_def js_strings_ok_def small_url_js_def small_js_def Let_def)

theorem params_refine_lists_witness:
  "snapshot_pairs small_url (UrlBacked 0)
     (fold (\<lambda>(b, f). with_pairs small_url b f) [(UrlBacked 0, set_pair ''a'' ''2''), (Owned 0, sort_pairs)] small_url_world) =
     [(''a'', ''2'')]"
  using params_refine_lists [OF small_url_laws, of small_url_world "[(UrlBacked 0, set_pair ''a'' ''2''), (Owned 0, sort_pairs)]" "UrlBacked 0"]
  by (simp add: small_url_world_def store_update_def set_pair_def snapshot_pairs_def url_at_def)
    (simp add: small_url_def form_lib.defs url_lib.defs)

theorem search_params_live_witness:
  "\<exists>w'. params_set small_url_js small_co small_url (SObj 0) [SStr ''a'', SStr ''2''] small_url_world = (Inr SUndef, w')
    \<and> params_get small_url_js small_co small_url (SObj 1) [SStr ''a''] w' = (Inr (SStr ''2''), w')
    \<and> params_snapshot small_url_js small_co small_url (SObj 2) w' = (Inr [(''b'', ''2'')], w')"
proof -
  have o: "params_object small_url_js small_co small_url_world (SObj n) (if n < 2 then UrlBacked 0 else Owned 0)" for n
    by (simp add: params_object_def small_co_def small_url_js_def small_js_def Let_def)
  have s: "js_string small_url_js = SStr" "js_undefined small_url_js = SUndef"
    by (simp_all add: small_url_js_def small_js_def Let_def)
  have c: "cell_ok (UrlBacked 0) small_url_world" by (simp add: small_url_world_def)
  have "snapshot_pairs small_url (Owned 0) small_url_world = [(''b'', ''2'')]"
    by (simp add: snapshot_pairs_def small_url_world_def)
  with search_params_live [OF small_url_laws small_co_laws c, of "SObj 0" "SObj 1" "SObj 2" "Owned 0" "''a''" "''2''"] o [of 0] o [of 1] o [of 2]
  show ?thesis by (auto simp: s)
qed

end
