(* ===== verification/Mime_Builtin.thy ===== *)
theory Mime_Builtin
  imports Mime_Message Buffer_Like Runtime
begin

text \<open>
  The module \<^verbatim>\<open>mechanics:mime\<close> as scripts see it, \<^verbatim>\<open>src/internal/runtime/builtins/mime.rs\<close>: reading a
  message from script objects, composing it, and giving a parsed message back as objects. Reading
  recurses along the parts of a message; it takes fuel, and \<open>None\<close> says that the fuel did not suffice.
\<close>

section \<open>Reading a message\<close>

definition js_run :: "('w, 'e, 'a) jsc \<Rightarrow> ('w, 'e js_exception, 'a) comp" where
  "js_run m w = Some (m w)"

fun comp_map :: "('a \<Rightarrow> ('s, 'e, 'b) comp) \<Rightarrow> 'a list \<Rightarrow> ('s, 'e, 'b list) comp" where
  "comp_map f [] = cret []"
| "comp_map f (x # xs) = cbind (f x) (\<lambda>y. cbind (comp_map f xs) (\<lambda>ys. cret (y # ys)))"

definition type_result :: "'a js_result \<Rightarrow> ('w, 'e, 'a) jsc" where
  "type_result r = js_of (map_err TypeExn r)"

definition absent :: "('w, 'e, 'v, 'n) js \<Rightarrow> 'v \<Rightarrow> bool" where
  "absent js v \<longleftrightarrow> v = js_undefined js \<or> v = js_null js"

definition collect_header :: "('w, 'e, 'v, 'n) js \<Rightarrow> 'v \<Rightarrow> string \<times> js_key \<Rightarrow> ('w, 'e, Header) jsc" where
  "collect_header js object entry =
     (case entry of (name, key) \<Rightarrow>
     js_bind (type_result (validate_header_name name)) (\<lambda>_.
     js_bind (js_get js object key) (\<lambda>v.
     js_bind (js_to_string js v) (\<lambda>val.
     js_bind (type_result (validate_header_value val)) (\<lambda>_.
     js_ok \<lparr>h_name = name, h_value = val\<rparr>)))))"

definition collect_headers :: "('w, 'e, 'v, 'n) js \<Rightarrow> 'v \<Rightarrow> ('w, 'e, Header list) jsc" where
  "collect_headers js v =
     (if absent js v then js_ok []
      else js_bind (js_to_object js v) (\<lambda>object.
           js_bind (js_keys js object) (\<lambda>keys.
           js_map (collect_header js object) keys)))"

text \<open>\<open>collect\<close> reads one part.\<close>

definition collect_parts ::
  "('v \<Rightarrow> ('w, 'e js_exception, MimeMessage) comp) \<Rightarrow> ('w, 'e, 'v, 'n) js \<Rightarrow> 'v
     \<Rightarrow> ('w, 'e js_exception, MimeMessage list) comp"
where
  "collect_parts collect js v =
     (if absent js v then cret []
      else cbind (js_run (js_to_object js v)) (\<lambda>object.
           cbind (js_run (js_get js object (Named ''length''))) (\<lambda>l.
           cbind (js_run (js_to_length js l)) (\<lambda>len.
           comp_map (\<lambda>index. cbind (js_run (js_get js object (Index index))) collect) [0..<len]))))"

definition collect_body :: "('w, 'e, 'v, 'n) js \<Rightarrow> 'v \<Rightarrow> ('w, 'e, MimeBody option) jsc" where
  "collect_body js v =
     (if absent js v then js_ok None
      else js_bind (try_extract_buffer_like_bytes js v) (\<lambda>r.
        case r of
          Some bytes \<Rightarrow> js_ok (Some (Bytes bytes))
        | None \<Rightarrow>
            if js_as_string js v \<noteq> None then js_bind (js_to_string js v) (\<lambda>s. js_ok (Some (Text s)))
            else js_throw (TypeExn ''MIME body must be a string, Uint8Array, ArrayBuffer, or DataView'')))"

definition collect_encoding :: "('w, 'e, 'v, 'n) js \<Rightarrow> 'v \<Rightarrow> ('w, 'e, string option) jsc" where
  "collect_encoding js v =
     (if absent js v then js_ok None
      else js_bind (js_to_string js v) (\<lambda>s. js_ok (Some (to_ascii_lowercase s))))"

fun collect_message :: "nat \<Rightarrow> ('w, 'e, 'v, 'n) js \<Rightarrow> 'v \<Rightarrow> ('w, 'e js_exception, MimeMessage) comp" where
  "collect_message 0 js v = (\<lambda>_. None)"
| "collect_message (Suc fuel) js v =
     cbind (js_run (js_to_object js v)) (\<lambda>object.
     cbind (js_run (js_get js object (Named ''headers''))) (\<lambda>h.
     cbind (js_run (collect_headers js h)) (\<lambda>headers.
     cbind (js_run (js_get js object (Named ''parts''))) (\<lambda>p.
     cbind (collect_parts (collect_message fuel js) js p) (\<lambda>parts.
     cbind (js_run (js_get js object (Named ''body''))) (\<lambda>b.
     cbind (js_run (collect_body js b)) (\<lambda>body.
     cbind (js_run (js_get js object (Named ''encoding''))) (\<lambda>e.
     cbind (js_run (collect_encoding js e)) (\<lambda>encoding.
     if body \<noteq> None \<and> parts \<noteq> []
     then craise (TypeExn ''MIME message must not contain both body and parts'')
     else cret (MimeMessage headers body parts encoding))))))))))"

definition compose :: "nat \<Rightarrow> ('w, 'e, 'v, 'n) js \<Rightarrow> codec \<Rightarrow> 'v list \<Rightarrow> ('w, 'e js_exception, 'v) comp" where
  "compose fuel js b64 args =
     cbind (collect_message fuel js (arg js args 0)) (\<lambda>message.
     case render_message b64 message True of
       None \<Rightarrow> (\<lambda>_. None)
     | Some r \<Rightarrow> cbind (js_run (type_result r)) (\<lambda>output. cret (js_string_value js output)))"

section \<open>Giving a parsed message back\<close>

definition headers_to_js :: "('w, 'e, 'v, 'n) js \<Rightarrow> Header list \<Rightarrow> ('w, 'e, 'v) jsc" where
  "headers_to_js js headers =
     js_bind (js_new js) (\<lambda>object.
     js_bind (js_each (\<lambda>header. js_set js object (Named (h_name header)) (js_string_value js (h_value header))) headers)
       (\<lambda>_. js_ok object))"

fun parsed_to_js :: "('w, 'e, 'v, 'n) js \<Rightarrow> ParsedMessage \<Rightarrow> ('w, 'e, 'v) jsc"
  and push_parts :: "('w, 'e, 'v, 'n) js \<Rightarrow> 'v \<Rightarrow> ParsedMessage list \<Rightarrow> ('w, 'e, unit) jsc" where
  "parsed_to_js js (ParsedMessage headers body parts text_body) =
     js_bind (js_new js) (\<lambda>object.
     js_bind (headers_to_js js headers) (\<lambda>h.
     js_bind (js_set js object (Named ''headers'') h) (\<lambda>_.
     if parts = [] then
       js_bind (if text_body
                then js_bind (type_result (parsed_text (ParsedMessage headers body parts text_body))) (\<lambda>text.
                     js_ok (js_string_value js text))
                else bytes_to_uint8_array_value js (case body of None \<Rightarrow> [] | Some b \<Rightarrow> b)) (\<lambda>body_value.
       js_bind (js_set js object (Named ''body'') body_value) (\<lambda>_. js_ok object))
     else
       js_bind (js_new_array js []) (\<lambda>array.
       js_bind (push_parts js array parts) (\<lambda>_.
       js_bind (js_set js object (Named ''parts'') array) (\<lambda>_. js_ok object))))))"
| "push_parts js array [] = js_ok ()"
| "push_parts js array (part # parts) =
     js_bind (parsed_to_js js part) (\<lambda>v.
     js_bind (js_push js array v) (\<lambda>_. push_parts js array parts))"

definition mime_parse :: "('w, 'e, 'v, 'n) js \<Rightarrow> codec \<Rightarrow> 'v list \<Rightarrow> ('w, 'e, 'v) jsc" where
  "mime_parse js b64 args =
     (let raw_value = arg js args 0
      in js_bind (try_extract_buffer_like_bytes js raw_value) (\<lambda>r.
         js_bind (case r of
                    Some bytes \<Rightarrow> type_result (from_utf8 ''raw MIME bytes must be UTF-8'' bytes)
                  | None \<Rightarrow> js_to_string js raw_value) (\<lambda>raw.
         js_bind (type_result (parse_text b64 raw)) (parsed_to_js js))))"

end
