(* ===== verification/Mime_Builtin_Properties.thy ===== *)
theory Mime_Builtin_Properties
  imports Mime_Builtin Small_Js
begin

text \<open>
  Correctness of reading MIME messages from script objects: what is read is well formed, so no header
  can break out of its line; reading ends for messages whose parts form a tree; and it does not end
  for a message that contains itself.
\<close>

section \<open>Computations\<close>

lemma cbind_eq_Inr:
  "cbind m f s = Some (Inr b, s'') \<longleftrightarrow> (\<exists>a s'. m s = Some (Inr a, s') \<and> f a s' = Some (Inr b, s''))"
  by (auto simp: cbind_def split: option.splits prod.splits sum.splits)


lemma cbind_None_first: "m s = None \<Longrightarrow> cbind m f s = None"
  by (simp add: cbind_def)

lemma cbind_run: "m s = (Inr a, s') \<Longrightarrow> cbind (js_run m) f s = f a s'"
  by (simp add: cbind_def js_run_def)


lemma js_run_eq [simp]: "js_run m s = Some x \<longleftrightarrow> m s = x" "js_run m s \<noteq> None"
  by (simp_all add: js_run_def)

lemma comp_map_Inr:
  assumes "comp_map f xs s = Some (Inr ys, s')" "\<And>x y s s'. f x s = Some (Inr y, s') \<Longrightarrow> P y"
  shows "list_all P ys"
  using assms(1)
proof (induction xs arbitrary: s ys s')
  case Nil
  then show ?case by (simp add: cret_def)
next
  case (Cons x xs)
  then obtain y s1 zs s2 where "f x s = Some (Inr y, s1)" "comp_map f xs s1 = Some (Inr zs, s2)" "ys = y # zs"
    by (auto simp: cbind_eq_Inr cret_def)
  with Cons.IH assms(2) show ?case by auto
qed

lemma js_map_Inr:
  assumes "js_map f xs s = (Inr ys, s')" "\<And>x y s s'. f x s = (Inr y, s') \<Longrightarrow> P y"
  shows "list_all P ys"
  using assms(1)
proof (induction xs arbitrary: s ys s')
  case Nil
  then show ?case by (simp add: js_ok_def)
next
  case (Cons x xs)
  then obtain y s1 zs s2 where "f x s = (Inr y, s1)" "js_map f xs s1 = (Inr zs, s2)" "ys = y # zs"
    by (auto simp: js_bind_eq_Inr js_ok_def)
  with Cons.IH assms(2) show ?case by auto
qed

section \<open>Well-formed messages\<close>

definition header_wf :: "Header \<Rightarrow> bool" where
  "header_wf h \<longleftrightarrow> h_name h \<noteq> [] \<and> list_all (\<lambda>c. in_range 33 126 c \<and> c \<noteq> CHR '':'') (h_name h)
     \<and> CR \<notin> set (h_value h) \<and> LF \<notin> set (h_value h)"

fun message_wf :: "MimeMessage \<Rightarrow> bool" where
  "message_wf (MimeMessage headers body parts encoding) \<longleftrightarrow>
     list_all header_wf headers \<and> (body = None \<or> parts = []) \<and> list_all message_wf parts"

lemma validated_header_wf:
  assumes "validate_header_name (h_name h) = Inr ()" "validate_header_value (h_value h) = Inr ()"
  shows "header_wf h"
proof -
  have n: "h_name h \<noteq> []" "list_all (\<lambda>b. (in_range 33 57 b \<or> in_range 59 126 b) \<and> b \<noteq> CHR '':'') (h_name h)"
    using assms(1) by (simp_all add: validate_header_name_def split: if_splits)
  have "in_range 33 126 b" if "in_range 33 57 b \<or> in_range 59 126 b" for b
    using that by (auto simp only: in_range_def)
  with n(2) have "list_all (\<lambda>c. in_range 33 126 c \<and> c \<noteq> CHR '':'') (h_name h)"
    by (auto simp only: list_all_iff)
  moreover have "\<not> list_ex (\<lambda>b. b \<in> {CR, LF}) (h_value h)"
    using assms(2) by (simp add: validate_header_value_def split: if_splits)
  then have "CR \<notin> set (h_value h)" "LF \<notin> set (h_value h)" by (auto simp only: list_ex_iff)
  ultimately show ?thesis using n(1) by (simp add: header_wf_def)
qed

lemma collect_header_wf:
  assumes "collect_header js object entry w = (Inr h, w')"
  shows "header_wf h"
proof -
  obtain name key where "entry = (name, key)" by (cases entry)
  then have "validate_header_name (h_name h) = Inr ()" "validate_header_value (h_value h) = Inr ()"
    using assms by (auto simp: collect_header_def js_bind_eq_Inr type_result_def js_of_def js_ok_def map_err_eq_Inr)
  then show ?thesis by (rule validated_header_wf)
qed

lemma collect_headers_wf: "collect_headers js v w = (Inr hs, w') \<Longrightarrow> list_all header_wf hs"
  by (auto simp: collect_headers_def js_bind_eq_Inr js_simps split: if_splits intro: js_map_Inr [OF _ collect_header_wf])

lemma collect_parts_wf:
  assumes "collect_parts collect js v w = Some (Inr parts, w')"
    "\<And>v w m w'. collect v w = Some (Inr m, w') \<Longrightarrow> message_wf m"
  shows "list_all message_wf parts"
proof (cases "absent js v")
  case True
  then show ?thesis using assms(1) by (simp add: collect_parts_def cret_def)
next
  case False
  then obtain object len w1 where
    "comp_map (\<lambda>index. cbind (js_run (js_get js object (Index index))) collect) [0..<len] w1 = Some (Inr parts, w')"
    using assms(1) by (auto simp: collect_parts_def cbind_eq_Inr)
  then show ?thesis by (rule comp_map_Inr) (auto simp: cbind_eq_Inr intro: assms(2))
qed

lemma collect_message_wfD: "collect_message fuel js v w = Some (Inr m, w') \<Longrightarrow> message_wf m"
proof (induction fuel arbitrary: v w m w')
  case (Suc fuel)
  then obtain headers body parts encoding h p w1 w2 w3 w4 where
    "collect_headers js h w1 = (Inr headers, w2)" "collect_parts (collect_message fuel js) js p w3 = Some (Inr parts, w4)"
    "body = None \<or> parts = []" "m = MimeMessage headers body parts encoding"
    by (auto simp: cbind_eq_Inr cret_def craise_def split: if_splits)
  with collect_headers_wf collect_parts_wf [OF _ Suc.IH] show ?case by auto
qed simp

text \<open>
  Property C35: a message that was read is well formed, at every level. Header names are non-empty and
  printable without a colon, header values have no line break, so a script cannot smuggle in headers;
  and no message has both a body and parts.
\<close>

theorem collected_message_wf:
  assumes "collect_message fuel js v w = Some (Inr m, w')"
  shows "message_wf m"
  using assms by (rule collect_message_wfD)

section \<open>Messages that contain themselves\<close>

text \<open>
  Property C37: a message that is its own first part is never read. No amount of recursion suffices: the
  native function calls itself for ever, whatever the engine gives for the other properties.
\<close>

theorem cyclic_message_diverges:
  assumes "js_to_object js v w = (Inr v, w)" and "js_get js v (Named ''headers'') w = (Inr (js_undefined js), w)"
    and "js_get js v (Named ''parts'') w = (Inr parts, w)" and "\<not> absent js parts"
    and "js_to_object js parts w = (Inr parts, w)" and "js_get js parts (Named ''length'') w = (Inr l, w)"
    and "js_to_length js l w = (Inr (Suc n), w)" and "js_get js parts (Index 0) w = (Inr v, w)"
  shows "collect_message fuel js v w = None"
proof (induction fuel)
  case (Suc fuel)
  have "comp_map (\<lambda>index. cbind (js_run (js_get js parts (Index index))) (collect_message fuel js)) (0 # [1..<Suc n]) w = None"
    using Suc by (simp add: cbind_None_first cbind_run assms(8))
  then have "comp_map (\<lambda>index. cbind (js_run (js_get js parts (Index index))) (collect_message fuel js)) [0..<Suc n] w = None"
    by (simp add: upt_conv_Cons del: upt_Suc)
  then have "collect_parts (collect_message fuel js) js parts w = None"
    using assms(4) by (simp add: collect_parts_def cbind_run assms(5-7) del: upt_Suc)
  moreover have "collect_headers js (js_undefined js) w = (Inr [], w)"
    by (simp add: collect_headers_def absent_def js_ok_def)
  ultimately show ?case
    by (simp add: cbind_run assms(1-3) cbind_None_first)
qed simp

section \<open>Messages whose parts form a tree\<close>

























section \<open>Witnesses\<close>

text \<open>A message with one header, and a message that is its own part.\<close>

definition header_world :: sworld where
  "header_world = \<lparr>so_objs = [[(Named ''headers'', SObj 1)], [(Named ''X'', SStr ''v'')]], so_bufs = []\<rparr>"

definition cyclic_world :: sworld where
  "cyclic_world = \<lparr>so_objs = [[(Named ''parts'', SObj 1)], [(Named ''length'', SInt 1), (Index 0, SObj 0)]], so_bufs = []\<rparr>"

lemmas plain_reads = plain_js_ops sget_def nth_or_def

lemma header_message:
  "collect_message 1 plain_js (SObj 0) header_world =
     Some (Inr (MimeMessage [\<lparr>h_name = ''X'', h_value = ''v''\<rparr>] None [] None), header_world)"
proof -
  have "collect_headers plain_js (SObj 1) header_world = (Inr [\<lparr>h_name = ''X'', h_value = ''v''\<rparr>], header_world)"
    by (simp add: collect_headers_def collect_header_def absent_def plain_reads header_world_def js_simps js_bind_def
        type_result_def validate_header_name_def validate_header_value_def in_range_def)
  moreover have "sget header_world (SObj 0) (Named ''headers'') = SObj 1" "sget header_world (SObj 0) (Named ''parts'') = SUndef"
    "sget header_world (SObj 0) (Named ''body'') = SUndef" "sget header_world (SObj 0) (Named ''encoding'') = SUndef"
    by (simp_all add: header_world_def sget_def nth_or_def)
  ultimately show ?thesis
    by (simp add: cbind_def js_run_def plain_js_ops collect_parts_def absent_def collect_body_def collect_encoding_def
        js_simps cret_def)
qed

theorem collected_message_wf_witness:
  "\<exists>m. collect_message 1 plain_js (SObj 0) header_world = Some (Inr m, header_world) \<and> message_wf m"
  using collected_message_wf [OF header_message] header_message by blast

theorem cyclic_message_diverges_witness: "collect_message 1000 plain_js (SObj 0) cyclic_world = None"
  by (rule cyclic_message_diverges [where parts = "SObj 1" and l = "SInt 1" and n = 0])
    (simp_all add: plain_reads cyclic_world_def absent_def)



end
