(* ===== verification/Endpoint_Builtin.thy ===== *)
theory Endpoint_Builtin
  imports Codec_Builtins Endpoint Runtime
begin

text \<open>
  The module \<^verbatim>\<open>mechanics:endpoint\<close> as scripts see it, \<^verbatim>\<open>src/internal/runtime/builtins/endpoint.rs\<close> and the
  conversions of \<^verbatim>\<open>builtins/mod.rs\<close>: the options of a call from script values, the lookup of the endpoint
  in the state of the job, the call, and the response as a script object.
\<close>

section \<open>Options\<close>

definition parse_string_map_field ::
  "('w, 'e, 'v, 'n) js \<Rightarrow> ('n json \<Rightarrow> string) \<Rightarrow> 'v \<Rightarrow> string \<Rightarrow> ('w, 'e, string \<rightharpoonup> string) jsc"
where
  "parse_string_map_field js serde_error options field =
     js_bind (js_get js options (Named field)) (\<lambda>v.
     if v = js_undefined js \<or> v = js_null js then js_ok Map.empty
     else js_bind (js_to_json js v) (\<lambda>json.
       case json of
         Some (JObject ps) \<Rightarrow> js_bind (js_of (from_rust (string_entries serde_error ps))) (\<lambda>es. js_ok (map_of (rev es)))
       | _ \<Rightarrow> js_throw (js_type_error (field @ '' must be an object''))))"

definition parse_body :: "('w, 'e, 'v, 'n) js \<Rightarrow> 'v \<Rightarrow> ('w, 'e, 'n EndpointCallBody) jsc" where
  "parse_body js v =
     (if v = js_undefined js then js_ok CallAbsent
      else if v = js_null js then js_ok (CallJson JNull)
      else case js_as_string js v of
             Some s \<Rightarrow> js_ok (CallUtf8 s)
           | None \<Rightarrow>
               js_bind (try_extract_buffer_like_bytes js v) (\<lambda>r.
               case r of
                 Some bytes \<Rightarrow> js_ok (CallBytes bytes)
               | None \<Rightarrow>
                   js_bind (js_to_json js v) (\<lambda>json.
                   js_bind (js_of (ok_or (js_type_error ''body is not JSON-convertible'') json)) (\<lambda>j.
                   js_ok (CallJson j)))))"

definition parse_endpoint_call_options_js ::
  "('w, 'e, 'v, 'n) js \<Rightarrow> ('n json \<Rightarrow> string) \<Rightarrow> 'v \<Rightarrow> ('w, 'e, 'n EndpointCallOptions) jsc"
where
  "parse_endpoint_call_options_js js serde_error v =
     (if v = js_undefined js \<or> v = js_null js
      then js_ok \<lparr>eo_url_params = Map.empty, eo_queries = Map.empty, eo_headers = Map.empty, eo_body = CallAbsent\<rparr>
      else if \<not> js_is_object js v
      then js_throw (js_type_error ''endpoint options must be an object or null/undefined'')
      else
     js_bind (parse_string_map_field js serde_error v ''urlParams'') (\<lambda>url_params.
     js_bind (parse_string_map_field js serde_error v ''queries'') (\<lambda>queries.
     js_bind (parse_string_map_field js serde_error v ''headers'') (\<lambda>headers.
     js_bind (js_get js v (Named ''body'')) (\<lambda>b.
     js_bind (parse_body js b) (\<lambda>body.
     js_ok \<lparr>eo_url_params = url_params, eo_queries = queries, eo_headers = headers, eo_body = body\<rparr>))))))"

section \<open>The response\<close>

text \<open>\<open>entries\<close> lists the entries of a hash map in the order of its iteration.\<close>

definition endpoint_response_to_js_value ::
  "('w, 'e, 'v, 'n) js \<Rightarrow> ((string \<rightharpoonup> string) \<Rightarrow> pairs) \<Rightarrow> 'n EndpointResponse \<Rightarrow> ('w, 'e, 'v) jsc"
where
  "endpoint_response_to_js_value js entries response =
     js_bind (case er_body response of
                RespJson v \<Rightarrow> js_from_json js v
              | RespUtf8 s \<Rightarrow> js_ok (js_string_value js s)
              | RespBytes bytes \<Rightarrow> bytes_to_uint8_array_value js bytes
              | RespEmpty \<Rightarrow> js_ok (js_null js)) (\<lambda>body.
     js_bind (js_from_json js (JObject (map (\<lambda>(k, v). (k, JString v)) (entries (er_headers response))))) (\<lambda>headers.
     js_bind (js_new js) (\<lambda>object.
     js_bind (js_set js object (Named ''body'') body) (\<lambda>_.
     js_bind (js_set js object (Named ''headers'') headers) (\<lambda>_.
     js_bind (js_set js object (Named ''status'') (js_int js (int (er_status response)))) (\<lambda>_.
     js_bind (js_set js object (Named ''ok'') (js_bool js (er_ok response))) (\<lambda>_.
     js_ok object)))))))"

section \<open>The call\<close>

text \<open>
  \<open>get_state\<close> is the state of the job that the runtime put into the context. The client of the state is
  the environment of the call.
\<close>

type_synonym ('w, 'n, 'hn, 'hv, 'h) job_state =
  "(http_endpoint, string list, ('w, 'n, 'hn, 'hv, 'h) call_env) MechanicsState"

definition endpoint_request ::
  "('w, 'n, 'hn, 'hv, 'h) job_state \<Rightarrow> string \<Rightarrow> http_endpoint \<Rightarrow> string list \<Rightarrow> 'n EndpointCallOptions
     \<Rightarrow> ('w, 'e, 'n EndpointResponse) jsc"
where
  "endpoint_request state name endpoint prepared req_options w =
     (case execute_endpoint (ms_http_client state) endpoint prepared (ms_default_timeout_ms state)
             (ms_default_response_max_bytes state) req_options w of
        (r, w1) \<Rightarrow>
          (map_err (\<lambda>e. RustExn (io_new (ie_kind e) (''endpoint `'' @ name @ ''` request failed: '' @ ie_message e))) r, w1))"

definition endpoint ::
  "('w, 'e, 'v, 'n) js \<Rightarrow> ('n json \<Rightarrow> string) \<Rightarrow> ((string \<rightharpoonup> string) \<Rightarrow> pairs)
     \<Rightarrow> ('w \<Rightarrow> ('w, 'n, 'hn, 'hv, 'h) job_state option) \<Rightarrow> 'v list \<Rightarrow> ('w, 'e, 'v) jsc"
where
  "endpoint js serde_error entries get_state args =
     js_bind (js_of (ok_or (js_type_error ''endpoint is not a string'') (js_as_string js (arg js args 0)))) (\<lambda>name.
     js_bind (parse_endpoint_call_options_js js serde_error (arg js args 1)) (\<lambda>req_options.
     js_bind (\<lambda>w. (ok_or (js_type_error ''Invalid state'') (get_state w), w)) (\<lambda>state.
     js_bind (js_of (ok_or (js_type_error ''Endpoint not found'') (state_endpoint state name))) (\<lambda>(endpoint, prepared).
     js_bind (endpoint_request state name endpoint prepared req_options) (\<lambda>res.
     endpoint_response_to_js_value js entries res)))))"

end
