(* ===== verification/Endpoint_Builtin_Properties.thy ===== *)
theory Endpoint_Builtin_Properties
  imports Endpoint_Builtin Endpoint_Properties Small_Js
begin

text \<open>
  Correctness of the endpoint function of scripts: a call reaches the network only for an endpoint that
  the job configures, and then with at most as many requests as the retry policy of the endpoint allows.
\<close>

section \<open>What the conversions keep\<close>

text \<open>The engine operations used by the conversions keep a relation between worlds.\<close>

definition engine_keeps :: "('w \<Rightarrow> 'w \<Rightarrow> bool) \<Rightarrow> ('w, 'e, 'v, 'n) js \<Rightarrow> bool" where
  "engine_keeps R js \<longleftrightarrow>
     (\<forall>v k. js_keeps R (js_get js v k)) \<and> (\<forall>v k x. js_keeps R (js_set js v k x)) \<and> (\<forall>v. js_keeps R (js_to_json js v))
     \<and> (\<forall>j. js_keeps R (js_from_json js j)) \<and> js_keeps R (js_new js) \<and> (\<forall>b. js_keeps R (js_uint8_array js b))
     \<and> (\<forall>v. js_keeps R (js_typed_buffer js v) \<and> js_keeps R (js_typed_offset js v) \<and> js_keeps R (js_typed_length js v))
     \<and> (\<forall>v. js_keeps R (js_view_buffer js v) \<and> js_keeps R (js_view_offset js v) \<and> js_keeps R (js_view_length js v))"

lemma keeps_extract:
  assumes "engine_keeps R js" "reflp R" "transp R"
  shows "js_keeps R (try_extract_buffer_like_bytes js v)"
proof -
  have "js_keeps R (read_bytes_from_array_buffer_range js b i n)" "js_keeps R (\<lambda>w. (f w, w))" for b i n f
    using assms(2) by (simp_all add: js_keeps_def read_bytes_from_array_buffer_range_def reflpD)
  with assms show ?thesis
    unfolding try_extract_buffer_like_bytes_def buffer_range_def typed_range_def view_range_def engine_keeps_def
    by (auto intro!: js_keeps_basic js_keeps_bind split: option.split)
qed

lemma keeps_options:
  assumes "engine_keeps R js" "reflp R" "transp R"
  shows "js_keeps R (parse_endpoint_call_options_js js serde_error v)"
proof -
  have "js_keeps R (js_get js v k)" "js_keeps R (js_to_json js v)" for v k using assms(1) by (simp_all add: engine_keeps_def)
  note k = this js_keeps_basic [OF assms(2)] js_keeps_bind [OF assms(3)] keeps_extract [OF assms]
  have "js_keeps R (parse_string_map_field js serde_error v f)" "js_keeps R (parse_body js b)" for v f b
    unfolding parse_string_map_field_def parse_body_def by (auto intro!: k split: option.split json.split)
  with k show ?thesis unfolding parse_endpoint_call_options_js_def by (auto intro!: k)
qed

lemma keeps_response:
  assumes "engine_keeps R js" "reflp R" "transp R"
  shows "js_keeps R (endpoint_response_to_js_value js entries res)"
  using assms(1) unfolding endpoint_response_to_js_value_def engine_keeps_def bytes_to_uint8_array_value_def
  by (auto intro!: js_keeps_basic [OF assms(2)] js_keeps_bind [OF assms(3)] split: EndpointResponseBody.split)

section \<open>Requests\<close>

text \<open>The number of requests a call may make: none without a configured endpoint.\<close>

definition allowed_requests :: "('w, 'n, 'hn, 'hv, 'h) job_state option \<Rightarrow> string option \<Rightarrow> nat" where
  "allowed_requests state name =
     (case Option.bind state (\<lambda>st. Option.bind name (state_endpoint st)) of
        None \<Rightarrow> 0
      | Some (he, _) \<Rightarrow> rp_max_attempts (he_retry_policy he))"

text \<open>
  Property C32: a script reaches the network only through configured endpoints. A call of the endpoint
  function makes no request when its first argument is not the name of an endpoint of the job, and
  otherwise at most as many as the retry policy of that endpoint allows; reading the options and
  building the response make none.
\<close>

theorem endpoint_requests_bounded:
  fixes js :: "('w, 'e, 'v, 'n) js"
  assumes "engine_keeps (\<lambda>w w'. n w' = n w \<and> get_state w' = get_state w) js"
    and "\<And>st. get_state w = Some st \<Longrightarrow> counts_requests (ms_http_client st) n"
  shows "n (snd (endpoint js serde_error entries get_state args w))
    \<le> n w + allowed_requests (get_state w) (js_as_string js (arg js args 0))"
proof -
  let ?R = "\<lambda>w w'. n w' = n w \<and> get_state w' = get_state w"
  have rt: "reflp ?R" "transp ?R" by (simp_all add: reflp_def transp_def)
  obtain r w1 where o: "parse_endpoint_call_options_js js serde_error (arg js args 1) w = (r, w1)" by (meson surj_pair)
  have w1: "?R w w1" using keeps_options [OF assms(1) rt, of serde_error "arg js args 1"] o unfolding js_keeps_def by (metis snd_conv)
  have res: "?R v (snd (endpoint_response_to_js_value js entries x v))" for x v
    using keeps_response [OF assms(1) rt] by (simp add: js_keeps_def)
  show ?thesis
  proof (cases "\<exists>name opts st. js_as_string js (arg js args 0) = Some name \<and> r = Inr opts \<and> get_state w = Some st
      \<and> state_endpoint st name \<noteq> None")
    case False
    then have "snd (endpoint js serde_error entries get_state args w) \<in> {w, w1}"
      using o w1 by (auto simp: endpoint_def js_bind_def js_simps ok_or_def split: option.splits sum.splits)
    then show ?thesis using w1 by auto
  next
    case True
    then obtain name opts st he al where t: "js_as_string js (arg js args 0) = Some name" "r = Inr opts"
      "get_state w = Some st" "state_endpoint st name = Some (he, al)" by auto
    obtain r2 :: "('e js_exception, 'n EndpointResponse) result" and w2
      where e: "endpoint_request st name he al opts w1 = (r2, w2)" by (meson surj_pair)
    have "w2 = snd (execute_endpoint (ms_http_client st) he al (ms_default_timeout_ms st) (ms_default_response_max_bytes st) opts w1)"
      using e by (auto simp: endpoint_request_def split: prod.splits)
    then have "n w2 \<le> n w1 + rp_max_attempts (he_retry_policy he)"
      using call_attemptsD [OF assms(2) [OF t(3)]] by simp
    moreover have "snd (endpoint js serde_error entries get_state args w) =
        (case r2 of Inl _ \<Rightarrow> w2 | Inr x \<Rightarrow> snd (endpoint_response_to_js_value js entries x w2))"
      using t o w1 e by (simp add: endpoint_def js_bind_def js_simps split: sum.split)
    ultimately show ?thesis using t w1 res by (auto simp: allowed_requests_def split: sum.split)
  qed
qed

section \<open>A witness\<close>

text \<open>
  The small server of the endpoint calls with the engine as a third part of the world; its client and
  clock see time and number of requests.
\<close>

definition job_timing :: "((nat \<times> nat) \<times> sworld, string transport_result) timing" where
  "job_timing = \<lparr>tm_now = (\<lambda>w. (fst (fst w), w)), tm_clock_max = 10 ^ 18,
     tm_sleep = (\<lambda>d w. ((fst (fst w) + d, snd (fst w)), snd w)), tm_timeout = (\<lambda>_ f w. case f w of (r, w1) \<Rightarrow> (Some r, w1))\<rparr>"

definition job_env :: "((nat \<times> nat) \<times> sworld, nat, string, string, (string \<times> string) list) call_env" where
  "job_env = \<lparr>ce_timing = job_timing,
     ce_execute = (\<lambda>req w. (Inr \<lparr>erp_status = 200, erp_headers = [], erp_content_length = None, erp_body = ''ok''\<rparr>,
       ((fst (fst w) + 10, snd (fst w) + 1), snd w))),
     ce_header_map = small_header_map, ce_parse_url = Inr, ce_parse_json = (\<lambda>_. Inl ''no json''),
     ce_utf8_error = (\<lambda>_. ''invalid''), ce_version = ''1''\<rparr>"

definition small_job_state :: "((nat \<times> nat) \<times> sworld, nat, string, string, (string \<times> string) list) job_state" where
  "small_job_state = \<lparr>ms_endpoints = [''e'' \<mapsto> small_endpoint], ms_http_client = job_env, ms_default_timeout_ms = None,
     ms_default_response_max_bytes = None, ms_prepared_endpoints = [''e'' \<mapsto> []]\<rparr>"

definition job_js :: "((nat \<times> nat) \<times> sworld, unit, sval, nat) js" where
  "job_js = small_js snd (\<lambda>s w. (fst w, s))"

lemma job_engine_keeps: "engine_keeps (\<lambda>w w'. snd (fst w') = snd (fst w) \<and> Some small_job_state = Some small_job_state) job_js"
  by (auto simp: engine_keeps_def js_keeps_def job_js_def small_js_def Let_def js_new_def split: prod.splits)

theorem endpoint_requests_bounded_witness:
  "snd (fst (snd (endpoint job_js (\<lambda>_. []) (\<lambda>_. []) (\<lambda>_. Some small_job_state) [SStr ''e''] ((0, 0), \<lparr>so_objs = [], so_bufs = []\<rparr>)))) \<le> 3"
proof -
  have "counts_requests (ms_http_client small_job_state) (\<lambda>w. snd (fst w))"
    by (simp add: counts_requests_def small_job_state_def job_env_def job_timing_def)
  with endpoint_requests_bounded [OF job_engine_keeps, where w = "((0, 0), \<lparr>so_objs = [], so_bufs = []\<rparr>)" and args = "[SStr ''e'']"]
  show ?thesis
    by (simp add: allowed_requests_def arg_def job_js_def small_js_def Let_def state_endpoint_def)
      (simp add: small_job_state_def small_endpoint_def small_policy_def)
qed

end
