(* ===== verification/Builtin_Modules.thy ===== *)
theory Builtin_Modules
  imports Executor
begin

text \<open>
  The registration of the built-in modules, \<^verbatim>\<open>src/internal/runtime/builtins/mod.rs\<close> and the functions
  \<^verbatim>\<open>register\<close> of its modules. A synthetic module declares its exports and has an initializer that sets
  them; a native function is named by its Rust function.
\<close>

section \<open>Modules\<close>

datatype export_value =
    NativeFunction (nf_fn: string) (nf_name: string) (nf_length: nat)
  | ClassConstructor string
  | JsObject "(string \<times> export_value) list"

record synthetic_module =
  sm_exports :: "string list"
  sm_init :: "(string \<times> export_value) list"

text \<open>The features of the build.\<close>

record features =
  ft_encoding :: bool
  ft_rand :: bool
  ft_html :: bool
  ft_console :: bool
  ft_url :: bool
  ft_mime :: bool

type_synonym loader = "synthetic_module module_loader"

record CodecModuleSpec =
  cs_module_name :: string
  cs_encode_name :: string
  cs_encode_fn :: string
  cs_encode_length :: nat
  cs_decode_name :: string
  cs_decode_fn :: string
  cs_decode_length :: nat

definition register_codec_module :: "CodecModuleSpec \<Rightarrow> loader \<Rightarrow> loader" where
  "register_codec_module spec =
     (let encode = NativeFunction (cs_encode_fn spec) (cs_encode_name spec) (cs_encode_length spec);
          decode = NativeFunction (cs_decode_fn spec) (cs_decode_name spec) (cs_decode_length spec)
      in define_module (cs_module_name spec)
           \<lparr>sm_exports = [cs_encode_name spec, cs_decode_name spec],
            sm_init = [(cs_encode_name spec, encode), (cs_decode_name spec, decode)]\<rparr>)"

definition register_base64 :: "loader \<Rightarrow> loader" where
  "register_base64 = register_codec_module
     \<lparr>cs_module_name = ''mechanics:base64'', cs_encode_name = ''encode'', cs_encode_fn = ''base64_encode'',
      cs_encode_length = 2, cs_decode_name = ''decode'', cs_decode_fn = ''base64_decode'', cs_decode_length = 2\<rparr>"

definition register_base32 :: "loader \<Rightarrow> loader" where
  "register_base32 = register_codec_module
     \<lparr>cs_module_name = ''mechanics:base32'', cs_encode_name = ''encode'', cs_encode_fn = ''base32_encode'',
      cs_encode_length = 2, cs_decode_name = ''decode'', cs_decode_fn = ''base32_decode'', cs_decode_length = 2\<rparr>"

definition register_hex :: "loader \<Rightarrow> loader" where
  "register_hex = register_codec_module
     \<lparr>cs_module_name = ''mechanics:hex'', cs_encode_name = ''encode'', cs_encode_fn = ''hex_encode'',
      cs_encode_length = 1, cs_decode_name = ''decode'', cs_decode_fn = ''hex_decode'', cs_decode_length = 1\<rparr>"

definition register_form_urlencoded :: "loader \<Rightarrow> loader" where
  "register_form_urlencoded = register_codec_module
     \<lparr>cs_module_name = ''mechanics:form-urlencoded'', cs_encode_name = ''encode'', cs_encode_fn = ''form_urlencode_encode'',
      cs_encode_length = 1, cs_decode_name = ''decode'', cs_decode_fn = ''form_urlencode_decode'', cs_decode_length = 1\<rparr>"

definition register_endpoint :: "loader \<Rightarrow> loader" where
  "register_endpoint = define_module ''mechanics:endpoint''
     \<lparr>sm_exports = [''default''], sm_init = [(''default'', NativeFunction ''endpoint'' ''endpoint'' 2)]\<rparr>"

definition register_rand :: "loader \<Rightarrow> loader" where
  "register_rand = define_module ''mechanics:rand''
     \<lparr>sm_exports = [''default''], sm_init = [(''default'', NativeFunction ''rand_fill_random'' ''fillRandom'' 1)]\<rparr>"

definition register_uuid :: "loader \<Rightarrow> loader" where
  "register_uuid = define_module ''mechanics:uuid''
     \<lparr>sm_exports = [''default''], sm_init = [(''default'', NativeFunction ''uuid_generate'' ''uuid'' 2)]\<rparr>"

definition register_html :: "loader \<Rightarrow> loader" where
  "register_html = define_module ''mechanics:html''
     \<lparr>sm_exports = [''escapeText'', ''escapeAttribute'', ''unescapeText'', ''unescapeAttribute''],
      sm_init =
        [(''escapeText'', NativeFunction ''escape_text'' ''escapeText'' 1),
         (''escapeAttribute'', NativeFunction ''escape_attribute'' ''escapeAttribute'' 1),
         (''unescapeText'', NativeFunction ''unescape_text'' ''unescapeText'' 1),
         (''unescapeAttribute'', NativeFunction ''unescape_attribute'' ''unescapeAttribute'' 1)]\<rparr>"

definition console_method :: "string \<Rightarrow> export_value" where
  "console_method name = NativeFunction ''console_noop'' name 0"

text \<open>
  \<open>set_result\<close> is the engine's answer when a property of the new object is set, \<open>Some e\<close> an exception. The
  module of a console that could not be built is left out without an error.
\<close>

primrec set_methods :: "(string \<Rightarrow> 'e option) \<Rightarrow> string list \<Rightarrow> (string \<times> export_value) list
    \<Rightarrow> ('e, (string \<times> export_value) list) result" where
  "set_methods set_result [] ps = Inr ps"
| "set_methods set_result (name # names) ps =
     (case set_result name of
        Some e \<Rightarrow> Inl e
      | None \<Rightarrow> set_methods set_result names (ps @ [(name, console_method name)]))"

definition console_object :: "(string \<Rightarrow> 'e option) \<Rightarrow> ('e, export_value) result" where
  "console_object set_result =
     map_sum id JsObject (set_methods set_result [''log'', ''info'', ''warn'', ''error'', ''debug''] [])"

definition register_console :: "(string \<Rightarrow> 'e option) \<Rightarrow> loader \<Rightarrow> loader" where
  "register_console set_result l =
     (case console_object set_result of
        Inl _ \<Rightarrow> l
      | Inr console \<Rightarrow> define_module ''mechanics:console''
          \<lparr>sm_exports = [''default''], sm_init = [(''default'', console)]\<rparr> l)"

text \<open>
  The members of a class; a property key is a string or the symbol of the iterator. Every accessor is
  configurable and enumerable.
\<close>

datatype member_key = StringKey string | IteratorSymbol

datatype class_member =
    Accessor member_key (acc_get: "export_value option") (acc_set: "export_value option")
  | Method member_key nat string
  | StaticMethod member_key nat string

primrec member_slot :: "class_member \<Rightarrow> bool \<times> member_key" where
  "member_slot (Accessor k _ _) = (False, k)"
| "member_slot (Method k _ _) = (False, k)"
| "member_slot (StaticMethod k _ _) = (True, k)"

record class_desc =
  cl_name :: string
  cl_length :: nat
  cl_members :: "class_member list"

type_synonym realm = "string \<rightharpoonup> class_desc"

definition make_accessor :: "string \<Rightarrow> string \<Rightarrow> export_value" where
  "make_accessor name f = NativeFunction f name 0"

definition url_class :: class_desc where
  "url_class =
     (let accessor = (\<lambda>name f. Accessor (StringKey name) (Some (make_accessor (''get '' @ name) (''url_'' @ f @ ''_get''))));
          read_write = (\<lambda>name. accessor name name (Some (make_accessor (''set '' @ name) (''url_'' @ name @ ''_set''))));
          read_only = (\<lambda>name f. accessor name f None)
      in \<lparr>cl_name = ''URL'', cl_length = 1, cl_members =
        [read_write ''href'', read_only ''origin'' ''origin'', read_write ''protocol'',
         read_write ''username'', read_write ''password'', read_write ''host'', read_write ''hostname'',
         read_write ''port'', read_write ''pathname'', read_write ''search'',
         read_only ''searchParams'' ''search_params'', read_write ''hash'',
         Method (StringKey ''toString'') 0 ''url_to_string'', Method (StringKey ''toJSON'') 0 ''url_to_string'',
         StaticMethod (StringKey ''canParse'') 1 ''url_can_parse'', StaticMethod (StringKey ''parse'') 1 ''url_parse'']\<rparr>)"

definition url_search_params_class :: class_desc where
  "url_search_params_class =
     \<lparr>cl_name = ''URLSearchParams'', cl_length = 0, cl_members =
       [Method (StringKey ''append'') 2 ''params_append'', Method (StringKey ''delete'') 1 ''params_delete'',
        Method (StringKey ''get'') 1 ''params_get'', Method (StringKey ''getAll'') 1 ''params_get_all'',
        Method (StringKey ''has'') 1 ''params_has'', Method (StringKey ''set'') 2 ''params_set'',
        Method (StringKey ''sort'') 0 ''params_sort'', Method (StringKey ''toString'') 0 ''params_to_string'',
        Method (StringKey ''entries'') 0 ''params_entries'', Method (StringKey ''keys'') 0 ''params_keys'',
        Method (StringKey ''values'') 0 ''params_values'', Method (StringKey ''forEach'') 1 ''params_for_each'',
        Method IteratorSymbol 0 ''params_entries'',
        Accessor (StringKey ''size'') (Some (make_accessor ''get size'' ''params_size_get'')) None]\<rparr>"

text \<open>Both functions \<^verbatim>\<open>init\<close> end in \<^verbatim>\<open>Ok(())\<close>, so that a registration of a class here has no error.\<close>

definition register_class :: "class_desc \<Rightarrow> realm \<Rightarrow> export_value \<times> realm" where
  "register_class c realm =
     (case realm (cl_name c) of
        Some c' \<Rightarrow> (ClassConstructor (cl_name c'), realm)
      | None \<Rightarrow> (ClassConstructor (cl_name c), realm(cl_name c \<mapsto> c)))"

definition register_url :: "loader \<times> realm \<Rightarrow> loader \<times> realm" where
  "register_url = (\<lambda>(l, realm).
     let (url_constructor, realm) = register_class url_class realm;
         (params_constructor, realm) = register_class url_search_params_class realm
     in (define_module ''mechanics:url''
           \<lparr>sm_exports = [''default'', ''URLSearchParams''],
            sm_init = [(''default'', url_constructor), (''URLSearchParams'', params_constructor)]\<rparr> l, realm))"

definition register_mime :: "loader \<Rightarrow> loader" where
  "register_mime = define_module ''mechanics:mime''
     \<lparr>sm_exports = [''compose'', ''parse''],
      sm_init = [(''compose'', NativeFunction ''compose'' ''compose'' 1), (''parse'', NativeFunction ''parse'' ''parse'' 1)]\<rparr>"

definition bundle_builtin_modules :: "features \<Rightarrow> (string \<Rightarrow> 'e option) \<Rightarrow> loader \<times> realm \<Rightarrow> loader \<times> realm" where
  "bundle_builtin_modules ft set_result = (\<lambda>(l, realm).
      let l = register_endpoint l;
          l = (if ft_encoding ft
               then register_base32 (register_hex (register_base64 (register_form_urlencoded l))) else l);
          l = (if ft_rand ft then register_uuid (register_rand l) else l);
          l = (if ft_html ft then register_html l else l);
          l = (if ft_console ft then register_console set_result l else l);
          (l, realm) = (if ft_url ft then register_url (l, realm) else (l, realm))
      in (if ft_mime ft then register_mime l else l, realm))"

section \<open>Correctness\<close>

text \<open>An initializer that sets exactly the declared exports, each once.\<close>

definition module_wf :: "synthetic_module \<Rightarrow> bool" where
  "module_wf m \<longleftrightarrow> map fst (sm_init m) = sm_exports m \<and> distinct (sm_exports m)"

text \<open>The modules a build offers.\<close>

definition module_names :: "features \<Rightarrow> bool \<Rightarrow> string list" where
  "module_names ft console_built =
     [''mechanics:endpoint'']
     @ (if ft_encoding ft then [''mechanics:form-urlencoded'', ''mechanics:base64'', ''mechanics:hex'', ''mechanics:base32''] else [])
     @ (if ft_rand ft then [''mechanics:rand'', ''mechanics:uuid''] else [])
     @ (if ft_html ft then [''mechanics:html''] else [])
     @ (if ft_console ft \<and> console_built then [''mechanics:console''] else [])
     @ (if ft_url ft then [''mechanics:url''] else [])
     @ (if ft_mime ft then [''mechanics:mime''] else [])"

lemma define_module_dom: "dom (define_module n m l) = insert n (dom l)"
  by (simp add: define_module_def)

text \<open>A loader all of whose modules set what they declare.\<close>

definition loader_wf :: "loader \<Rightarrow> bool" where
  "loader_wf l \<longleftrightarrow> (\<forall>m \<in> ran l. module_wf m)"

lemma define_module_wf: "loader_wf l \<Longrightarrow> module_wf m \<Longrightarrow> loader_wf (define_module n m l)"
  by (auto simp: loader_wf_def define_module_def ran_def)

lemma set_methods_Inr: "set_methods set_result names ps = Inr qs \<Longrightarrow> list_all (\<lambda>n. set_result n = None) names"
  by (induction names arbitrary: ps) (auto split: option.splits)

lemma set_methods_ok: "list_all (\<lambda>n. set_result n = None) names \<Longrightarrow>
    set_methods set_result names ps = Inr (ps @ map (\<lambda>n. (n, console_method n)) names)"
  by (induction names arbitrary: ps) auto

definition console_built :: "(string \<Rightarrow> 'e option) \<Rightarrow> bool" where
  "console_built set_result \<longleftrightarrow>
     list_all (\<lambda>n. set_result n = None) [''log'', ''info'', ''warn'', ''error'', ''debug'']"

lemma register_console_cases:
  "register_console set_result l =
     (if console_built set_result
      then define_module ''mechanics:console'' \<lparr>sm_exports = [''default''], sm_init = [(''default'',
        JsObject (map (\<lambda>n. (n, console_method n)) [''log'', ''info'', ''warn'', ''error'', ''debug'']))]\<rparr> l
      else l)"
proof (cases "console_built set_result")
  case True
  then show ?thesis
    by (simp only: register_console_def console_object_def console_built_def set_methods_ok if_True) simp
next
  case False
  then obtain e where "set_methods set_result [''log'', ''info'', ''warn'', ''error'', ''debug''] [] = Inl e"
    unfolding console_built_def using set_methods_Inr by (metis sumE)
  with False show ?thesis
    by (simp only: register_console_def console_object_def if_False map_sum.simps sum.case)
qed

text \<open>A registration that adds the modules of the given names, all of them well-formed.\<close>

definition offers :: "(loader \<Rightarrow> loader) \<Rightarrow> string list \<Rightarrow> bool" where
  "offers f names \<longleftrightarrow> (\<forall>l. dom (f l) = dom l \<union> set names \<and> (loader_wf l \<longrightarrow> loader_wf (f l)))"

lemma offers_define: "module_wf m \<Longrightarrow> offers (define_module n m) [n]"
  by (simp add: offers_def define_module_dom define_module_wf)

lemma offers_comp: "offers f ns \<Longrightarrow> offers g ms \<Longrightarrow> offers (\<lambda>l. g (f l)) (ns @ ms)"
  unfolding offers_def by (metis set_append Un_assoc)

lemma offers_if: "offers f ns \<Longrightarrow> offers (\<lambda>l. if b then f l else l) (if b then ns else [])"
  by (simp add: offers_def)

lemma offers_codec: "cs_encode_name spec \<noteq> cs_decode_name spec \<Longrightarrow> offers (register_codec_module spec) [cs_module_name spec]"
  unfolding register_codec_module_def Let_def by (rule offers_define) (simp add: module_wf_def)

lemma register_encoding_offers:
  "offers register_form_urlencoded [''mechanics:form-urlencoded'']"
  "offers register_base64 [''mechanics:base64'']"
  "offers register_hex [''mechanics:hex'']"
  "offers register_base32 [''mechanics:base32'']"
  unfolding register_form_urlencoded_def register_base64_def register_hex_def register_base32_def
  by (rule offers_codec [where spec = "CodecModuleSpec.make _ _ _ _ _ _ _", unfolded CodecModuleSpec.defs CodecModuleSpec.simps]; simp)+

lemma register_function_offers:
  "offers register_endpoint [''mechanics:endpoint'']"
  "offers register_rand [''mechanics:rand'']"
  "offers register_uuid [''mechanics:uuid'']"
  "offers register_html [''mechanics:html'']"
  "offers register_mime [''mechanics:mime'']"
  unfolding register_endpoint_def register_rand_def register_uuid_def register_html_def register_mime_def
  by (rule offers_define; simp add: module_wf_def)+

lemma register_console_offers:
  "offers (register_console set_result) (if console_built set_result then [''mechanics:console''] else [])"
  unfolding register_console_cases by (intro offers_if offers_define) (simp add: module_wf_def)

lemma register_url_offers: "offers (\<lambda>l. fst (register_url (l, realm))) [''mechanics:url'']"
  unfolding register_url_def by (simp only: prod.case split_beta Let_def fst_conv snd_conv)
    (rule offers_define; simp add: module_wf_def)

lemma bundle_offers:
  "offers (\<lambda>l. fst (bundle_builtin_modules ft set_result (l, realm)))
     (module_names ft (console_built set_result))"
proof -
  have loader: "fst (bundle_builtin_modules ft set_result (l, realm)) =
      (\<lambda>l. if ft_mime ft then register_mime l else l)
       ((\<lambda>l. if ft_url ft then fst (register_url (l, realm)) else l)
        ((\<lambda>l. if ft_console ft then register_console set_result l else l)
         ((\<lambda>l. if ft_html ft then register_html l else l)
          ((\<lambda>l. if ft_rand ft then register_uuid (register_rand l) else l)
           ((\<lambda>l. if ft_encoding ft
              then register_base32 (register_hex (register_base64 (register_form_urlencoded l))) else l)
            (register_endpoint l))))))" for l
    by (simp only: bundle_builtin_modules_def Let_def split_beta prod.case fst_conv snd_conv if_distrib [of fst])
  have names: "module_names ft (console_built set_result) =
      ((((([''mechanics:endpoint'']
        @ (if ft_encoding ft then (([''mechanics:form-urlencoded''] @ [''mechanics:base64'']) @ [''mechanics:hex'']) @ [''mechanics:base32''] else []))
        @ (if ft_rand ft then [''mechanics:rand''] @ [''mechanics:uuid''] else []))
        @ (if ft_html ft then [''mechanics:html''] else []))
        @ (if ft_console ft then if console_built set_result then [''mechanics:console''] else [] else []))
        @ (if ft_url ft then [''mechanics:url''] else []))
        @ (if ft_mime ft then [''mechanics:mime''] else [])"
    by (simp add: module_names_def)
  note encoding = offers_comp [OF offers_comp [OF offers_comp [OF register_encoding_offers(1,2)]
      register_encoding_offers(3)] register_encoding_offers(4)]
  note random = offers_comp [OF register_function_offers(2,3)]
  show ?thesis
    unfolding loader names
    by (rule offers_comp [OF offers_comp [OF offers_comp [OF offers_comp [OF offers_comp [OF offers_comp
          [OF register_function_offers(1) offers_if [OF encoding]] offers_if [OF random]]
          offers_if [OF register_function_offers(4)]] offers_if [OF register_console_offers]]
          offers_if [OF register_url_offers]] offers_if [OF register_function_offers(5)]])
qed

text \<open>The members of a class do not hide each other.\<close>

lemma url_class_members: "distinct (map member_slot (cl_members url_class))"
  by (simp add: url_class_def Let_def)

lemma url_search_params_class_members: "distinct (map member_slot (cl_members url_search_params_class))"
  by (simp add: url_search_params_class_def)

text \<open>
  A fresh loader offers exactly the modules of the enabled features, and the initializer of
  each of them sets every export the module declares, once and no other. Every other specifier, a
  misspelt one or one of a feature that is switched off, is an import error; so is the console when the
  engine failed to build its object.
\<close>

theorem builtin_modules_offered:
  "if spec \<in> set (module_names ft (console_built set_result))
   then (\<exists>m. load_imported_module (fst (bundle_builtin_modules ft set_result (Map.empty, realm))) spec = Inr m
          \<and> module_wf m)
   else load_imported_module (fst (bundle_builtin_modules ft set_result (Map.empty, realm))) spec
          = Inl ''Module not found''"
proof -
  let ?l = "fst (bundle_builtin_modules ft set_result (Map.empty, realm))"
  have empty_wf: "loader_wf Map.empty" by (simp add: loader_wf_def)
  have dom: "dom ?l = set (module_names ft (console_built set_result))" and wf: "loader_wf ?l"
    using bundle_offers [of ft set_result realm, unfolded offers_def, rule_format, of Map.empty] empty_wf
    by simp_all
  show ?thesis
  proof (cases "?l spec")
    case None
    then have "spec \<notin> dom ?l" by (simp add: domIff)
    with None show ?thesis
      by (simp only: dom if_False load_imported_module_def) (simp add: ok_or_def)
  next
    case (Some m)
    then have "spec \<in> dom ?l" "m \<in> ran ?l" by (auto simp: ran_def)
    with Some wf show ?thesis
      by (simp only: dom if_True load_imported_module_def loader_wf_def) (simp add: ok_or_def)
  qed
qed

end
