(* ===== verification/Builtin_Calls.thy ===== *)
theory Builtin_Calls
  imports Builtin_Modules Url_Builtin Mime_Builtin Endpoint_Builtin
begin

text \<open>
  The functions behind the tables of the built-in modules: the native function of every name that
  \<^verbatim>\<open>src/internal/runtime/builtins/\<close> registers, as a computation on one world, and the call of an export.
\<close>

section \<open>Native functions\<close>

text \<open>The engine and the libraries that the native functions use.\<close>

record ('w, 'u, 'e, 'v, 'n, 'id, 'hn, 'hv, 'h) native_env =
  ne_js :: "('w, 'u, 'e, 'v, 'n) ujs"
  ne_classes :: "('w, 'u, 'e, 'v) uco"
  ne_url :: "'u url_lib"
  ne_form :: form_lib
  ne_encodings :: encodings
  ne_html :: html_lib
  ne_uuid :: "(('w, 'u) url_world, 'id) uuid_lib"
  ne_random :: "('w, 'u) url_world random_source"
  ne_codec :: codec
  ne_serde_error :: "'n json \<Rightarrow> string"
  ne_entries :: "(string \<rightharpoonup> string) \<Rightarrow> pairs"
  ne_state :: "('w, 'u) url_world \<Rightarrow> (('w, 'u) url_world, 'n, 'hn, 'hv, 'h) job_state option"

type_synonym ('w, 'u, 'e, 'v) native = "'v \<Rightarrow> 'v list \<Rightarrow> (('w, 'u) url_world, 'e js_exception, 'v) comp"

definition module_natives ::
  "('w, 'u, 'e, 'v, 'n, 'id, 'hn, 'hv, 'h) native_env \<Rightarrow> nat \<Rightarrow> (string \<times> ('w, 'u, 'e, 'v) native) list"
where
  "module_natives env fuel =
     (let js = ne_js env; en = ne_encodings env; hl = ne_html env; run = (\<lambda>f this args. js_run (f args))
      in [(''endpoint'', run (endpoint js (ne_serde_error env) (ne_entries env) (ne_state env))),
          (''form_urlencode_encode'', run (form_urlencode_encode js (ne_form env) (ne_serde_error env))),
          (''form_urlencode_decode'', run (form_urlencode_decode js (ne_form env))),
          (''base64_encode'', run (base64_encode js en)), (''base64_decode'', run (base64_decode js en)),
          (''hex_encode'', run (hex_encode js en)), (''hex_decode'', run (hex_decode js en)),
          (''base32_encode'', run (base32_encode js en)), (''base32_decode'', run (base32_decode js en)),
          (''rand_fill_random'', run (rand_fill_random js (ne_random env))),
          (''uuid_generate'', run (uuid_generate js (ne_uuid env) (ne_random env))),
          (''escape_text'', run (escape_text js hl)), (''escape_attribute'', run (escape_attribute js hl)),
          (''unescape_text'', run (unescape_text js hl)), (''unescape_attribute'', run (unescape_attribute js hl)),
          (''console_noop'', run (console_noop js)),
          (''compose'', \<lambda>this. compose fuel js (ne_codec env)), (''parse'', run (mime_parse js (ne_codec env)))])"

definition class_natives ::
  "('w, 'u, 'e, 'v, 'n, 'id, 'hn, 'hv, 'h) native_env \<Rightarrow> (string \<times> ('w, 'u, 'e, 'v) native) list"
where
  "class_natives env =
     (let js = ne_js env; co = ne_classes env; ul = ne_url env;
          getter = (\<lambda>f this args. js_run (f js co ul this)); run = (\<lambda>f this args. js_run (f js co ul this args));
          static = (\<lambda>f this args. js_run (f args))
      in [(''url_href_get'', getter url_href_get), (''url_href_set'', run url_href_set),
          (''url_origin_get'', getter url_origin_get),
          (''url_protocol_get'', getter url_protocol_get), (''url_protocol_set'', run url_protocol_set),
          (''url_username_get'', getter url_username_get), (''url_username_set'', run url_username_set),
          (''url_password_get'', getter url_password_get), (''url_password_set'', run url_password_set),
          (''url_host_get'', getter url_host_get), (''url_host_set'', run url_host_set),
          (''url_hostname_get'', getter url_hostname_get), (''url_hostname_set'', run url_hostname_set),
          (''url_port_get'', getter url_port_get), (''url_port_set'', run url_port_set),
          (''url_pathname_get'', getter url_pathname_get), (''url_pathname_set'', run url_pathname_set),
          (''url_search_get'', getter url_search_get), (''url_search_set'', run url_search_set),
          (''url_search_params_get'', getter url_search_params_get),
          (''url_hash_get'', getter url_hash_get), (''url_hash_set'', run url_hash_set),
          (''url_to_string'', getter url_to_string),
          (''url_can_parse'', static (url_can_parse js ul)), (''url_parse'', static (url_parse js co ul)),
          (''params_append'', run params_append), (''params_delete'', run params_delete),
          (''params_get'', run params_get), (''params_get_all'', run params_get_all),
          (''params_has'', run params_has), (''params_set'', run params_set), (''params_sort'', run params_sort),
          (''params_to_string'', run params_to_string), (''params_entries'', run params_entries),
          (''params_keys'', run params_keys), (''params_values'', run params_values),
          (''params_for_each'', run params_for_each), (''params_size_get'', run params_size_get)])"

section \<open>The tables name defined functions\<close>

fun native_names :: "export_value \<Rightarrow> string list" where
  "native_names (NativeFunction f name len) = [f]"
| "native_names (ClassConstructor c) = []"
| "native_names (JsObject ps) = map (nf_fn \<circ> snd) ps"

definition module_functions :: "synthetic_module \<Rightarrow> string list" where
  "module_functions m = concat (map (native_names \<circ> snd) (sm_init m))"

fun member_functions :: "class_member \<Rightarrow> string list" where
  "member_functions (Accessor k getter setter) = concat (map native_names (List.map_filter id [getter, setter]))"
| "member_functions (Method k len f) = [f]"
| "member_functions (StaticMethod k len f) = [f]"

definition class_functions :: "class_desc \<Rightarrow> string list" where
  "class_functions c = concat (map member_functions (cl_members c))"

definition known_functions :: "string list" where
  "known_functions =
     [''endpoint'', ''form_urlencode_encode'', ''form_urlencode_decode'', ''base64_encode'', ''base64_decode'',
      ''hex_encode'', ''hex_decode'', ''base32_encode'', ''base32_decode'', ''rand_fill_random'', ''uuid_generate'',
      ''escape_text'', ''escape_attribute'', ''unescape_text'', ''unescape_attribute'', ''console_noop'', ''compose'', ''parse'']"

lemma module_natives_names: "map fst (module_natives env fuel) = known_functions"
  by (simp add: module_natives_def Let_def known_functions_def)

definition known_module :: "synthetic_module \<Rightarrow> bool" where
  "known_module m \<longleftrightarrow> list_all (\<lambda>f. f \<in> set known_functions) (module_functions m)"

definition loader_known :: "loader \<Rightarrow> bool" where
  "loader_known l \<longleftrightarrow> (\<forall>m \<in> ran l. known_module m)"

lemma define_known: "loader_known l \<Longrightarrow> known_module m \<Longrightarrow> loader_known (define_module n m l)"
  by (auto simp: loader_known_def define_module_def ran_def)

lemmas known_simps = known_module_def module_functions_def known_functions_def

lemma register_known:
  assumes "loader_known l"
  shows "loader_known (register_form_urlencoded l)" "loader_known (register_base64 l)" "loader_known (register_hex l)"
    "loader_known (register_base32 l)" "loader_known (register_endpoint l)" "loader_known (register_rand l)"
    "loader_known (register_uuid l)" "loader_known (register_html l)" "loader_known (register_mime l)"
  unfolding register_form_urlencoded_def register_base64_def register_hex_def register_base32_def register_codec_module_def
    register_endpoint_def register_rand_def register_uuid_def register_html_def register_mime_def Let_def
  by (rule define_known [OF assms]; simp add: known_simps)+

lemma register_console_known: "loader_known l \<Longrightarrow> loader_known (register_console set_result l)"
  unfolding register_console_cases by (auto simp: known_simps console_method_def intro!: define_known)

lemma register_url_known: "loader_known l \<Longrightarrow> loader_known (fst (register_url (l, realm)))"
  unfolding register_url_def
  by (auto simp: split_beta Let_def register_class_def known_simps intro!: define_known split: option.splits)

lemma bundle_known: "loader_known l \<Longrightarrow> loader_known (fst (bundle_builtin_modules ft set_result (l, realm)))"
  unfolding bundle_builtin_modules_def
  by (simp add: Let_def split_beta if_distrib [of fst] register_known register_console_known register_url_known)


text \<open>
  Every native function that a module of any build exports is one of the modelled functions, and so is
  every accessor and method of the two classes.
\<close>

theorem exported_functions_defined:
  assumes "load_imported_module (fst (bundle_builtin_modules ft set_result (Map.empty, realm))) spec = Inr m"
    and "f \<in> set (module_functions m)"
  shows "map_of (module_natives env fuel) f \<noteq> None"
proof -
  have "loader_known (fst (bundle_builtin_modules ft set_result (Map.empty, realm)))"
    by (rule bundle_known) (simp add: loader_known_def)
  moreover have "m \<in> ran (fst (bundle_builtin_modules ft set_result (Map.empty, realm)))"
    using assms(1) by (auto simp: load_imported_module_def ok_or_def ran_def split: option.splits)
  ultimately have "f \<in> set known_functions"
    using assms(2) by (auto simp: loader_known_def known_module_def list_all_iff)
  then have "f \<in> fst ` set (module_natives env fuel)"
    by (simp only: module_natives_names [of env fuel, symmetric] set_map)
  then show ?thesis by (simp add: map_of_eq_None_iff)
qed

theorem class_functions_defined:
  "list_all (\<lambda>f. map_of (class_natives env) f \<noteq> None) (class_functions url_class)"
  "list_all (\<lambda>f. map_of (class_natives env) f \<noteq> None) (class_functions url_search_params_class)"
proof -
  have names: "map_of (class_natives env) f \<noteq> None \<longleftrightarrow> f \<in> set (map fst (class_natives env))" for f
    by (simp add: map_of_eq_None_iff)
  show "list_all (\<lambda>f. map_of (class_natives env) f \<noteq> None) (class_functions url_class)"
    unfolding names
    by (simp add: class_functions_def url_class_def class_natives_def make_accessor_def Let_def List.map_filter_def)
  show "list_all (\<lambda>f. map_of (class_natives env) f \<noteq> None) (class_functions url_search_params_class)"
    unfolding names
    by (simp add: class_functions_def url_search_params_class_def class_natives_def make_accessor_def Let_def List.map_filter_def)
qed

end
