(* ===== verification/Worker_Runtime.thy ===== *)
theory Worker_Runtime
  imports Pool_Properties Runtime_Properties Transport
begin

text \<open>
  The worker thread of \<^verbatim>\<open>src/internal/pool/shared.rs\<close> together with its runtime. In \<open>Worker_Pool\<close> a running
  job may reply, fail or panic at will; here the steps of a worker are those the run of the job on the
  runtime of that worker (theory \<open>Runtime\<close>) prescribes, interleaved with all other threads.
\<close>

section \<open>Workers with runtimes\<close>

text \<open>What the pool was built with: the engine, the configuration and the jobs of the callers.\<close>

record ('w, 'j, 'i, 'e, 'v, 'm, 'pr, 'r, 'n, 'ep, 'pe, 't) service_env =
  se_host :: "('w, 'j, 'i, 'e, 'v, 'm, 'pr, 'r, 'n, 'ep, 'pe, 't) host"
  se_clock :: "'i js_clock"
  se_engine :: "('w, 'j, 'i, 'e) engine"
  se_config :: "'t MechanicsPoolConfig"
  se_client :: 't
  se_job :: "call_id \<Rightarrow> ('n, (string \<times> 'ep) list) MechanicsJob"

text \<open>
  The pool, and for every worker thread its runtime, its job counter and what is left to do for the
  job it runs.
\<close>

record ('w, 'j, 'i, 'n, 't) served =
  sv_pool :: "'n json pool"
  sv_runtime :: "worker_id \<Rightarrow> ('w, 'j, 'i, 't) RuntimeInternal option"
  sv_sequence :: "worker_id \<Rightarrow> nat"
  sv_todo :: "worker_id \<Rightarrow> 'n json worker_action list"

text \<open>The start of the thread: the runtime gets the limits and defaults of the configuration.\<close>

definition worker_runtime ::
  "'t MechanicsPoolConfig \<Rightarrow> (string, unit) result \<Rightarrow> (string, 'w) result \<Rightarrow> ('w \<Rightarrow> 'w) \<Rightarrow> 't
     \<Rightarrow> (MechanicsError, ('w, 'j, 'i, 't) RuntimeInternal) result"
where
  "worker_runtime cfg async_runtime context bundle client =
     bind_ok (runtime_new async_runtime context bundle client) (\<lambda>rt.
     Inr (set_default_endpoint_response_max_bytes (pc_default_http_response_max_bytes cfg)
            (set_default_endpoint_timeout_ms (pc_default_http_timeout_ms cfg)
              (set_execution_limits (pc_execution_limits cfg) rt))))"

definition worker_job_id :: "worker_id \<Rightarrow> nat \<Rightarrow> string" where
  "worker_job_id w n = ''worker-'' @ decimal w @ ''-job-'' @ decimal n"

text \<open>The early replies of a run, and what the worker does with its outcome.\<close>

definition job_actions :: "worker_id \<Rightarrow> ('w, 'j, 'i, 'n, 't) run_result \<Rightarrow> 'n json worker_action list" where
  "job_actions w res =
     map (WorkerEarlyReply w) (rs_replies res)
     @ (case rs_outcome res of
          MainReplied \<Rightarrow> [WorkerMainReplied w]
        | MainNotReplied e \<Rightarrow> [WorkerMainNotReplied w e])
     @ [WorkerEndJob w]"

text \<open>The steps that do not depend on the run of a job.\<close>

fun independent :: "'v action \<Rightarrow> bool" where
  "independent (Worker (WorkerStartPanicked w)) = True"
| "independent (Worker (WorkerReceive w)) = True"
| "independent (Worker (WorkerStop w)) = True"
| "independent (Worker (WorkerExit w)) = True"
| "independent (Worker _) = False"
| "independent _ = True"

datatype ('v, 'w) serve_action =
    StartWorker worker_id "(string, unit) result" "(string, 'w) result"
  | Dispatch worker_id nat
  | Advance worker_id
  | Unwind worker_id
  | Other "'v action"

text \<open>
  The runtime is local to its thread, so its run is computed when the job is dispatched, with some
  fuel; its replies and its outcome reach the shared state one by one. A panic may cut it at any
  point before the outcome.
\<close>

fun serve_act ::
  "('w, 'j, 'i::linorder, 'e, 'v, 'm, 'pr, 'r, 'n, 'ep, 'pe, 't) service_env \<Rightarrow> ('n json, 'w) serve_action
     \<Rightarrow> ('w, 'j, 'i, 'n, 't) served \<Rightarrow> ('w, 'j, 'i, 'n, 't) served option"
where
  "serve_act env (StartWorker w async_runtime context) x =
     (case worker_runtime (se_config env) async_runtime context (ho_bundle (se_host env)) (se_client env) of
        Inl e \<Rightarrow> map_option (\<lambda>p. x\<lparr>sv_pool := p\<rparr>) (worker_start_failed w e (sv_pool x))
      | Inr rt \<Rightarrow> map_option (\<lambda>p. x\<lparr>sv_pool := p, sv_runtime := (sv_runtime x)(w \<mapsto> rt),
                                  sv_sequence := (sv_sequence x)(w := 0)\<rparr>)
                    (worker_started w (sv_pool x)))"
| "serve_act env (Dispatch w fuel) x =
     Option.bind (worker_dispatch w (sv_pool x)) (\<lambda>p.
     case pc_of p w of
       Some (WRun c) \<Rightarrow>
         Option.bind (sv_runtime x w) (\<lambda>rt.
         let n = min (sv_sequence x w + 1) u64_max
         in map_option (\<lambda>res. x\<lparr>sv_pool := p, sv_runtime := (sv_runtime x)(w \<mapsto> rs_runtime res),
                sv_sequence := (sv_sequence x)(w := n), sv_todo := (sv_todo x)(w := job_actions w res)\<rparr>)
              (run_source_with_early_reply (se_host env) (se_clock env) (se_engine env) fuel
                (se_job env c) (worker_job_id w n) rt))
     | _ \<Rightarrow> Some (x\<lparr>sv_pool := p\<rparr>))"
| "serve_act env (Advance w) x =
     (case sv_todo x w of
        [] \<Rightarrow> None
      | a # as \<Rightarrow> map_option (\<lambda>p. x\<lparr>sv_pool := p, sv_todo := (sv_todo x)(w := as)\<rparr>) (worker_act a (sv_pool x)))"
| "serve_act env (Unwind w) x =
     map_option (\<lambda>p. x\<lparr>sv_pool := p, sv_runtime := (sv_runtime x)(w := None),
         sv_todo := (sv_todo x)(w := [WorkerPanicReply w, WorkerEndJob w])\<rparr>)
       (worker_unwind w (sv_pool x))"
| "serve_act env (Other a) x =
     (if independent a then map_option (\<lambda>p. x\<lparr>sv_pool := p\<rparr>) (act a (sv_pool x)) else None)"

definition serve_new :: "'n json pool \<Rightarrow> ('w, 'j, 'i, 'n, 't) served" where
  "serve_new p = \<lparr>sv_pool = p, sv_runtime = (\<lambda>_. None), sv_sequence = (\<lambda>_. 0), sv_todo = (\<lambda>_. [])\<rparr>"

inductive serves ::
  "('w, 'j, 'i::linorder, 'e, 'v, 'm, 'pr, 'r, 'n, 'ep, 'pe, 't) service_env
     \<Rightarrow> ('w, 'j, 'i, 'n, 't) served \<Rightarrow> bool" for env where
  serve_init: "pool_new clock_max now build_client (se_config env) = Inr p \<Longrightarrow>
     pc_worker_count (se_config env) \<le> usize_max \<Longrightarrow> serves env (serve_new p)"
| serve_next: "serves env x \<Longrightarrow> serve_act env a x = Some y \<Longrightarrow> serves env y"

section \<open>Every served pool is a pool\<close>

lemma serve_act_cases:
  fixes x :: "('w, 'j, 'i::linorder, 'n, 't) served"
  assumes "serve_act env a x = Some y"
  obtains (started) w rt ar ctx where "worker_started w (sv_pool x) = Some (sv_pool y)"
      "y = x\<lparr>sv_pool := sv_pool y, sv_runtime := (sv_runtime x)(w \<mapsto> rt), sv_sequence := (sv_sequence x)(w := 0)\<rparr>"
      "worker_runtime (se_config env) ar ctx (ho_bundle (se_host env)) (se_client env) = Inr rt"
  | (start_failed) w e where "worker_start_failed w e (sv_pool x) = Some (sv_pool y)" "y = x\<lparr>sv_pool := sv_pool y\<rparr>"
  | (answered) w where "worker_dispatch w (sv_pool x) = Some (sv_pool y)" "\<not> is_busy (pc_of (sv_pool y) w)"
      "y = x\<lparr>sv_pool := sv_pool y\<rparr>"
  | (dispatch) w c rt n fuel res where "worker_dispatch w (sv_pool x) = Some (sv_pool y)"
      "pc_of (sv_pool y) w = Some (WRun c)" "sv_runtime x w = Some rt"
      "run_source_with_early_reply (se_host env) (se_clock env) (se_engine env) fuel
         (se_job env c) (worker_job_id w n) rt = Some res"
      "y = x\<lparr>sv_pool := sv_pool y, sv_runtime := (sv_runtime x)(w \<mapsto> rs_runtime res),
         sv_sequence := (sv_sequence x)(w := n), sv_todo := (sv_todo x)(w := job_actions w res)\<rparr>"
  | (advance) w a as where "sv_todo x w = a # as" "worker_act a (sv_pool x) = Some (sv_pool y)"
      "y = x\<lparr>sv_pool := sv_pool y, sv_todo := (sv_todo x)(w := as)\<rparr>"
  | (unwound) w where "worker_unwind w (sv_pool x) = Some (sv_pool y)"
      "y = x\<lparr>sv_pool := sv_pool y, sv_runtime := (sv_runtime x)(w := None),
         sv_todo := (sv_todo x)(w := [WorkerPanicReply w, WorkerEndJob w])\<rparr>"
  | (other) a where "independent a" "act a (sv_pool x) = Some (sv_pool y)" "y = x\<lparr>sv_pool := sv_pool y\<rparr>"
proof (cases a)
  case (StartWorker w ar ctx)
  show ?thesis
  proof (cases "worker_runtime (se_config env) ar ctx (ho_bundle (se_host env)) (se_client env)
      :: (MechanicsError, ('w, 'j, 'i, 't) RuntimeInternal) result")
    case (Inl e)
    then show ?thesis using assms StartWorker start_failed [of w e] by auto
  next
    case (Inr rt)
    then show ?thesis using assms StartWorker started [of w rt ar ctx] by auto
  qed
next
  case (Dispatch w fuel)
  with assms obtain p where p: "worker_dispatch w (sv_pool x) = Some p" by (auto split: bind_splits)
  then consider (run) c where "pc_of p w = Some (WRun c)" | (sel) "pc_of p w = Some WSelect"
    by (auto simp: worker_dispatch_def elim!: send_result_cases split: option.splits worker_pc.splits if_splits)
  then show ?thesis
  proof cases
    case run
    then show ?thesis using assms Dispatch p dispatch [of w] by (auto simp: Let_def split: bind_splits)
  next
    case sel
    then show ?thesis using assms Dispatch p answered [of w] by auto
  qed
next
  case (Advance w)
  then show ?thesis using assms advance [of w] by (auto split: list.splits)
next
  case (Unwind w)
  then show ?thesis using assms unwound [of w] by auto
next
  case (Other b)
  then show ?thesis using assms other [of b] by (auto split: if_splits)
qed

lemma serve_act_pool:
  assumes "serve_act env a x = Some y"
  shows "\<exists>b. act b (sv_pool x) = Some (sv_pool y)"
  using assms
proof (cases rule: serve_act_cases)
  case (started w rt ar ctx)
  then have "act (Worker (WorkerStarted w)) (sv_pool x) = Some (sv_pool y)" by simp
  then show ?thesis ..
next
  case (start_failed w e)
  then have "act (Worker (WorkerStartFailed w e)) (sv_pool x) = Some (sv_pool y)" by simp
  then show ?thesis ..
next
  case (answered w)
  then have "act (Worker (WorkerDispatch w)) (sv_pool x) = Some (sv_pool y)" by simp
  then show ?thesis ..
next
  case (dispatch w c rt n fuel res)
  then have "act (Worker (WorkerDispatch w)) (sv_pool x) = Some (sv_pool y)" by simp
  then show ?thesis ..
next
  case (advance w a as)
  then have "act (Worker a) (sv_pool x) = Some (sv_pool y)" by simp
  then show ?thesis ..
next
  case (unwound w)
  then have "act (Worker (WorkerUnwind w)) (sv_pool x) = Some (sv_pool y)" by simp
  then show ?thesis ..
next
  case (other a)
  then show ?thesis by blast
qed

text \<open>So the theorems on reachable pools hold for pools whose workers run real jobs.\<close>

lemma serves_reachable: "serves env x \<Longrightarrow> reachable (se_config env) (sv_pool x)"
proof (induction rule: serves.induct)
  case (serve_init clock_max now build_client p)
  then show ?case by (auto simp: serve_new_def intro: reachable.init)
next
  case (serve_next x a y)
  then show ?case using serve_act_pool by (blast intro: reachable.next_step pool_step.step)
qed

section \<open>Where values come from\<close>

definition has_value :: "'v pool \<Rightarrow> call_id \<Rightarrow> 'v \<Rightarrow> bool" where
  "has_value s c v \<longleftrightarrow> cl_reply (p_calls s c) = Some (Inr v) \<or> cl_result (p_calls s c) = Some (Inr v)"

lemma has_value_cong: "p_calls t = p_calls s \<Longrightarrow> has_value t = has_value s"
  by (simp add: has_value_def fun_eq_iff)

lemma has_value_send_error: "send_result c (Inl e) s = Some t \<Longrightarrow> has_value t c' v \<Longrightarrow> has_value s c' v"
  by (auto simp: has_value_def elim!: send_result_cases split: if_splits)

lemma call_act_has_value: "call_act a s = Some t \<Longrightarrow> has_value t c v \<Longrightarrow> has_value s c v"
  by (cases a)
    (auto simp: call_defs has_value_def Let_def elim!: send_result_cases split: if_splits option.splits)

lemma life_act_same_calls: "a \<noteq> DropDrainOne \<Longrightarrow> life_act a s = Some t \<Longrightarrow> p_calls t = p_calls s"
  by (cases a)
    (auto simp: life_defs Let_def case_prod_unfold
      split: if_splits ctor_pc.splits nat.splits option.splits sum.splits)

lemma life_act_has_value: "life_act a s = Some t \<Longrightarrow> has_value t c v \<Longrightarrow> has_value s c v"
  using life_act_same_calls [of a s t] has_value_cong [of t s]
  by (cases "a = DropDrainOne")
    (auto simp: drop_drain_def has_value_def elim!: send_result_cases split: if_splits list.splits)

text \<open>A new value is the early reply of the worker that runs the job.\<close>

lemma worker_act_has_value:
  assumes "worker_act a s = Some t" "has_value t c v" "\<not> has_value s c v"
  obtains w where "a = WorkerEarlyReply w (Inr v)" "pc_of s w = Some (WRun c)"
  using assms
  by (cases a)
    (auto simp: worker_defs has_value_def elim!: send_result_cases
      split: if_splits option.splits list.splits worker_pc.splits)


section \<open>Invariant\<close>

text \<open>A runtime as a job finds it: nothing queued, and the settings of the pool.\<close>

definition clean_runtime ::
  "('w, 'j, 'i, 'e, 'v, 'm, 'pr, 'r, 'n, 'ep, 'pe, 't) service_env \<Rightarrow> ('w, 'j, 'i, 't) RuntimeInternal \<Rightarrow> bool" where
  "clean_runtime env rt \<longleftrightarrow>
     ri_queue rt = queue_new \<and> ri_http_client rt = se_client env
     \<and> ri_execution_limits rt = pc_execution_limits (se_config env)
     \<and> ri_default_endpoint_timeout_ms rt = pc_default_http_timeout_ms (se_config env)
     \<and> ri_default_endpoint_response_max_bytes rt = pc_default_http_response_max_bytes (se_config env)"

text \<open>An answer that the job of a call has on some clean runtime.\<close>

definition own_result ::
  "('w, 'j, 'i::linorder, 'e, 'v, 'm, 'pr, 'r, 'n, 'ep, 'pe, 't) service_env \<Rightarrow> call_id \<Rightarrow> 'n reply \<Rightarrow> bool" where
  "own_result env c r \<longleftrightarrow>
     (\<exists>(rt :: ('w, 'j, 'i, 't) RuntimeInternal) job_id fuel res. clean_runtime env rt
        \<and> run_source_with_early_reply (se_host env) (se_clock env) (se_engine env) fuel (se_job env c) job_id rt = Some res
        \<and> rs_replies res = [r])"

text \<open>What is left to do fits where the thread is.\<close>

fun todo_ok ::
  "('w, 'j, 'i::linorder, 'e, 'v, 'm, 'pr, 'r, 'n, 'ep, 'pe, 't) service_env \<Rightarrow> worker_id
     \<Rightarrow> worker_pc option \<Rightarrow> 'n json worker_action list \<Rightarrow> bool"
where
  "todo_ok env w (Some (WRun c)) as \<longleftrightarrow>
     (\<exists>r. own_result env c r \<and> as = [WorkerEarlyReply w r, WorkerMainReplied w, WorkerEndJob w])
     \<or> (\<exists>e. as = [WorkerMainNotReplied w e, WorkerEndJob w])"
| "todo_ok env w (Some (WTail c)) as \<longleftrightarrow> as = [WorkerMainReplied w, WorkerEndJob w]"
| "todo_ok env w (Some (WPanicked c)) as \<longleftrightarrow> as = [WorkerPanicReply w, WorkerEndJob w]"
| "todo_ok env w (Some (WFinishing c b)) as \<longleftrightarrow> as = [WorkerEndJob w]"
| "todo_ok env w _ as \<longleftrightarrow> as = []"

lemma todo_ok_idle: "\<not> is_busy pc \<Longrightarrow> todo_ok env w pc as \<longleftrightarrow> as = []"
  by (cases pc rule: is_busy.cases) simp_all

text \<open>The thread has a runtime that it will use again.\<close>

fun has_runtime :: "worker_pc option \<Rightarrow> bool" where
  "has_runtime (Some WSelect) = True"
| "has_runtime (Some (WGot c)) = True"
| "has_runtime (Some (WRun c)) = True"
| "has_runtime (Some (WTail c)) = True"
| "has_runtime (Some (WFinishing c panicked)) \<longleftrightarrow> \<not> panicked"
| "has_runtime _ = False"

definition serve_inv ::
  "('w, 'j, 'i::linorder, 'e, 'v, 'm, 'pr, 'r, 'n, 'ep, 'pe, 't) service_env
     \<Rightarrow> ('w, 'j, 'i, 'n, 't) served \<Rightarrow> bool"
where
  "serve_inv env x \<longleftrightarrow>
     (\<forall>w. todo_ok env w (pc_of (sv_pool x) w) (sv_todo x w))
     \<and> (\<forall>w rt. sv_runtime x w = Some rt \<longrightarrow> clean_runtime env rt)
     \<and> (\<forall>w. has_runtime (pc_of (sv_pool x) w) \<longrightarrow> sv_runtime x w \<noteq> None)
     \<and> (\<forall>c v. has_value (sv_pool x) c v \<longrightarrow> own_result env c (Inr v))"

text \<open>The steps of other threads do not move a thread that runs a job.\<close>

lemma independent_frame:
  assumes "reachable cfg s" "independent a" "act a s = Some t"
  shows "is_busy (pc_of s w) \<or> is_busy (pc_of t w) \<Longrightarrow> pc_of t w = pc_of s w"
    and "has_runtime (pc_of t w) \<Longrightarrow> has_runtime (pc_of s w)"
    and "has_value t c v \<Longrightarrow> has_value s c v"
proof -
  have fresh: "pc_of s (p_next_worker_id s) = None"
    using reachable_inv [OF assms(1)] by (auto simp: pool_inv_def threads_inv_def)
  have pc: "pc_of t w = pc_of s w \<or> \<not> is_busy (pc_of s w) \<and> \<not> is_busy (pc_of t w)
      \<and> (has_runtime (pc_of t w) \<longrightarrow> has_runtime (pc_of s w))"
  proof (cases a)
    case (Caller b)
    then have "p_threads t = p_threads s" using assms(3) call_act_threads(1) by simp
    then show ?thesis by (simp add: pc_of_def)
  next
    case (Worker b)
    then show ?thesis
      using assms(2,3)
      by (cases b)
        (auto simp: worker_started_def worker_start_panicked_def worker_receive_def worker_stop_def worker_exit_def pc_of_def [of s]
          split: if_splits option.splits list.splits worker_pc.splits)
  next
    case (Supervisor b)
    then show ?thesis
      using assms(3) fresh
      by (cases b)
        (auto simp: super_defs Let_def case_prod_unfold
          split: if_splits list.splits super_pc.splits nat.splits option.splits sum.splits)
  next
    case (Owner b)
    then show ?thesis
      using assms(3) fresh
      by (cases b)
        (auto simp: life_defs drop_drain_def Let_def case_prod_unfold elim!: send_result_cases
          split: if_splits list.splits ctor_pc.splits nat.splits option.splits sum.splits)
  qed
  then show "is_busy (pc_of s w) \<or> is_busy (pc_of t w) \<Longrightarrow> pc_of t w = pc_of s w"
    "has_runtime (pc_of t w) \<Longrightarrow> has_runtime (pc_of s w)" by auto
  show "has_value s c v" if v: "has_value t c v"
  proof (cases a)
    case (Caller b)
    then show ?thesis using assms(3) v by (auto dest: call_act_has_value)
  next
    case (Worker b)
    show ?thesis
    proof (rule ccontr)
      assume "\<not> has_value s c v"
      with Worker assms(3) v obtain w' where "b = WorkerEarlyReply w' (Inr v)"
        by (auto elim: worker_act_has_value)
      with Worker assms(2) show False by simp
    qed
  next
    case (Supervisor b)
    then show ?thesis using assms(3) v super_act_calls [of b s t] has_value_cong [of t s] by simp
  next
    case (Owner b)
    then show ?thesis using assms(3) v by (auto dest: life_act_has_value)
  qed
qed


text \<open>A step of one thread, on its own part of the state.\<close>

lemma serve_inv_update:
  assumes "serve_inv env x"
    and "\<And>w'. w' \<noteq> w \<Longrightarrow> pc_of (sv_pool y) w' = pc_of (sv_pool x) w' \<and> sv_todo y w' = sv_todo x w'
          \<and> sv_runtime y w' = sv_runtime x w'"
    and "todo_ok env w (pc_of (sv_pool y) w) (sv_todo y w)"
    and "\<And>rt. sv_runtime y w = Some rt \<Longrightarrow> clean_runtime env rt"
    and "has_runtime (pc_of (sv_pool y) w) \<Longrightarrow> sv_runtime y w \<noteq> None"
    and "\<And>c v. has_value (sv_pool y) c v \<Longrightarrow> has_value (sv_pool x) c v \<or> own_result env c (Inr v)"
  shows "serve_inv env y"
  using assms unfolding serve_inv_def by metis

lemma serve_invD:
  assumes "serve_inv env x"
  shows "todo_ok env w (pc_of (sv_pool x) w) (sv_todo x w)"
    and "sv_runtime x w = Some rt \<Longrightarrow> clean_runtime env rt"
    and "has_runtime (pc_of (sv_pool x) w) \<Longrightarrow> sv_runtime x w \<noteq> None"
    and "has_value (sv_pool x) c v \<Longrightarrow> own_result env c (Inr v)"
  using assms unfolding serve_inv_def by blast+

lemma worker_act_others:
  assumes "worker_act a s = Some t" "w \<noteq> actor_of a"
  shows "pc_of t w = pc_of s w"
  using worker_act_effect [OF assms(1)] assms(2) unfolding worker_effect_def by (metis fun_upd_other)

lemma worker_runtime_clean:
  "worker_runtime (se_config env) ar ctx bundle (se_client env) = Inr rt \<Longrightarrow> clean_runtime env rt"
  by (auto simp: worker_runtime_def runtime_new_def bind_ok_def clean_runtime_def set_execution_limits_def
      set_default_endpoint_timeout_ms_def set_default_endpoint_response_max_bytes_def split: sum.splits)

lemma clean_runtime_after:
  assumes "run_source_with_early_reply ho ic en fuel job job_id rt = Some res" "clean_runtime env rt"
  shows "clean_runtime env (rs_runtime res)"
  using assms(2) run_source_cleans [OF assms(1)] run_source_settings [OF assms(1)]
  by (simp add: clean_runtime_def)

lemma job_actions_ok:
  assumes "run_source_with_early_reply (se_host env) (se_clock env) (se_engine env) fuel (se_job env c) job_id rt = Some res"
    and "clean_runtime env rt"
  shows "todo_ok env w (Some (WRun c)) (job_actions w res)"
  using assms(1)
proof (cases rule: run_source_answer)
  case (replied r)
  with assms have "own_result env c r" unfolding own_result_def by blast
  with replied show ?thesis by (simp add: job_actions_def)
next
  case (failed e)
  then show ?thesis by (simp add: job_actions_def)
qed

text \<open>Where a thread is before and after each of its steps.\<close>

fun moves :: "'v worker_action \<Rightarrow> worker_pc \<Rightarrow> worker_pc \<Rightarrow> bool" where
  "moves (WorkerStarted w) pc pc' \<longleftrightarrow> pc = WStarting \<and> pc' = WSelect"
| "moves (WorkerStartFailed w e) pc pc' \<longleftrightarrow> pc = WStarting \<and> (\<exists>r. pc' = WExiting r)"
| "moves (WorkerDispatch w) pc pc' \<longleftrightarrow> (\<exists>c. pc = WGot c \<and> pc' \<in> {WSelect, WRun c})"
| "moves (WorkerEarlyReply w r) pc pc' \<longleftrightarrow> (\<exists>c. pc = WRun c \<and> pc' = WTail c)"
| "moves (WorkerMainReplied w) pc pc' \<longleftrightarrow> (\<exists>c. pc = WTail c \<and> pc' = WFinishing c False)"
| "moves (WorkerMainNotReplied w e) pc pc' \<longleftrightarrow> (\<exists>c. pc = WRun c \<and> pc' = WFinishing c False)"
| "moves (WorkerUnwind w) pc pc' \<longleftrightarrow> (\<exists>c. pc \<in> {WRun c, WTail c} \<and> pc' = WPanicked c)"
| "moves (WorkerPanicReply w) pc pc' \<longleftrightarrow> (\<exists>c. pc = WPanicked c \<and> pc' = WFinishing c True)"
| "moves (WorkerEndJob w) pc pc' \<longleftrightarrow> (\<exists>c. pc = WFinishing c False \<and> pc' = WSelect \<or> pc = WFinishing c True \<and> pc' = WExiting ''panic'')"
| "moves _ pc pc' \<longleftrightarrow> True"

lemma worker_act_moves:
  assumes "worker_act a s = Some t"
  obtains pc pc' where "pc_of s (actor_of a) = Some pc" "pc_of t (actor_of a) = Some pc'" "moves a pc pc'"
proof -
  have "pc_of s (actor_of a) = Some (the (pc_of s (actor_of a)))" "pc_of t (actor_of a) = Some (the (pc_of t (actor_of a)))"
    using worker_act_effect [OF assms] unfolding worker_effect_def by (metis fun_upd_same)+
  moreover have "moves a (the (pc_of s (actor_of a))) (the (pc_of t (actor_of a)))"
    using assms
    by (cases a) (auto simp: worker_defs elim!: send_result_cases
        split: if_splits option.splits list.splits worker_pc.splits)
  ultimately show ?thesis by (rule that)
qed

lemma serve_inv_worker:
  assumes inv: "serve_inv env x" and act: "worker_act a (sv_pool x) = Some (sv_pool y)" and w: "actor_of a = w"
    and "\<And>w'. w' \<noteq> w \<Longrightarrow> sv_todo y w' = sv_todo x w' \<and> sv_runtime y w' = sv_runtime x w'"
    and "\<And>r. a = WorkerEarlyReply w r \<Longrightarrow> \<exists>as. sv_todo x w = a # as"
    and "todo_ok env w (pc_of (sv_pool y) w) (sv_todo y w)"
    and "\<And>rt. sv_runtime y w = Some rt \<Longrightarrow> clean_runtime env rt"
    and "has_runtime (pc_of (sv_pool y) w) \<Longrightarrow> sv_runtime y w \<noteq> None"
  shows "serve_inv env y"
proof (rule serve_inv_update [OF inv, of w])
  fix c v
  assume v: "has_value (sv_pool y) c v"
  show "has_value (sv_pool x) c v \<or> own_result env c (Inr v)"
  proof (cases "has_value (sv_pool x) c v")
    case False
    then obtain w' where a: "a = WorkerEarlyReply w' (Inr v)" "pc_of (sv_pool x) w' = Some (WRun c)"
      using act v worker_act_has_value by metis
    with assms(5) w have "\<exists>as. sv_todo x w = WorkerEarlyReply w (Inr v) # as" by simp
    then have "own_result env c (Inr v)"
      using serve_invD(1) [OF inv, of w] a w by auto
    then show ?thesis ..
  qed simp
qed (use assms worker_act_others [OF act] in auto)

lemma advance_inv:
  assumes inv: "serve_inv env x" and todo: "sv_todo x w = a # as" and act: "worker_act a (sv_pool x) = Some (sv_pool y)"
    and y: "y = x\<lparr>sv_pool := sv_pool y, sv_todo := (sv_todo x)(w := as)\<rparr>"
  shows "serve_inv env y"
proof -
  note ok = serve_invD(1) [OF inv, of w, unfolded todo]
  have w: "actor_of a = w"
    using ok by (cases "pc_of (sv_pool x) w" rule: is_busy.cases) auto
  have y': "sv_todo y = (sv_todo x)(w := as)" "sv_runtime y = sv_runtime x" by (subst y, simp)+
  obtain pc pc' where pc: "pc_of (sv_pool x) w = Some pc" "pc_of (sv_pool y) w = Some pc'" "moves a pc pc'"
    using worker_act_moves [OF act] w by metis
  have "todo_ok env w (Some pc') as \<and> (has_runtime (Some pc') \<longrightarrow> has_runtime (Some pc))"
    using ok pc by (cases pc) auto
  then show ?thesis
    using serve_invD(2,3) [OF inv] pc y' by (intro serve_inv_worker [OF inv act w]) (auto simp: todo)
qed

text \<open>The other steps of a worker, by where it is before and after.\<close>

lemma own_step_inv:
  assumes inv: "serve_inv env x" and act: "worker_act a (sv_pool x) = Some (sv_pool y)" and w: "actor_of a = w"
    and "\<And>w'. w' \<noteq> w \<Longrightarrow> sv_todo y w' = sv_todo x w' \<and> sv_runtime y w' = sv_runtime x w'"
    and "\<And>r. a \<noteq> WorkerEarlyReply w r"
    and "\<And>rt. sv_runtime y w = Some rt \<Longrightarrow> clean_runtime env rt"
    and step: "\<And>pc pc'. pc_of (sv_pool y) w = Some pc' \<Longrightarrow> moves a pc pc' \<Longrightarrow> todo_ok env w (Some pc) (sv_todo x w)
      \<Longrightarrow> (has_runtime (Some pc) \<Longrightarrow> sv_runtime x w \<noteq> None)
      \<Longrightarrow> todo_ok env w (Some pc') (sv_todo y w) \<and> (has_runtime (Some pc') \<longrightarrow> sv_runtime y w \<noteq> None)"
  shows "serve_inv env y"
proof -
  obtain pc pc' where pc: "pc_of (sv_pool x) w = Some pc" "pc_of (sv_pool y) w = Some pc'" "moves a pc pc'"
    using worker_act_moves [OF act] w by metis
  from step [OF pc(2,3)] have "todo_ok env w (Some pc') (sv_todo y w) \<and> (has_runtime (Some pc') \<longrightarrow> sv_runtime y w \<noteq> None)"
    using serve_invD(1,3) [OF inv, of w] pc(1) by simp
  with pc show ?thesis using assms(4-6) by (intro serve_inv_worker [OF inv act w]) auto
qed

lemma dispatch_inv:
  assumes inv: "serve_inv env x" and "worker_dispatch w (sv_pool x) = Some (sv_pool y)"
    and "pc_of (sv_pool y) w = Some (WRun c)" and "sv_runtime x w = Some rt"
    and run: "run_source_with_early_reply (se_host env) (se_clock env) (se_engine env) fuel (se_job env c) job_id rt = Some res"
    and "sv_todo y = (sv_todo x)(w := job_actions w res)" and "sv_runtime y = (sv_runtime x)(w \<mapsto> rs_runtime res)"
  shows "serve_inv env y"
proof (rule own_step_inv [OF inv, of "WorkerDispatch w"])
  have "clean_runtime env rt" using serve_invD(2) [OF inv assms(4)] .
  then show "\<And>rt. sv_runtime y w = Some rt \<Longrightarrow> clean_runtime env rt"
    using clean_runtime_after [OF run] assms(7) by simp
  show "todo_ok env w (Some pc') (sv_todo y w) \<and> (has_runtime (Some pc') \<longrightarrow> sv_runtime y w \<noteq> None)"
    if "pc_of (sv_pool y) w = Some pc'" for pc'
    using job_actions_ok [OF run \<open>clean_runtime env rt\<close>, of w] that assms(3,6,7) by auto
qed (use assms in auto)

lemma other_inv:
  assumes inv: "serve_inv env x" and reach: "reachable (se_config env) (sv_pool x)"
    and a: "independent a" "act a (sv_pool x) = Some (sv_pool y)" and y: "sv_todo y = sv_todo x" "sv_runtime y = sv_runtime x"
  shows "serve_inv env y"
proof -
  note frame = independent_frame [OF reach a]
  have "todo_ok env w (pc_of (sv_pool y) w) (sv_todo x w)" for w
    using serve_invD(1) [OF inv, of w] frame(1) [of w]
    by (cases "is_busy (pc_of (sv_pool x) w) \<or> is_busy (pc_of (sv_pool y) w)") (simp_all add: todo_ok_idle)
  then show ?thesis
    using serve_invD(2,3,4) [OF inv] frame(2,3) y unfolding serve_inv_def by metis
qed

lemma serve_inv_step:
  assumes inv: "serve_inv env x" and reach: "reachable (se_config env) (sv_pool x)" and "serve_act env a x = Some y"
  shows "serve_inv env y"
  using assms(3)
proof (cases rule: serve_act_cases)
  case (started w rt ar ctx)
  have "sv_todo y = sv_todo x" "sv_runtime y = (sv_runtime x)(w \<mapsto> rt)" by (subst started(2), simp)+
  with started(1,3) show ?thesis
    by (intro own_step_inv [OF inv, of "WorkerStarted w"]) (auto dest: worker_runtime_clean)
next
  case (start_failed w e)
  have "sv_todo y = sv_todo x" "sv_runtime y = sv_runtime x" by (subst start_failed(2), simp)+
  with start_failed(1) show ?thesis
    by (intro own_step_inv [OF inv, of "WorkerStartFailed w e"]) (auto dest: serve_invD(2) [OF inv])
next
  case (answered w)
  have "sv_todo y = sv_todo x" "sv_runtime y = sv_runtime x" by (subst answered(3), simp)+
  with answered(1,2) show ?thesis
    by (intro own_step_inv [OF inv, of "WorkerDispatch w"]) (auto dest: serve_invD(2) [OF inv])
next
  case (dispatch w c rt n fuel res)
  have "sv_todo y = (sv_todo x)(w := job_actions w res)" "sv_runtime y = (sv_runtime x)(w \<mapsto> rs_runtime res)"
    by (subst dispatch(5), simp)+
  with dispatch(1-4) show ?thesis by (intro dispatch_inv [OF inv])
next
  case (advance w a as)
  then show ?thesis using advance_inv [OF inv] by blast
next
  case (unwound w)
  have "sv_todo y = (sv_todo x)(w := [WorkerPanicReply w, WorkerEndJob w])" "sv_runtime y = (sv_runtime x)(w := None)"
    by (subst unwound(2), simp)+
  with unwound(1) show ?thesis
    by (intro own_step_inv [OF inv, of "WorkerUnwind w"]) auto
next
  case (other a)
  have "sv_todo y = sv_todo x" "sv_runtime y = sv_runtime x" by (subst other(3), simp)+
  with other(1,2) show ?thesis by (intro other_inv [OF inv reach])
qed

lemma serves_inv: "serves env x \<Longrightarrow> serve_inv env x"
proof (induction rule: serves.induct)
  case (serve_init clock_max now build_client p)
  then show ?case
    by (auto dest!: pool_new_eq simp: serve_new_def serve_inv_def has_value_def shared_new_def new_call_def pc_of_def)
next
  case (serve_next x a y)
  then show ?case using serve_inv_step serves_reachable by blast
qed


section \<open>Properties\<close>

text \<open>
  Property C4: a value that a caller gets is the result of its own job. In every interleaving of callers,
  workers, supervisor and owner, if a call has returned a value, then the run of exactly the job of this
  call sent that value as its only reply, on a runtime with empty queues and with the limits, the client
  and the endpoint defaults of the pool, whatever jobs ran on it before.
\<close>

theorem served_value_is_own_result:
  fixes x :: "('w, 'j, 'i::linorder, 'n, 't) served"
  assumes "serves env x" and "cl_result (p_calls (sv_pool x) c) = Some (Inr v)"
  shows "\<exists>(rt :: ('w, 'j, 'i, 't) RuntimeInternal) job_id fuel res.
    ri_queue rt = queue_new \<and> ri_http_client rt = se_client env
    \<and> ri_execution_limits rt = pc_execution_limits (se_config env)
    \<and> ri_default_endpoint_timeout_ms rt = pc_default_http_timeout_ms (se_config env)
    \<and> ri_default_endpoint_response_max_bytes rt = pc_default_http_response_max_bytes (se_config env)
    \<and> run_source_with_early_reply (se_host env) (se_clock env) (se_engine env) fuel (se_job env c) job_id rt = Some res
    \<and> rs_replies res = [Inr v]"
proof -
  have "has_value (sv_pool x) c v" using assms(2) by (simp add: has_value_def)
  then have "own_result env c (Inr v)" by (rule serve_invD(4) [OF serves_inv [OF assms(1)]])
  then show ?thesis unfolding own_result_def clean_runtime_def by metis
qed

lemma advance_progress:
  assumes "serves env x" "pc_of (sv_pool x) w = Some pc" "pc \<in> {WRun c, WTail c, WFinishing c b}"
  shows "\<exists>y. serve_act env (Advance w) x = Some y"
proof -
  have todo: "todo_ok env w (Some pc) (sv_todo x w)"
    using serve_invD(1) [OF serves_inv [OF assms(1)], of w] assms(2) by simp
  have "\<exists>t. send_result c r (sv_pool x) = Some t" if "pc = WRun c" for r
    using first_reply_never_blocks [OF serves_reachable [OF assms(1)]] assms(2) that by blast
  then show ?thesis
    using todo assms(2,3)
    by (auto simp: worker_early_reply_def worker_main_replied_def worker_main_not_replied_def worker_end_job_def)
qed

lemma dispatch_progress:
  assumes "serves env x" "pc_of (sv_pool x) w = Some (WGot c)"
    and "\<And>rt. sv_runtime x w = Some rt \<Longrightarrow> \<exists>fuel. run_source_with_early_reply (se_host env) (se_clock env)
      (se_engine env) fuel (se_job env c) (worker_job_id w (min (sv_sequence x w + 1) u64_max)) rt \<noteq> None"
  shows "\<exists>fuel y. serve_act env (Dispatch w fuel) x = Some y"
proof (cases "cl_canceled (p_calls (sv_pool x) c)")
  case True
  obtain t where t: "send_result c (Inl (canceled_error ''job timed out before execution'')) (sv_pool x) = Some t"
    using first_reply_never_blocks [OF serves_reachable [OF assms(1)]] assms(2) by blast
  with True assms(2) show ?thesis by (simp add: worker_dispatch_def send_result_pc [OF t])
next
  case False
  obtain rt where rt: "sv_runtime x w = Some rt"
    using serve_invD(3) [OF serves_inv [OF assms(1)], of w] assms(2) by auto
  with assms(3) obtain fuel res where "run_source_with_early_reply (se_host env) (se_clock env) (se_engine env) fuel
      (se_job env c) (worker_job_id w (min (sv_sequence x w + 1) u64_max)) rt = Some res" by fastforce
  with False rt assms(2) show ?thesis by (intro exI [of _ fuel]) (simp add: worker_dispatch_def Let_def)
qed

text \<open>
  Property C10: a worker never waits for anybody to finish a job. A thread that has received a job and did
  not panic can always take its next step towards the end of the job, whatever the other threads do, as
  soon as the run of the job ends: neither a slow caller nor the reply channel nor the supervisor can hold
  it up.
\<close>

theorem served_worker_progress:
  assumes "serves env x" and "pc_of (sv_pool x) w = Some pc"
    and "pc \<in> {WGot c, WRun c, WTail c, WFinishing c b}"
    and "\<And>rt. sv_runtime x w = Some rt \<Longrightarrow> \<exists>fuel. run_source_with_early_reply (se_host env) (se_clock env)
      (se_engine env) fuel (se_job env c) (worker_job_id w (min (sv_sequence x w + 1) u64_max)) rt \<noteq> None"
  shows "\<exists>fuel y. serve_act env (if pc = WGot c then Dispatch w fuel else Advance w) x = Some y"
  using assms(3) advance_progress [OF assms(1,2)] dispatch_progress [OF assms(1) _ assms(4)] assms(2) by auto


section \<open>Witnesses\<close>

text \<open>One worker serves the job of call 7.\<close>

definition small_service ::
  "(small_world, nat, nat, string, nat, unit, nat, unit, nat, unit, unit, unit) service_env" where
  "small_service =
     \<lparr>se_host = small_host, se_clock = ms_clock, se_engine = small_engine,
      se_config = small_config\<lparr>pc_execution_limits := ri_execution_limits (small_runtime 50)\<rparr>,
      se_client = (), se_job = (\<lambda>_. small_job)\<rparr>"

primrec serve_all ::
  "(small_world, nat, nat, string, nat, unit, nat, unit, nat, unit, unit, unit) service_env
     \<Rightarrow> (nat json, small_world) serve_action list \<Rightarrow> (small_world, nat, nat, nat, unit) served
     \<Rightarrow> (small_world, nat, nat, nat, unit) served option"
where
  "serve_all env [] x = Some x"
| "serve_all env (a # as) x = Option.bind (serve_act env a x) (serve_all env as)"

lemma serve_all_serves: "serves env x \<Longrightarrow> serve_all env as x = Some y \<Longrightarrow> serves env y"
  by (induction as arbitrary: x) (auto split: bind_splits intro: serves.serve_next)

definition service_start :: "(nat json, small_world) serve_action list" where
  "service_start =
     [Other (Owner (CtorDoSpawn (Inr ()))), Other (Owner CtorInsert), StartWorker 0 (Inr ()) (Inr (0, False)),
      Other (Owner CtorReady), Other (Owner (CtorSupervisor (Inr ()))),
      Other (Caller (CallStart 7)), Other (Caller (CallEnqueue 7)), Other (Worker (WorkerReceive 0))]"

definition service_end :: "(nat json, small_world) serve_action list" where
  "service_end = [Dispatch 0 9, Advance 0, Other (Caller (CallReceive 7))]"

lemma small_service_serves:
  "serves small_service (serve_new (shared_new (se_config small_service)))"
proof (rule serves.serve_init)
  have "config_validate 100000000 0 (se_config small_service) = Inr ()"
    by (simp add: config_validate_iff config_wf_def small_service_def small_config_def limits_wf_def small_runtime_def from_millis_def)
  then show "pool_new 100000000 0 (Inr ()) (se_config small_service) = Inr (shared_new (se_config small_service))"
    by (simp add: pool_new_def small_service_def small_config_def result_simps)
qed (simp add: small_service_def small_config_def usize_max_def)

lemmas service_eval = pool_eval small_service_def serve_new_def service_start_def service_end_def worker_runtime_def
  runtime_new_def set_execution_limits_def set_default_endpoint_timeout_ms_def
  set_default_endpoint_response_max_bytes_def job_actions_def

lemma service_started:
  "\<exists>x. serve_all small_service service_start (serve_new (shared_new (se_config small_service))) = Some x
     \<and> pc_of (sv_pool x) 0 = Some (WGot 7) \<and> sv_runtime x 0 = Some (small_runtime 50)
     \<and> sv_sequence x 0 = 0"
  by (simp add: service_eval host_eval)


lemma service_done:
  "\<exists>x. serve_all small_service (service_start @ service_end) (serve_new (shared_new (se_config small_service))) = Some x
     \<and> cl_result (p_calls (sv_pool x) 7) = Some (Inr (JNumber 1))"
  by (simp add: service_eval host_eval)

theorem served_value_is_own_result_witness:
  "\<exists>x. serves small_service x \<and> cl_result (p_calls (sv_pool x) 7) = Some (Inr (JNumber 1))
     \<and> (\<exists>(rt :: (small_world, nat, nat, unit) RuntimeInternal) job_id fuel res. ri_queue rt = queue_new
          \<and> run_source_with_early_reply small_host ms_clock small_engine fuel small_job job_id rt = Some res
          \<and> rs_replies res = [Inr (JNumber 1)])"
proof -
  obtain x where "serve_all small_service (service_start @ service_end) (serve_new (shared_new (se_config small_service))) = Some x"
    and v: "cl_result (p_calls (sv_pool x) 7) = Some (Inr (JNumber 1))" using service_done by blast
  then have x: "serves small_service x" by (blast intro: serve_all_serves small_service_serves)
  have env: "se_host small_service = small_host" "se_clock small_service = ms_clock" "se_engine small_service = small_engine"
    "se_job small_service 7 = small_job" by (simp_all add: small_service_def)
  from x v served_value_is_own_result [OF x v, unfolded env] show ?thesis by blast
qed

theorem served_worker_progress_witness:
  "\<exists>x. serves small_service x \<and> pc_of (sv_pool x) 0 = Some (WGot 7)
     \<and> (\<exists>fuel y. serve_act small_service (Dispatch 0 fuel) x = Some y)"
proof -
  obtain x where s: "serve_all small_service service_start (serve_new (shared_new (se_config small_service))) = Some x"
    and pc: "pc_of (sv_pool x) 0 = Some (WGot 7)" and rt: "sv_runtime x 0 = Some (small_runtime 50)"
    using service_started by blast
  have x: "serves small_service x" using s by (blast intro: serve_all_serves small_service_serves)
  have run: "run_source_with_early_reply small_host ms_clock small_engine 9 small_job job_id (small_runtime 50) \<noteq> None" for job_id
    by (simp add: host_eval)
  have "\<exists>fuel. run_source_with_early_reply (se_host small_service) (se_clock small_service) (se_engine small_service)
      fuel (se_job small_service 7) job_id rt' \<noteq> None" if "sv_runtime x 0 = Some rt'" for rt' job_id
    using run [of job_id] that rt by (intro exI [of _ 9]) (simp add: small_service_def)
  from x pc served_worker_progress [OF x pc _ this, where b = False] show ?thesis by auto
qed

end
