(* ===== verification/Pool_Constructor.thy ===== *)
theory Pool_Constructor
  imports Pool_Shutdown
begin

text \<open>
  The guard of \<^verbatim>\<open>src/internal/pool/constructor.rs\<close> that tears down a pool whose construction failed, stage by
  stage, and its agreement with the drop of a finished pool, which the theories of the pool use for both.
\<close>

section \<open>The guard\<close>

text \<open>The handles the guard owns; the shared state is the pool.\<close>

record PoolConstructor =
  gc_supervisor :: bool
  gc_supervisor_shutdown_tx :: bool
  gc_committed :: bool

definition constructor_new :: PoolConstructor where
  "constructor_new = \<lparr>gc_supervisor = False, gc_supervisor_shutdown_tx = False, gc_committed = False\<rparr>"

definition attach_supervisor :: "PoolConstructor \<Rightarrow> PoolConstructor" where
  "attach_supervisor g = g\<lparr>gc_supervisor := True, gc_supervisor_shutdown_tx := True\<rparr>"

text \<open>What the pool gets, and the guard that is left to drop.\<close>

definition commit :: "PoolConstructor \<Rightarrow> (bool \<times> bool) \<times> PoolConstructor" where
  "commit g =
     (let g' = g\<lparr>gc_committed := True\<rparr>
      in ((gc_supervisor g', gc_supervisor_shutdown_tx g'),
          g'\<lparr>gc_supervisor := False, gc_supervisor_shutdown_tx := False\<rparr>))"

section \<open>The drop of the guard\<close>

definition mark_closed :: "'v pool \<Rightarrow> 'v pool" where
  "mark_closed s = s\<lparr>p_closed := True\<rparr>"

definition guard_drop :: "PoolConstructor \<Rightarrow> 'v pool \<Rightarrow> 'v pool" where
  "guard_drop g s = (if gc_committed g then s else (mark_closed s)\<lparr>p_drop := DropDrain\<rparr>)"

definition guard_drain :: "'v pool \<Rightarrow> 'v pool option" where
  "guard_drain s =
     (if p_drop s = DropDrain then
        (case p_queue s of
           c # q \<Rightarrow> send_result c (Inl (canceled_error ''pool construction failed before job execution'')) (s\<lparr>p_queue := q\<rparr>)
         | [] \<Rightarrow> Some (s\<lparr>p_drop := DropRequest\<rparr>))
      else None)"

definition guard_request :: "'v pool \<Rightarrow> 'v pool option" where
  "guard_request s =
     (if p_drop s = DropRequest
      then Some ((fold request_shutdown (p_workers s) s)\<lparr>p_drop := DropSignal\<rparr>) else None)"

definition guard_signal :: "PoolConstructor \<Rightarrow> 'v pool \<Rightarrow> 'v pool option" where
  "guard_signal g s =
     (if p_drop s = DropSignal
      then Some (s\<lparr>p_super_shutdown := gc_supervisor_shutdown_tx g, p_drop := DropJoinSupervisor\<rparr>) else None)"

definition guard_join_supervisor :: "PoolConstructor \<Rightarrow> 'v pool \<Rightarrow> 'v pool option" where
  "guard_join_supervisor g s =
     (if p_drop s = DropJoinSupervisor \<and> (gc_supervisor g \<longrightarrow> p_super s = SupDone)
      then Some (s\<lparr>p_drop := DropJoinWorkers\<rparr>) else None)"

definition guard_join_workers :: "'v pool \<Rightarrow> 'v pool option" where
  "guard_join_workers s =
     (if p_drop s = DropJoinWorkers \<and> list_all (is_finished s) (p_workers s)
      then Some ((set_workers [] s)\<lparr>p_drop := DropDone\<rparr>) else None)"

fun guard_act :: "PoolConstructor \<Rightarrow> life_action \<Rightarrow> 'v pool \<Rightarrow> 'v pool option" where
  "guard_act g DropDrainOne s = guard_drain s"
| "guard_act g DropRequestAll s = guard_request s"
| "guard_act g DropSignalSupervisor s = guard_signal g s"
| "guard_act g DropSupervisorJoined s = guard_join_supervisor g s"
| "guard_act g DropWorkersJoined s = guard_join_workers s"
| "guard_act g _ s = None"

text \<open>The guard as \<^verbatim>\<open>MechanicsPool::new\<close> leaves it: the supervisor is attached and committed in one go.\<close>

definition guard_of :: "'v pool \<Rightarrow> PoolConstructor" where
  "guard_of s = (if p_ctor s = CtorCommitted then snd (commit (attach_supervisor constructor_new)) else constructor_new)"

section \<open>Agreement with the drop of a pool\<close>

lemma ctor_fail_drop: "p_ctor s \<noteq> CtorCommitted \<Longrightarrow> ctor_fail e s = (guard_drop (guard_of s) s)\<lparr>p_ctor := CtorFailed e\<rparr>"
  by (simp add: ctor_fail_def guard_drop_def guard_of_def constructor_new_def mark_closed_def)

lemma committed_guard_inert: "p_ctor s = CtorCommitted \<Longrightarrow> guard_drop (guard_of s) s = s"
  by (simp add: guard_drop_def guard_of_def commit_def Let_def)

lemma failed_without_supervisor:
  assumes "reachable cfg s" "p_ctor s \<noteq> CtorCommitted"
  shows "p_super s = SupNone"
  using reachable_inv [OF assms(1)] assms(2) by (auto simp: pool_inv_def phase_inv_def)

text \<open>
  A failed construction is torn down as a pool is dropped. In every state after a failed
  construction, each stage of the guard does exactly what the stage of the drop of a pool does, apart from
  the message to queued jobs, and no other step of the owner is possible; the supervisor does not exist
  then, so the guard has nothing to signal or join there.
\<close>

theorem guard_mirrors_drop:
  assumes "reachable cfg s" and "p_ctor s = CtorFailed e"
  shows "guard_act (guard_of s) a s = life_act a s"
proof -
  have "p_super s = SupNone" using failed_without_supervisor [OF assms(1)] assms(2) by simp
  with assms(2) show ?thesis
    by (cases a)
      (auto simp: guard_of_def constructor_new_def guard_drain_def guard_request_def guard_signal_def
        guard_join_supervisor_def guard_join_workers_def drop_drain_def drop_message_def drop_request_def
        drop_signal_def drop_join_supervisor_def drop_join_workers_def drop_start_def ctor_spawn_def ctor_insert_def
        ctor_ready_def ctor_join_failed_def ctor_supervisor_def split: list.splits)
qed


text \<open>The thread of the only worker could not be started.\<close>

theorem guard_mirrors_drop_witness:
  "case small_pool [Owner (CtorDoSpawn (Inl ''no threads''))] of None \<Rightarrow> False
   | Some s \<Rightarrow> guard_act (guard_of s) DropDrainOne s = life_act DropDrainOne s \<and> life_act DropDrainOne s \<noteq> None"
proof -
  have "case small_pool [Owner (CtorDoSpawn (Inl ''no threads''))] of None \<Rightarrow> False
    | Some s \<Rightarrow> p_ctor s = CtorFailed (runtime_pool ''failed to spawn worker thread: no threads'')
        \<and> drop_drain s \<noteq> None"
    by (simp add: pool_eval)
  then obtain s where s: "small_pool [Owner (CtorDoSpawn (Inl ''no threads''))] = Some s" "reachable small_config s"
    "p_ctor s = CtorFailed (runtime_pool ''failed to spawn worker thread: no threads'')" "drop_drain s \<noteq> None"
    by (elim small_poolE) blast
  from s(1,4) guard_mirrors_drop [OF s(2,3), of DropDrainOne] show ?thesis by simp
qed

end
