(* ===== verification/Endpoint_Request.thy ===== *)
theory Endpoint_Request
  imports Endpoint_Properties "HOL-Library.Sublist"
begin

text \<open>
  The request builder of \<^verbatim>\<open>src/internal/http/endpoint/request.rs\<close>: headers, URL and query of a call from the
  configuration of the endpoint and the options of the script. No module declares this file; the crate
  \<^verbatim>\<open>mechanics_config\<close> has the code in use. What the file calls of that crate (validation, resolution of
  slots, percent encoding) and of the crate \<^verbatim>\<open>url\<close> is the record \<open>request_lib\<close>. The debug assertions on the
  prepared endpoint are not part of a release build.
\<close>

section \<open>Data\<close>

datatype UrlTemplateChunk = Literal string | Slot string

datatype 'm QuerySpec =
    QueryConst string string
  | QuerySlotted string string 'm "string option" "nat option" "nat option"

record ('s, 'm) endpoint_config =
  ec_url_template :: string
  ec_url_param_specs :: "string \<rightharpoonup> 's"
  ec_query_specs :: "'m QuerySpec list"
  ec_headers :: "(string \<times> string) list"
  ec_request_body_type :: "EndpointBodyType option"

record 'hn prepared_endpoint =
  pe_allowed_overrides :: "'hn list"
  pe_url_slot_set :: "string list"
  pe_parsed_url_chunks :: "UrlTemplateChunk list"
  pe_allowed_query_slots :: "string list"

record ('s, 'm, 'u) request_lib =
  rl_user_agent :: string
  rl_resolve_value :: "'s \<Rightarrow> string \<Rightarrow> string option \<Rightarrow> (io_error, string) result"
  rl_percent_encode_component :: "string \<Rightarrow> string"
  rl_parse_url :: "string \<Rightarrow> (string, 'u) result"
  rl_fragment :: "'u \<Rightarrow> string option"
  rl_query :: "'u \<Rightarrow> string option"
  rl_append_pair :: "string \<Rightarrow> string \<Rightarrow> 'u \<Rightarrow> 'u"
  rl_validate_query_key :: "string \<Rightarrow> (io_error, unit) result"
  rl_validate_slot_name :: "string \<Rightarrow> (io_error, unit) result"
  rl_validate_min_max_bounds :: "string \<Rightarrow> nat option \<Rightarrow> nat option \<Rightarrow> (io_error, unit) result"
  rl_resolve_slotted_query_value ::
    "string \<Rightarrow> 'm \<Rightarrow> string option \<Rightarrow> string option \<Rightarrow> nat option \<Rightarrow> nat option \<Rightarrow> (io_error, string option) result"

definition effective_request_body_type :: "('s, 'm) endpoint_config \<Rightarrow> EndpointBodyType" where
  "effective_request_body_type e = (case ec_request_body_type e of Some t \<Rightarrow> t | None \<Rightarrow> JsonType)"

section \<open>Headers\<close>

abbreviation invalid_input :: "string \<Rightarrow> io_error" where
  "invalid_input \<equiv> io_new InvalidInput"

text \<open>A name or a value of a header, with the message of a failure up to the error of the library.\<close>

definition checked :: "string \<Rightarrow> (string, 'a) result \<Rightarrow> (io_error, 'a) result" where
  "checked message r = map_err (\<lambda>e. invalid_input (message @ '': '' @ e)) r"

fun insert_configured ::
  "('hn, 'hv, 'h) header_map \<Rightarrow> (string \<times> string) list \<Rightarrow> 'h \<Rightarrow> (io_error, 'h) result"
where
  "insert_configured hm [] headers = Inr headers"
| "insert_configured hm ((k, v) # ps) headers =
     bind_ok (checked (''invalid header name `'' @ k @ ''`'') (hm_name hm k)) (\<lambda>name.
     bind_ok (checked (''invalid header value for `'' @ k @ ''`'') (hm_value hm v)) (\<lambda>val.
     insert_configured hm ps (hm_insert hm name val headers)))"

fun insert_overrides ::
  "('hn, 'hv, 'h) header_map \<Rightarrow> 'hn list \<Rightarrow> 'hn list \<Rightarrow> (string \<times> string) list \<Rightarrow> 'h \<Rightarrow> (io_error, 'h) result"
where
  "insert_overrides hm allowed seen [] headers = Inr headers"
| "insert_overrides hm allowed seen ((k, v) # ps) headers =
     bind_ok (checked (''invalid override header name `'' @ k @ ''`'') (hm_name hm k)) (\<lambda>name.
     if name \<in> set seen
     then Inl (invalid_input (''duplicate override header `'' @ k @ ''` in options.headers (case-insensitive)''))
     else if name \<notin> set allowed
     then Inl (invalid_input (''override header `'' @ k @ ''` is not allowlisted in overridable_request_headers''))
     else
     bind_ok (checked (''invalid override header value for `'' @ k @ ''`'') (hm_value hm v)) (\<lambda>val.
     insert_overrides hm allowed (name # seen) ps (hm_insert hm name val headers)))"

text \<open>
  The hash maps of configured and given headers are lists in the order of their iteration, which the
  argument \<open>entries\<close> fixes for the options. \<open>USER_AGENT\<close> and \<open>CONTENT_TYPE\<close> are the names of the crate \<^verbatim>\<open>http\<close>.
\<close>

definition build_headers_prepared ::
  "('hn, 'hv, 'h) header_map \<Rightarrow> 'hn \<Rightarrow> 'hn \<Rightarrow> ('s, 'm, 'u) request_lib \<Rightarrow> ('s, 'm) endpoint_config
     \<Rightarrow> string option \<Rightarrow> (string \<times> string) list \<Rightarrow> 'hn prepared_endpoint \<Rightarrow> (io_error, 'h) result"
where
  "build_headers_prepared hm USER_AGENT CONTENT_TYPE rl e default_content_type overrides prepared =
     bind_ok (checked ''invalid default User-Agent header'' (hm_value hm (rl_user_agent rl))) (\<lambda>user_agent.
     bind_ok (case default_content_type of
         None \<Rightarrow> Inr (hm_insert hm USER_AGENT user_agent (hm_empty hm))
       | Some t \<Rightarrow>
           bind_ok (checked ''invalid default Content-Type header'' (hm_value hm t)) (\<lambda>content_type.
           Inr (hm_insert hm CONTENT_TYPE content_type (hm_insert hm USER_AGENT user_agent (hm_empty hm))))) (\<lambda>headers.
     bind_ok (insert_configured hm (ec_headers e) headers) (\<lambda>headers.
     insert_overrides hm (pe_allowed_overrides prepared) [] overrides headers)))"

section \<open>URL\<close>

fun check_known :: "(string \<Rightarrow> io_error) \<Rightarrow> string list \<Rightarrow> string list \<Rightarrow> (io_error, unit) result" where
  "check_known unknown known [] = Inr ()"
| "check_known unknown known (k # ks) =
     (if k \<notin> set known then Inl (unknown k) else check_known unknown known ks)"

fun resolve_chunks ::
  "('s, 'm, 'u) request_lib \<Rightarrow> (string \<rightharpoonup> 's) \<Rightarrow> (string \<rightharpoonup> string) \<Rightarrow> UrlTemplateChunk list \<Rightarrow> string
     \<Rightarrow> (io_error, string) result"
where
  "resolve_chunks rl specs params [] resolved_url = Inr resolved_url"
| "resolve_chunks rl specs params (Literal s # chunks) resolved_url =
     resolve_chunks rl specs params chunks (resolved_url @ s)"
| "resolve_chunks rl specs params (Slot slot # chunks) resolved_url =
     bind_ok (ok_or (invalid_input (''missing url_param_specs entry for slot `'' @ slot @ ''`'')) (specs slot)) (\<lambda>spec.
     bind_ok (rl_resolve_value rl spec slot (params slot)) (\<lambda>val.
     resolve_chunks rl specs params chunks (resolved_url @ rl_percent_encode_component rl val)))"

fun emit_pairs ::
  "('s, 'm, 'u) request_lib \<Rightarrow> (string \<rightharpoonup> string) \<Rightarrow> 'm QuerySpec list \<Rightarrow> (string \<times> string) list
     \<Rightarrow> (io_error, (string \<times> string) list) result"
where
  "emit_pairs rl queries [] emitted_pairs = Inr emitted_pairs"
| "emit_pairs rl queries (QueryConst key val # specs) emitted_pairs =
     bind_ok (rl_validate_query_key rl key) (\<lambda>_.
     emit_pairs rl queries specs (emitted_pairs @ [(key, val)]))"
| "emit_pairs rl queries (QuerySlotted key slot mode dflt min_bytes max_bytes # specs) emitted_pairs =
     bind_ok (rl_validate_query_key rl key) (\<lambda>_.
     bind_ok (rl_validate_slot_name rl slot) (\<lambda>_.
     bind_ok (rl_validate_min_max_bounds rl slot min_bytes max_bytes) (\<lambda>_.
     bind_ok (rl_resolve_slotted_query_value rl slot mode dflt (queries slot) min_bytes max_bytes) (\<lambda>r.
     emit_pairs rl queries specs
       (case r of Some val \<Rightarrow> emitted_pairs @ [(key, val)] | None \<Rightarrow> emitted_pairs)))))"

text \<open>\<open>keys\<close> gives the keys of a hash map in the order of its iteration.\<close>

definition build_url_prepared ::
  "('s, 'm, 'u) request_lib \<Rightarrow> ((string \<rightharpoonup> string) \<Rightarrow> string list) \<Rightarrow> ('s, 'm) endpoint_config
     \<Rightarrow> 'n EndpointCallOptions \<Rightarrow> 'hn prepared_endpoint \<Rightarrow> (io_error, 'u) result"
where
  "build_url_prepared rl keys e options prepared =
     bind_ok (check_known (\<lambda>k. invalid_input (''unknown urlParams key `'' @ k @ ''` for endpoint template `''
                @ ec_url_template e @ ''`'')) (pe_url_slot_set prepared) (keys (eo_url_params options))) (\<lambda>_.
     bind_ok (resolve_chunks rl (ec_url_param_specs e) (eo_url_params options) (pe_parsed_url_chunks prepared) []) (\<lambda>resolved_url.
     bind_ok (map_err into_io_error (rl_parse_url rl resolved_url)) (\<lambda>url.
     if rl_fragment rl url \<noteq> None then Inl (invalid_input ''url_template must not include URL fragments'')
     else if rl_query rl url \<noteq> None
     then Inl (invalid_input ''url_template must not include query parameters; use query_specs instead'')
     else
     bind_ok (check_known (\<lambda>k. invalid_input (''unknown queries key `'' @ k @ ''` for endpoint''))
                (pe_allowed_query_slots prepared) (keys (eo_queries options))) (\<lambda>_.
     bind_ok (emit_pairs rl (eo_queries options) (ec_query_specs e) []) (\<lambda>emitted_pairs.
     Inr (fold (\<lambda>(k, v). rl_append_pair rl k v) emitted_pairs url))))))"

section \<open>Headers of a request\<close>

text \<open>Documented behaviour of a header map: an insertion replaces the values of one name.\<close>

definition header_laws :: "('hn, 'hv, 'h) header_map \<Rightarrow> bool" where
  "header_laws hm \<longleftrightarrow>
     (\<forall>h n v n'. hm_get_all hm (hm_insert hm n v h) n' = (if n' = n then [v] else hm_get_all hm h n'))"

lemma checked_Inr [simp]: "checked m r = Inr x \<longleftrightarrow> r = Inr x"
  by (cases r) (simp_all add: checked_def map_err_def)

lemma insert_overrides_spec:
  assumes "header_laws hm" and "insert_overrides hm allowed seen ps h0 = Inr h"
  shows "(\<forall>n. n \<in> set seen \<or> n \<notin> set allowed \<longrightarrow> hm_get_all hm h n = hm_get_all hm h0 n)
    \<and> (\<forall>(k, v) \<in> set ps. \<exists>n val. hm_name hm k = Inr n \<and> hm_value hm v = Inr val \<and> n \<in> set allowed
          \<and> hm_get_all hm h n = [val])"
  using assms(2)
proof (induction ps arbitrary: seen h0)
  case (Cons p ps)
  obtain k v where p: "p = (k, v)" by (cases p)
  with Cons.prems obtain name val where nv: "hm_name hm k = Inr name" "name \<notin> set seen" "name \<in> set allowed"
      "hm_value hm v = Inr val"
    and rest: "insert_overrides hm allowed (name # seen) ps (hm_insert hm name val h0) = Inr h"
    by (auto simp: result_simps split: if_splits)
  from Cons.IH [OF rest] have keep: "\<forall>n. n \<in> set (name # seen) \<or> n \<notin> set allowed
      \<longrightarrow> hm_get_all hm h n = hm_get_all hm (hm_insert hm name val h0) n"
    and others: "\<forall>(k, v) \<in> set ps. \<exists>n val. hm_name hm k = Inr n \<and> hm_value hm v = Inr val \<and> n \<in> set allowed
      \<and> hm_get_all hm h n = [val]" by blast+
  have insert: "hm_get_all hm (hm_insert hm name val h0) n = (if n = name then [val] else hm_get_all hm h0 n)" for n
    using assms(1) by (simp add: header_laws_def)
  have "hm_get_all hm h n = hm_get_all hm h0 n" if "n \<in> set seen \<or> n \<notin> set allowed" for n
    using keep that nv(2,3) insert by (metis list.set_intros(2))
  moreover have "hm_get_all hm h name = [val]" using keep insert by simp
  ultimately show ?case using others nv p by auto
qed simp

text \<open>
  Property C39: a script changes only the headers the endpoint allows. When the headers of a request can
  be built, they can be built without the options of the script, every header that is not allowlisted has
  the same values as then, and every header the script gives is allowlisted and has exactly the given
  value, whatever defaults or configured headers have the same name.
\<close>

theorem overrides_confined:
  assumes "header_laws hm"
    and "build_headers_prepared hm USER_AGENT CONTENT_TYPE rl e default_content_type overrides prepared = Inr h"
  shows "\<exists>h0. build_headers_prepared hm USER_AGENT CONTENT_TYPE rl e default_content_type [] prepared = Inr h0
    \<and> (\<forall>n. n \<notin> set (pe_allowed_overrides prepared) \<longrightarrow> hm_get_all hm h n = hm_get_all hm h0 n)
    \<and> (\<forall>(k, v) \<in> set overrides. \<exists>n val. hm_name hm k = Inr n \<and> hm_value hm v = Inr val
         \<and> n \<in> set (pe_allowed_overrides prepared) \<and> hm_get_all hm h n = [val])"
proof -
  from assms(2) obtain h0 where h0: "build_headers_prepared hm USER_AGENT CONTENT_TYPE rl e default_content_type [] prepared = Inr h0"
    and h: "insert_overrides hm (pe_allowed_overrides prepared) [] overrides h0 = Inr h"
    by (auto simp: build_headers_prepared_def result_simps)
  with insert_overrides_spec [OF assms(1) h] show ?thesis by auto
qed


section \<open>URL of a request\<close>

definition url_delimiter :: "char \<Rightarrow> bool" where
  "url_delimiter c \<longleftrightarrow> c \<in> set ''/?#:@&=+''"

text \<open>Documented behaviour of the percent encoding of a component: it leaves no delimiter.\<close>

definition encoding_laws :: "('s, 'm, 'u) request_lib \<Rightarrow> bool" where
  "encoding_laws rl \<longleftrightarrow> (\<forall>v. filter url_delimiter (rl_percent_encode_component rl v) = [])"

fun literal_of :: "UrlTemplateChunk \<Rightarrow> string" where
  "literal_of (Literal s) = s"
| "literal_of (Slot slot) = []"

fun query_key :: "'m QuerySpec \<Rightarrow> string" where
  "query_key (QueryConst key val) = key"
| "query_key (QuerySlotted key slot mode dflt min_bytes max_bytes) = key"

lemma resolve_chunks_delimiters:
  assumes "encoding_laws rl" "resolve_chunks rl specs params chunks acc = Inr s"
  shows "filter url_delimiter s = filter url_delimiter acc @ filter url_delimiter (concat (map literal_of chunks))"
  using assms(2)
proof (induction chunks arbitrary: acc)
  case (Cons chunk chunks)
  then show ?case
    using assms(1) by (cases chunk) (auto simp: result_simps encoding_laws_def)
qed simp

lemma emit_pairs_keys:
  "emit_pairs rl queries specs acc = Inr ps \<Longrightarrow>
     \<exists>qs. ps = acc @ qs \<and> subseq (map fst qs) (map query_key specs)"
proof (induction specs arbitrary: acc)
  case (Cons spec specs)
  then show ?case
    by (cases spec) (fastforce simp: result_simps split: option.splits)+
qed simp

text \<open>
  Property C40: a script fills the slots of a URL and cannot change its structure. The URL of a request is
  parsed from a text whose delimiters are exactly those of the literal parts of the template, in their
  order; it has no fragment, and its query consists of pairs whose keys are keys of the configuration, in
  the configured order.
\<close>

theorem url_structure_fixed:
  assumes "encoding_laws rl" and "build_url_prepared rl keys e options prepared = Inr u"
  shows "\<exists>s u0 ps. rl_parse_url rl s = Inr u0
    \<and> filter url_delimiter s = filter url_delimiter (concat (map literal_of (pe_parsed_url_chunks prepared)))
    \<and> rl_fragment rl u0 = None \<and> rl_query rl u0 = None
    \<and> subseq (map fst ps) (map query_key (ec_query_specs e))
    \<and> u = fold (\<lambda>(k, v). rl_append_pair rl k v) ps u0"
proof -
  from assms(2) obtain s u0 ps where
    s: "resolve_chunks rl (ec_url_param_specs e) (eo_url_params options) (pe_parsed_url_chunks prepared) [] = Inr s"
    and u0: "rl_parse_url rl s = Inr u0" "rl_fragment rl u0 = None" "rl_query rl u0 = None"
    and ps: "emit_pairs rl (eo_queries options) (ec_query_specs e) [] = Inr ps"
    and u: "u = fold (\<lambda>(k, v). rl_append_pair rl k v) ps u0"
    unfolding build_url_prepared_def by (auto simp: result_simps split: if_splits)
  from resolve_chunks_delimiters [OF assms(1) s] emit_pairs_keys [OF ps] u0 u show ?thesis by auto
qed

section \<open>Witnesses\<close>

definition small_request_lib :: "(unit, unit, string \<times> (string \<times> string) list) request_lib" where
  "small_request_lib =
     \<lparr>rl_user_agent = ''agent'',
      rl_resolve_value = (\<lambda>_ slot provided. ok_or (invalid_input ''missing'') provided),
      rl_percent_encode_component = (\<lambda>v. concat (map (\<lambda>c. if url_delimiter c then ''%2F'' else [c]) v)),
      rl_parse_url = (\<lambda>s. Inr (s, [])), rl_fragment = (\<lambda>_. None), rl_query = (\<lambda>_. None),
      rl_append_pair = (\<lambda>k v (s, ps). (s, ps @ [(k, v)])),
      rl_validate_query_key = (\<lambda>_. Inr ()), rl_validate_slot_name = (\<lambda>_. Inr ()),
      rl_validate_min_max_bounds = (\<lambda>_ _ _. Inr ()),
      rl_resolve_slotted_query_value = (\<lambda>_ _ dflt provided _ _. Inr provided)\<rparr>"

definition small_endpoint_config :: "(unit, unit) endpoint_config" where
  "small_endpoint_config =
     \<lparr>ec_url_template = ''http://h/{id}'', ec_url_param_specs = [''id'' \<mapsto> ()],
      ec_query_specs = [QueryConst ''v'' ''1'', QuerySlotted ''page'' ''page'' () None None None],
      ec_headers = [(''x-key'', ''secret'')], ec_request_body_type = None\<rparr>"

definition small_prepared :: "string prepared_endpoint" where
  "small_prepared =
     \<lparr>pe_allowed_overrides = [''x-trace''], pe_url_slot_set = [''id''],
      pe_parsed_url_chunks = [Literal ''http://h/'', Slot ''id''], pe_allowed_query_slots = [''page'']\<rparr>"

definition slot_options :: "nat EndpointCallOptions" where
  "slot_options = \<lparr>eo_url_params = [''id'' \<mapsto> ''a/b''], eo_queries = Map.empty, eo_headers = Map.empty,
     eo_body = CallAbsent\<rparr>"

lemma small_header_laws: "header_laws small_header_map"
  by (auto simp: header_laws_def small_header_map_def filter_empty_conv intro!: arg_cong [of _ _ "map snd"] filter_cong)

lemma small_encoding_laws: "encoding_laws small_request_lib"
proof -
  have "filter url_delimiter ''%2F'' = []" by (simp add: url_delimiter_def)
  then have "filter url_delimiter (concat (map (\<lambda>c. if url_delimiter c then ''%2F'' else [c]) v)) = []" for v
    by (induction v) auto
  then show ?thesis by (simp add: encoding_laws_def small_request_lib_def)
qed


theorem overrides_confined_witness:
  "\<exists>h h0. build_headers_prepared small_header_map ''user-agent'' ''content-type'' small_request_lib small_endpoint_config
       None [(''x-trace'', ''1'')] small_prepared = Inr h
     \<and> build_headers_prepared small_header_map ''user-agent'' ''content-type'' small_request_lib small_endpoint_config
       None [] small_prepared = Inr h0
     \<and> hm_get_all small_header_map h ''x-key'' = hm_get_all small_header_map h0 ''x-key''
     \<and> hm_get_all small_header_map h ''x-trace'' = [''1'']"
proof -
  obtain h where h: "build_headers_prepared small_header_map ''user-agent'' ''content-type'' small_request_lib
      small_endpoint_config None [(''x-trace'', ''1'')] small_prepared = Inr h"
    by (simp add: build_headers_prepared_def small_header_map_def small_request_lib_def small_endpoint_config_def
        small_prepared_def checked_def map_err_def)
  moreover have "hm_name small_header_map ''x-trace'' = Inr ''x-trace''" "hm_value small_header_map ''1'' = Inr ''1''"
    by (simp_all add: small_header_map_def)
  moreover have "''x-key'' \<notin> set (pe_allowed_overrides small_prepared)" by (simp add: small_prepared_def)
  ultimately show ?thesis using overrides_confined [OF small_header_laws h] by auto
qed

theorem url_structure_fixed_witness:
  "\<exists>u. build_url_prepared small_request_lib (\<lambda>m. filter (\<lambda>k. m k \<noteq> None) [''id'', ''page'']) small_endpoint_config
       slot_options small_prepared = Inr u
     \<and> (\<exists>s u0. rl_parse_url small_request_lib s = Inr u0 \<and> filter url_delimiter s = ''://'' @ ''/'')"
proof -
  let ?keys = "\<lambda>m. filter (\<lambda>k. m k \<noteq> None) [''id'', ''page'']"
  obtain u where u: "build_url_prepared small_request_lib ?keys small_endpoint_config slot_options small_prepared = Inr u"
    by (simp add: build_url_prepared_def small_request_lib_def small_endpoint_config_def small_prepared_def
        slot_options_def ok_or_def map_err_def)
  have "filter url_delimiter (concat (map literal_of (pe_parsed_url_chunks small_prepared))) = ''://'' @ ''/''"
    by (simp add: small_prepared_def url_delimiter_def)
  with u url_structure_fixed [OF small_encoding_laws u] show ?thesis by auto
qed

end
