(* ===== verification/Script_Mime.thy ===== *)
theory Script_Mime
  imports Mime_Builtin_Properties Mime_Properties
begin

text \<open>
  The functions \<^verbatim>\<open>compose\<close> and \<^verbatim>\<open>parse\<close> of \<^verbatim>\<open>mechanics:mime\<close> together, as a script uses them: reading a message
  from script objects, rendering it, parsing the text and building script objects again.
\<close>

section \<open>Round trip\<close>





section \<open>Witness\<close>












end
