(* ===== verification/Spec2Isabelle.thy ===== *)
theory Spec2Isabelle
  imports Restart_Guard Pool_Shutdown Pool_Run Runtime_Properties Mime_Properties Endpoint_Properties
    Buffer_Properties Codec_Properties Url_Properties Mime_Builtin_Properties Endpoint_Builtin_Properties
    Builtin_Calls Worker_Runtime Pool_Constructor Endpoint_Request Script_Mime
begin

text \<open>
  A verification development of \<^verbatim>\<open>mechanics-core\<close>, a library that runs JavaScript jobs on a pool of
  worker threads, each with its own script runtime, and gives the scripts configured HTTP endpoints and
  built-in modules. All paths are below \<^verbatim>\<open>src/internal/\<close>.

  \<^bold>\<open>The program and its model.\<close>
  A caller hands a job to the pool (\<^verbatim>\<open>pool/api.rs\<close>); the job waits in a bounded queue, a worker thread
  receives it and runs it on its runtime (\<^verbatim>\<open>runtime.rs\<close>), which evaluates the module with an executor of
  promise jobs, timers and futures (\<^verbatim>\<open>executor.rs\<close>), and the reply goes back over a channel of capacity
  one. A supervisor restarts dead workers under a rate limit; dropping the pool stops everything.
  Scripts call endpoints (\<^verbatim>\<open>http/\<close>) and modules such as \<^verbatim>\<open>mechanics:mime\<close>.

  \<^item> \<open>Prelude\<close>: results, fixed-width arithmetic, durations and instants, list lemmas; \<open>Strings\<close>: bytes,
    UTF-8 and the string operations of the standard library.
  \<^item> \<open>Errors\<close>: \<^verbatim>\<open>error.rs\<close>. \<open>Jobs\<close>: \<^verbatim>\<open>job.rs\<close>, jobs and limits with their (de)serialization as records
    and functions on JSON values. \<open>Pool_Config\<close>: \<^verbatim>\<open>pool/config.rs\<close>. \<open>Pool_Metrics\<close>: \<^verbatim>\<open>pool/metrics.rs\<close>.
  \<^item> \<open>Restart_Guard\<close>: \<^verbatim>\<open>pool/restart_guard.rs\<close>, with the limiter interface as a locale.
  \<^item> \<open>Worker_Pool\<close>: \<^verbatim>\<open>pool/shared.rs\<close>, \<^verbatim>\<open>worker.rs\<close>, \<^verbatim>\<open>api.rs\<close>, \<^verbatim>\<open>constructor.rs\<close> and \<^verbatim>\<open>drop_impl.rs\<close> as
    atomic steps of callers, workers, supervisor and owner on the record \<open>pool\<close>; the relation \<open>pool_step\<close>
    gives every interleaving. A step is what a thread does between two points at which others can
    interfere: one lock section, channel operation or atomic access.
  \<^item> \<open>Pool_Jobs\<close>, \<open>Pool_Invariant\<close>: the invariants, one preservation lemma per step. \<open>Pool_Properties\<close>:
    what they give the callers, and the refinement of an abstract service of calls.
  \<^item> \<open>Pool_Shutdown\<close>: what a drop leaves, where it can be stuck, and a run in which it never returns.
  \<^item> \<open>Pool_Constructor\<close>: the guard of \<^verbatim>\<open>constructor.rs\<close> stage by stage, and its agreement with the drop.
  \<^item> \<open>Worker_Runtime\<close>: workers whose steps are those of the run of their job on their own runtime. It joins
    \<open>Worker_Pool\<close> and \<open>Runtime\<close>: its states are reachable pools, a value a caller gets is the result of its own
    job on a clean runtime, and a worker is never held up in a job.
  \<^item> \<open>Pool_Run\<close>: \<^verbatim>\<open>run\<close> and \<^verbatim>\<open>run_nonblocking_enqueue\<close> of \<^verbatim>\<open>api.rs\<close> as functions of what one caller
    observes (clock, queue, reply), for deadlines, errors and metrics.
  \<^item> \<open>Timer_Queue\<close>, \<open>Executor\<close>: \<^verbatim>\<open>executor.rs\<close>; the timer map is an interpretation of the locale
    \<open>timer_queue\<close>. \<open>Executor_Properties\<close>: meaning of the exits, order, waits and termination.
  \<^item> \<open>Runtime\<close>: \<^verbatim>\<open>runtime.rs\<close>, the whole run of a job. \<open>Runtime_Properties\<close>: one answer per job, a clean
    runtime afterwards, the meaning of the answer, termination.
  \<^item> \<open>Transport\<close>, \<open>Endpoint\<close>: \<^verbatim>\<open>http/transport.rs\<close>, \<^verbatim>\<open>headers.rs\<close>, \<^verbatim>\<open>options.rs\<close> and
    \<^verbatim>\<open>endpoint/execute.rs\<close>. \<open>Endpoint_Properties\<close>: attempts, time, outcomes and limits of a call.
  \<^item> \<open>Endpoint_Request\<close>: \<^verbatim>\<open>endpoint/request.rs\<close>, the builder of headers, URL and query; a script changes only
    allowlisted headers and fills the slots of the URL. No module declares this file; the code in use is in
    the crate \<^verbatim>\<open>mechanics_config\<close>.
  \<^item> \<open>Mime_Codec\<close>, \<open>Mime_Message\<close>: \<^verbatim>\<open>runtime/builtins/mime.rs\<close>. \<open>Mime_Codec_Properties\<close>,
    \<open>Mime_Headers\<close>, \<open>Mime_Properties\<close>: round trips of encodings, header blocks and whole messages.
  \<^item> \<open>Js_Host\<close>: what native functions use of the script engine, the record \<open>js\<close>, and their computations
    \<open>jsc\<close>, which pass the world of the engine and end with a value or an exception. \<open>Small_Js\<close>: a small
    engine with objects and buffers in a store, for the witnesses.
  \<^item> \<open>Buffer_Like\<close>, \<open>Buffer_Properties\<close>: \<^verbatim>\<open>runtime/buffer_like.rs\<close> and \<^verbatim>\<open>builtins/rand.rs\<close>; reads and random
    fills stay in the range of a view.
  \<^item> \<open>Codec_Builtins\<close>, \<open>Codec_Properties\<close>: \<^verbatim>\<open>builtins/base64.rs\<close>, \<^verbatim>\<open>base32.rs\<close>, \<^verbatim>\<open>hex.rs\<close>, \<^verbatim>\<open>html.rs\<close>,
    \<^verbatim>\<open>form_urlencoded.rs\<close>, \<^verbatim>\<open>uuid.rs\<close> and \<^verbatim>\<open>console.rs\<close>. The locale \<open>codec_module\<close> is the contract of a codec
    module; its five interpretations give the round trips.
  \<^item> \<open>Url_Builtin\<close>, \<open>Url_Properties\<close>: \<^verbatim>\<open>builtins/url.rs\<close>. The reference-counted cells behind URL and
    URLSearchParams objects are indices of the store \<open>url_world\<close>, so that objects can share one. The locale
    \<open>shared_lists\<close> is the contract of cells that hold lists of pairs.
  \<^item> \<open>Mime_Builtin\<close>, \<open>Mime_Builtin_Properties\<close>: reading a message from script objects and building objects
    for a parsed one; what is read is well formed, and reading ends on finite trees of parts but not on a
    message that is its own part.
  \<^item> \<open>Script_Mime\<close>: composing and parsing a message as a script does both.
  \<^item> \<open>Endpoint_Builtin\<close>, \<open>Endpoint_Builtin_Properties\<close>: \<^verbatim>\<open>builtins/endpoint.rs\<close> and the conversions of
    \<^verbatim>\<open>builtins/mod.rs\<close> around \<open>execute_endpoint\<close>.
  \<^item> \<open>Builtin_Modules\<close>: the registration of all modules and classes with the module loader of \<open>Executor\<close>.
    \<open>Builtin_Calls\<close>: the definitions behind the registered names; every exported function is one of them.

  \<^bold>\<open>Parameters.\<close>
  Code outside the repository is an argument of the definitions that use it: the script engine (record
  \<open>engine\<close>, with its clock and the effects of its jobs), the JSON form of its values, the endpoint
  configuration (\<open>http_endpoint\<close>, \<open>retry_policy\<close>), the HTTP client (\<open>http_client\<close>), header maps, the
  asynchronous clock (\<open>timing\<close>) and the Base64 codec (\<open>codec\<close>). For the built-in modules they are the values
  and objects of the engine (\<open>js\<close>), its native classes (\<open>class_ops\<close>), the encoders (\<open>encodings\<close>), the crates
  \<^verbatim>\<open>htmlize\<close>, \<^verbatim>\<open>form_urlencoded\<close>, \<^verbatim>\<open>url\<close> and \<^verbatim>\<open>uuid\<close> (\<open>html_lib\<close>, \<open>form_lib\<close>, \<open>url_lib\<close>, \<open>uuid_lib\<close>) and the
  source of random bytes. The request builder has the functions of \<^verbatim>\<open>mechanics_config\<close> it calls (\<open>request_lib\<close>). What a theorem needs of them is a named hypothesis (\<open>timing_ok\<close>, \<open>client_timely\<close>,
  \<open>http_client_ok\<close>, \<open>codec_laws\<close>, \<open>encodings_ok\<close>, \<open>query_laws\<close>, \<open>class_laws\<close>, \<open>buffer_laws\<close>, \<open>engine_keeps\<close>,
  \<open>string_values\<close>, \<open>header_laws\<close>, \<open>encoding_laws\<close>), and its witness uses a small concrete instance.

  \<^bold>\<open>Bounds.\<close>
  The executor loop and the runtime take fuel; the termination theorems show that some fuel suffices
  when the clock advances, and more fuel does not change a result. Reading a MIME message from script
  objects takes fuel for the depth of its parts: enough exists for every finite tree, and none for a
  message that contains itself. The retry loop and all parsers are total functions. The boundary search of MIME messages is bounded by the number of attempts a
  \<^verbatim>\<open>usize\<close> can count, and finds a boundary within them. Byte strings are lists of characters; lengths and
  counters are natural numbers with the limits of their types written out.

  \<^bold>\<open>Not modelled.\<close>
  Log output. Module declarations and re-exports (\<^verbatim>\<open>lib.rs\<close>, \<^verbatim>\<open>mod.rs\<close> files, \<^verbatim>\<open>http/wrappers.rs\<close>) have no
  behaviour of their own. Test code and plain accessors of fields have no definitions; the debug assertions
  of the request builder, absent from a release build, are left out. A run of a job is computed when its
  worker takes the job: the runtime is local to its thread, and what the script engine does outside of it,
  such as network traffic, is part of the world of that runtime.
\<close>

section \<open>Endpoint calls with the default client\<close>

text \<open>
  Property C22: with the default client the timeout of an endpoint bounds the call end to end. The
  retry loop of the endpoint and the deadline of the client add up to at most nine latencies of the
  clock and the network library after the timeout.
\<close>

theorem default_call_time_bounded:
  assumes "timing_ok tm clock eps" and "http_client_ok mh clock eps"
    and "ce_timing ce = tm" and "ce_execute ce = default_execute tm (ce_header_map ce) mh"
    and "or_default (he_timeout_ms he) dt = Some t"
    and "clock w + eps + from_millis t \<le> tm_clock_max tm"
  shows "clock (snd (execute_endpoint ce he allow dt dm options w)) \<le> clock w + from_millis t + 9 * eps"
proof -
  have "client_timely (ce_execute ce) clock (5 * eps)"
    using assms(1,2,4) default_execute_time by (fastforce simp: client_timely_def)
  with assms have "clock (snd (execute_endpoint ce he allow dt dm options w)) \<le> clock w + from_millis t + 4 * eps + 5 * eps"
    by (intro call_timeD) simp_all
  then show ?thesis by simp
qed

theorem default_call_time_bounded_witness:
  "fst (snd (execute_endpoint (small_env\<lparr>ce_execute := default_execute small_timing small_header_map small_client\<rparr>)
     small_endpoint [] None None small_options (0, 0))) \<le> from_millis 5 + 90"
proof -
  let ?ce = "small_env\<lparr>ce_execute := default_execute small_timing small_header_map small_client\<rparr>"
  have ce: "ce_timing ?ce = small_timing" "ce_execute ?ce = default_execute small_timing (ce_header_map ?ce) small_client"
    "or_default (he_timeout_ms small_endpoint) None = Some 5" "fst (0::nat, 0::nat) + 10 + from_millis 5 \<le> tm_clock_max small_timing"
    by (simp_all add: small_env_def small_endpoint_def or_default_def from_millis_def small_timing_def)
  from default_call_time_bounded [OF small_timing_ok(1) small_client_ok ce] show ?thesis by simp
qed

end
